(* ===== verification/Prelude.thy ===== *)
theory Prelude
  imports Main "HOL-Library.AList" "HOL-Library.Sublist" "HOL-Library.Char_ord"
    "HOL-Library.List_Lexorder"
begin

text \<open>
  What every component shares: the Go values the proxy computes with and the lemmas about them.
  A Go string is its sequence of bytes, so it is a \<^typ>\<open>string\<close>.  The functions of package
  \<open>strings\<close> that the source calls are defined here on bytes; \<open>ToLower\<close> acts on the ASCII
  letters only, which is all a header field name admitted by \<open>net/http\<close> can hold.
  A Go \<open>map[string][]string\<close> is an association list with distinct keys whose order stands for
  the order in which one \<open>range\<close> loop visits the map; nothing proved about it depends on
  that order unless the statement says so.
  The locale \<open>multimap\<close> is the interface of the maps that only grow by appending one value
  at a key: the extra fields of a user, a header, the values of a query and of a flag.
\<close>

named_theorems go_strings \<open>facts on the byte string functions\<close>

abbreviation newline :: char where
  "newline \<equiv> CHR 0x0A"

section \<open>Errors and results\<close>

text \<open>
  The sentinel errors of the source, and every other error by its message.  A call either
  returns a value, returns an error or panics (an index out of range, a nil dereference).
\<close>

datatype go_error =
    ErrUnauthorized
  | ErrNoName
  | ErrNoImpersonationConfig
  | ErrNoImpersonationUserFound
  | ErrMsg string

fun Error :: "go_error \<Rightarrow> string" where
  "Error ErrUnauthorized = ''Unauthorized''"
| "Error ErrNoName = ''No name in OIDC info''"
| "Error ErrNoImpersonationConfig = ''No impersonation configuration in context''"
| "Error ErrNoImpersonationUserFound = ''no Impersonation-User header found for request''"
| "Error (ErrMsg m) = m"

datatype 'a result = Ok 'a | Err go_error | Panic

fun map_result :: "('a \<Rightarrow> 'b) \<Rightarrow> 'a result \<Rightarrow> 'b result" where
  "map_result f (Ok x) = Ok (f x)"
| "map_result f (Err e) = Err e"
| "map_result f Panic = Panic"

lemma map_result_eq_Ok [simp]: "map_result f r = Ok y \<longleftrightarrow> (\<exists>x. r = Ok x \<and> y = f x)"
  by (cases r) auto

lemma map_result_eq_Panic [simp]: "map_result f r = Panic \<longleftrightarrow> r = Panic"
  by (cases r) auto

lemma map_result_eq_Err [simp]: "map_result f r = Err e \<longleftrightarrow> r = Err e"
  by (cases r) auto

lemma map_result_map_result [simp]: "map_result f (map_result g r) = map_result (\<lambda>x. f (g x)) r"
  by (cases r) auto

lemma map_result_ident [simp]: "map_result (\<lambda>x. x) r = r"
  by (cases r) auto

lemma map_result_id [simp]: "map_result id r = r"
  by (cases r) auto

lemma map_result_pair [simp]: "map_result (\<lambda>(x, y). (x, y)) r = r"
  by (cases r) auto

section \<open>Strings\<close>

fun split_on :: "char \<Rightarrow> string \<Rightarrow> string list" where
  "split_on c [] = [[]]"
| "split_on c (x # xs) =
     (if x = c then [] # split_on c xs
      else (case split_on c xs of [] \<Rightarrow> [[x]] | w # ws \<Rightarrow> (x # w) # ws))"

fun join :: "string \<Rightarrow> string list \<Rightarrow> string" where
  "join sep [] = []"
| "join sep [w] = w"
| "join sep (w # v # ws) = w @ sep @ join sep (v # ws)"

definition lower_char :: "char \<Rightarrow> char" where
  "lower_char c = (let n = (of_char c :: nat) in if 65 \<le> n \<and> n \<le> 90 then char_of (n + 32) else c)"

definition upper_char :: "char \<Rightarrow> char" where
  "upper_char c = (let n = (of_char c :: nat) in if 97 \<le> n \<and> n \<le> 122 then char_of (n - 32) else c)"

definition ToLower :: "string \<Rightarrow> string" where
  "ToLower s = map lower_char s"

text \<open>\<open>strings.Index(s, c)\<close> for a one byte separator: the first position, or -1.\<close>

fun index_char :: "char \<Rightarrow> string \<Rightarrow> int" where
  "index_char c [] = - 1"
| "index_char c (x # xs) =
     (if x = c then 0 else (let i = index_char c xs in if i < 0 then - 1 else i + 1))"

text \<open>
  \<open>strings.TrimSpace\<close> cuts the characters with Unicode's White Space property, here in their
  UTF-8 encodings, from both ends.
\<close>

definition go_spaces :: "string list" where
  "go_spaces =
     [[CHR 0x20], [CHR 0x09], [CHR 0x0A], [CHR 0x0B], [CHR 0x0C], [CHR 0x0D],
      [CHR 0xC2, CHR 0x85], [CHR 0xC2, CHR 0xA0], [CHR 0xE1, CHR 0x9A, CHR 0x80],
      [CHR 0xE2, CHR 0x80, CHR 0x80], [CHR 0xE2, CHR 0x80, CHR 0x81],
      [CHR 0xE2, CHR 0x80, CHR 0x82], [CHR 0xE2, CHR 0x80, CHR 0x83],
      [CHR 0xE2, CHR 0x80, CHR 0x84], [CHR 0xE2, CHR 0x80, CHR 0x85],
      [CHR 0xE2, CHR 0x80, CHR 0x86], [CHR 0xE2, CHR 0x80, CHR 0x87],
      [CHR 0xE2, CHR 0x80, CHR 0x88], [CHR 0xE2, CHR 0x80, CHR 0x89],
      [CHR 0xE2, CHR 0x80, CHR 0x8A], [CHR 0xE2, CHR 0x80, CHR 0xA8],
      [CHR 0xE2, CHR 0x80, CHR 0xA9], [CHR 0xE2, CHR 0x80, CHR 0xAF],
      [CHR 0xE2, CHR 0x81, CHR 0x9F], [CHR 0xE3, CHR 0x80, CHR 0x80]]"

function trim_left :: "string list \<Rightarrow> string \<Rightarrow> string" where
  "trim_left sp s =
     (case find (\<lambda>w. w \<noteq> [] \<and> prefix w s) sp of
        None \<Rightarrow> s
      | Some w \<Rightarrow> trim_left sp (drop (length w) s))"
  by pat_completeness auto
termination
proof (relation "measure (\<lambda>(sp, s). length s)", simp)
  fix sp :: "string list" and s w :: string
  assume "find (\<lambda>w. w \<noteq> [] \<and> prefix w s) sp = Some w"
  then have "w \<noteq> []" and "prefix w s" by (auto simp: find_Some_iff)
  then show "((sp, drop (length w) s), sp, s) \<in> measure (\<lambda>(sp, s). length s)"
    by (auto simp: prefix_def)
qed

declare trim_left.simps [simp del]

definition TrimSpace :: "string \<Rightarrow> string" where
  "TrimSpace s = rev (trim_left (map rev go_spaces) (rev (trim_left go_spaces s)))"


subsection \<open>Splitting and joining\<close>

lemma split_on_neq_Nil [simp]: "split_on c s \<noteq> []"
  by (induction s) (auto split: list.splits)

lemma join_single_Cons: "ws \<noteq> [] \<Longrightarrow> join sep (w # ws) = w @ sep @ join sep ws"
  by (cases ws) auto

lemma join_Cons_char: "join sep ((x # w) # ws) = x # join sep (w # ws)"
  by (cases ws) auto

lemma join_split_on [go_strings]: "join [c] (split_on c s) = s"
proof (induction s)
  case (Cons x xs)
  then show ?case
    by (cases "split_on c xs") (auto simp: join_single_Cons join_Cons_char)
qed simp

lemma split_on_no_sep [go_strings]: "w \<in> set (split_on c s) \<Longrightarrow> c \<notin> set w"
proof (induction s arbitrary: w)
  case (Cons x xs)
  show ?case
  proof (cases "x = c")
    case False
    with Cons show ?thesis by (cases "split_on c xs") auto
  qed (use Cons in auto)
qed simp

lemma split_on_append [go_strings]:
  "c \<notin> set w \<Longrightarrow> split_on c (w @ s) = (case split_on c s of [] \<Rightarrow> [w] | v # vs \<Rightarrow> (w @ v) # vs)"
  by (induction w) (auto split: list.splits)

lemma split_on_plain [simp]: "c \<notin> set w \<Longrightarrow> split_on c w = [w]"
  using split_on_append [of c w "[]"] by simp

lemma split_on_snoc [go_strings]: "c \<notin> set w \<Longrightarrow> split_on c (w @ c # s) = w # split_on c s"
  using split_on_append [of c w "c # s"] by simp

lemma split_on_join [go_strings]:
  "ws \<noteq> [] \<Longrightarrow> \<forall>w \<in> set ws. c \<notin> set w \<Longrightarrow> split_on c (join [c] ws) = ws"
  by (induction "[c]" ws rule: join.induct) (auto simp: split_on_snoc)

lemma set_join: "set (join sep ws) \<subseteq> set sep \<union> (\<Union>w \<in> set ws. set w)"
  by (induction sep ws rule: join.induct) auto

subsection \<open>Trimming\<close>

lemma trim_left_id:
  assumes "\<And>w. w \<in> set sp \<Longrightarrow> w \<noteq> [] \<Longrightarrow> \<not> prefix w s"
  shows "trim_left sp s = s"
proof -
  have "find (\<lambda>w. w \<noteq> [] \<and> prefix w s) sp = None" using assms by (auto simp: find_None_iff)
  then show ?thesis by (subst trim_left.simps) simp
qed

lemma length_trim_left: "length (trim_left sp s) \<le> length s"
proof (induction sp s rule: trim_left.induct)
  case (1 sp s)
  show ?case
  proof (cases "find (\<lambda>w. w \<noteq> [] \<and> prefix w s) sp")
    case None
    then show ?thesis by (subst trim_left.simps) simp
  next
    case (Some w)
    from 1 [OF Some] have "length (trim_left sp (drop (length w) s)) \<le> length s" by simp
    with Some show ?thesis by (subst trim_left.simps) simp
  qed
qed

lemma trim_left_fixed:
  assumes "trim_left sp s = s" and "w \<in> set sp" and "w \<noteq> []"
  shows "\<not> prefix w s"
proof
  assume "prefix w s"
  with assms(2,3) obtain v where v: "find (\<lambda>w. w \<noteq> [] \<and> prefix w s) sp = Some v"
    by (cases "find (\<lambda>w. w \<noteq> [] \<and> prefix w s) sp") (auto simp: find_None_iff)
  then have "v \<noteq> []" "prefix v s" by (auto simp: find_Some_iff)
  have "trim_left sp s = trim_left sp (drop (length v) s)"
    using v by (subst trim_left.simps) simp
  with assms(1) length_trim_left [of sp "drop (length v) s"] \<open>v \<noteq> []\<close> \<open>prefix v s\<close>
  show False by (auto simp: prefix_def)
qed

lemma trim_left_suffix: "suffix (trim_left sp s) s"
proof (induction sp s rule: trim_left.induct)
  case (1 sp s)
  show ?case
  proof (cases "find (\<lambda>w. w \<noteq> [] \<and> prefix w s) sp")
    case None
    then show ?thesis by (subst trim_left.simps) simp
  next
    case (Some w)
    from 1 [OF Some] have "suffix (trim_left sp (drop (length w) s)) s"
      by (rule suffix_order.trans) (rule suffix_drop)
    with Some show ?thesis by (subst trim_left.simps) simp
  qed
qed

lemma TrimSpace_id_iff:
  "TrimSpace s = s \<longleftrightarrow> (\<forall>w \<in> set go_spaces. \<not> prefix w s \<and> \<not> suffix w s)"
proof
  assume same: "TrimSpace s = s"
  let ?l = "trim_left go_spaces s"
  have "length s \<le> length ?l"
    using length_trim_left [of "map rev go_spaces" "rev ?l"] same
    by (metis TrimSpace_def length_rev)
  obtain p where p: "s = p @ ?l"
    using trim_left_suffix suffixE by blast
  with \<open>length s \<le> length ?l\<close> have "p = []" by (metis add_le_same_cancel2 le_zero_eq length_0_conv length_append)
  with p have l: "trim_left go_spaces s = s" by simp
  with same have r: "trim_left (map rev go_spaces) (rev s) = rev s"
    by (metis TrimSpace_def rev_rev_ident)
  have ne: "w \<noteq> []" if "w \<in> set go_spaces" for w using that by (auto simp: go_spaces_def)
  show "\<forall>w \<in> set go_spaces. \<not> prefix w s \<and> \<not> suffix w s"
    using trim_left_fixed [OF l] trim_left_fixed [OF r] ne by (auto simp: suffix_to_prefix)
next
  assume "\<forall>w \<in> set go_spaces. \<not> prefix w s \<and> \<not> suffix w s"
  then have "trim_left go_spaces s = s" "trim_left (map rev go_spaces) (rev s) = rev s"
    by (auto intro!: trim_left_id simp: suffix_to_prefix)
  then show "TrimSpace s = s" by (simp add: TrimSpace_def)
qed

section \<open>Lower case\<close>

lemma of_char_less: "(of_char c :: nat) < 256"
proof -
  have "(of_char c :: nat) = of_char (char_of (of_char c :: nat))" by simp
  also have "\<dots> = of_char c mod 256" by (rule of_char_of)
  also have "\<dots> < 256" by simp
  finally show ?thesis .
qed

lemma of_char_of_small: "n < 256 \<Longrightarrow> (of_char (char_of n) :: nat) = n"
  by (simp add: of_char_of)

text \<open>On a literal character the case functions are bit operations, so the simplifier computes them.\<close>

lemma lower_char_Char [simp]:
  "lower_char (Char b0 b1 b2 b3 b4 b5 b6 b7) =
     Char b0 b1 b2 b3 b4
       (b5 \<or> b6 \<and> \<not> b7 \<and> (b0 \<or> b1 \<or> b2 \<or> b3 \<or> b4) \<and> \<not> (b4 \<and> b3 \<and> (b2 \<or> b1 \<and> b0))) b6 b7"
  by (cases b0; cases b1; cases b2; cases b3; cases b4; cases b5; cases b6; cases b7; simp add: lower_char_def upper_char_def char_of_def bit_0)

lemma upper_char_Char [simp]:
  "upper_char (Char b0 b1 b2 b3 b4 b5 b6 b7) =
     Char b0 b1 b2 b3 b4
       (b5 \<and> \<not> (b6 \<and> \<not> b7 \<and> (b0 \<or> b1 \<or> b2 \<or> b3 \<or> b4) \<and> \<not> (b4 \<and> b3 \<and> (b2 \<or> b1 \<and> b0)))) b6 b7"
  by (cases b0; cases b1; cases b2; cases b3; cases b4; cases b5; cases b6; cases b7; simp add: lower_char_def upper_char_def char_of_def bit_0)

lemma lower_char_idem [simp]: "lower_char (lower_char c) = lower_char c"
  by (simp add: lower_char_def Let_def of_char_of_small)

lemma ToLower_idem [simp]: "ToLower (ToLower s) = ToLower s"
  by (simp add: ToLower_def)

lemma ToLower_simps [simp]:
  "ToLower [] = []" "ToLower (c # s) = lower_char c # ToLower s"
  "ToLower (s @ t) = ToLower s @ ToLower t"
  by (simp_all add: ToLower_def)

lemma length_ToLower [simp]: "length (ToLower s) = length s"
  by (simp add: ToLower_def)

section \<open>Association lists as Go maps\<close>

type_synonym smap = "(string \<times> string list) list"

abbreviation keys_of :: "('k \<times> 'v) list \<Rightarrow> 'k list" where
  "keys_of m \<equiv> map fst m"

abbreviation key_set :: "('k \<times> 'v) list \<Rightarrow> 'k set" where
  "key_set m \<equiv> fst ` set m"

definition wf_map :: "('k \<times> 'v) list \<Rightarrow> bool" where
  "wf_map m \<longleftrightarrow> distinct (keys_of m)"

text \<open>\<open>m[k]\<close> of a missing key is the zero value, here the nil slice.\<close>

definition mm_vals :: "('k \<times> 'v list) list \<Rightarrow> 'k \<Rightarrow> 'v list" where
  "mm_vals m k = (case map_of m k of None \<Rightarrow> [] | Some vs \<Rightarrow> vs)"

text \<open>\<open>m[k] = append(m[k], v)\<close>\<close>

definition mm_append :: "'k \<Rightarrow> 'v \<Rightarrow> ('k \<times> 'v list) list \<Rightarrow> ('k \<times> 'v list) list" where
  "mm_append k v m = AList.update k (mm_vals m k @ [v]) m"

lemma wf_map_simps [simp]:
  "wf_map []" "wf_map ((k, v) # m) \<longleftrightarrow> k \<notin> key_set m \<and> wf_map m"
  by (simp_all add: wf_map_def)

lemma wf_map_update [simp]: "wf_map m \<Longrightarrow> wf_map (AList.update k v m)"
  by (simp add: wf_map_def distinct_update)

lemma wf_map_append [simp]: "wf_map m \<Longrightarrow> wf_map (mm_append k v m)"
  by (simp add: mm_append_def)

lemma mm_vals_update [simp]:
  "mm_vals (AList.update k vs m) k' = (if k' = k then vs else mm_vals m k')"
  by (simp add: mm_vals_def update_conv)

lemma mm_vals_append [simp]:
  "mm_vals (mm_append k v m) k' = (if k' = k then mm_vals m k @ [v] else mm_vals m k')"
  by (simp add: mm_append_def)

lemma mm_vals_empty [simp]: "mm_vals [] k = []"
  by (simp add: mm_vals_def)

lemma mm_vals_Cons: "mm_vals ((k, vs) # m) k' = (if k' = k then vs else mm_vals m k')"
  by (simp add: mm_vals_def)

lemma mm_vals_mem: "wf_map m \<Longrightarrow> (k, vs) \<in> set m \<Longrightarrow> mm_vals m k = vs"
  by (simp add: mm_vals_def wf_map_def)

lemma mm_vals_not_key: "k \<notin> key_set m \<Longrightarrow> mm_vals m k = []"
  by (simp add: mm_vals_def map_of_eq_None_iff [symmetric])

section \<open>The interface of maps that grow by appending\<close>

locale multimap =
  fixes vals :: "'m \<Rightarrow> 'k \<Rightarrow> 'v list"
    and add :: "'m \<Rightarrow> 'k \<Rightarrow> 'v \<Rightarrow> 'm"
    and empty :: "'m"
    and norm :: "'k \<Rightarrow> 'k"
  assumes vals_empty: "vals empty k = []"
    and vals_add: "vals (add m k v) k' = vals m k' @ (if norm k' = norm k then [v] else [])"
begin

lemma vals_add_pairs:
  "vals (foldl (\<lambda>m (k, v). add m k v) m kvs) k'
     = vals m k' @ map snd (filter (\<lambda>(k, v). norm k' = norm k) kvs)"
  by (induction kvs arbitrary: m) (auto simp: vals_add)

lemma vals_add_values:
  "vals (foldl (\<lambda>m v. add m k v) m vs) k' = vals m k' @ (if norm k' = norm k then vs else [])"
  by (induction vs arbitrary: m) (auto simp: vals_add)

lemma vals_built: "vals (foldl (\<lambda>m (k, v). add m k v) empty kvs) k'
     = map snd (filter (\<lambda>(k, v). norm k' = norm k) kvs)"
  by (simp add: vals_add_pairs vals_empty)

lemma vals_add_map:
  "vals (foldl (\<lambda>m (k, vs). foldl (\<lambda>m v. add m k v) m vs) m kvss) k'
     = vals m k' @ concat (map snd (filter (\<lambda>(k, vs). norm k' = norm k) kvss))"
  by (induction kvss arbitrary: m) (auto simp: vals_add_values)

end

interpretation go_map: multimap mm_vals "\<lambda>m k v. mm_append k v m" "[]" "\<lambda>k. k"
  by unfold_locales auto

text \<open>Over a map with distinct keys, the entries at one key are the values of that key.\<close>

lemma concat_filter_key:
  "wf_map m \<Longrightarrow> concat (map snd (filter (\<lambda>(k, vs). k' = k) m)) = mm_vals m k'"
proof (induction m)
  case (Cons a m)
  obtain k vs where "a = (k, vs)" by fastforce
  with Cons show ?case
    by (cases "k' = k") (auto simp: mm_vals_Cons mm_vals_not_key)
qed simp

text \<open>What a loop does to one field of its state, when only some elements touch it.\<close>

lemma fold_project:
  assumes "\<And>e u. p (f e u) = (if P e then g e (p u) else p u)"
  shows "p (fold f es u) = fold g (filter P es) (p u)"
  by (induction es arbitrary: u) (auto simp: assms)

lemma map_of_same_set: "wf_map m \<Longrightarrow> wf_map m' \<Longrightarrow> set m = set m' \<Longrightarrow> map_of m = map_of m'"
  by (rule ext) (metis map_of_eq_Some_iff option.exhaust wf_map_def)

lemma mm_vals_same_set: "wf_map m \<Longrightarrow> wf_map m' \<Longrightarrow> set m = set m' \<Longrightarrow> mm_vals m k = mm_vals m' k"
  by (simp add: mm_vals_def map_of_same_set [of m m'])

end
