(* ===== verification/Http.thy ===== *)
theory Http
  imports Prelude
begin

text \<open>
  The part of \<open>net/http\<close> that the proxy computes with: canonical header field names and the
  operations of \<open>http.Header\<close>.  A header is a Go \<open>map[string][]string\<close>; the server stores
  every field under its canonical name, which \<open>wf_header\<close> states.  The operations are shown to
  be an instance of the \<open>multimap\<close> interface up to canonicalisation of the key, and a client
  that copies selected fields gets its facts from there.
\<close>

section \<open>Canonical field names\<close>

definition valid_header_byte :: "char \<Rightarrow> bool" where
  "valid_header_byte c \<longleftrightarrow>
     (let n = (of_char c :: nat) in
        65 \<le> n \<and> n \<le> 90 \<or> 97 \<le> n \<and> n \<le> 122 \<or> 48 \<le> n \<and> n \<le> 57 \<or>
        c \<in> set [CHR ''!'', CHR ''#'', CHR ''$'', CHR ''%'', CHR ''&'', CHR 0x27, CHR ''*'',
                CHR ''+'', CHR ''-'', CHR ''.'', CHR ''^'', CHR ''_'', CHR 0x60, CHR ''|'', CHR ''~''])"

fun canon_bytes :: "bool \<Rightarrow> string \<Rightarrow> string" where
  "canon_bytes up [] = []"
| "canon_bytes up (c # s) =
     (if up then upper_char c else lower_char c) # canon_bytes (c = CHR ''-'') s"

definition canonical :: "string \<Rightarrow> string" where
  "canonical k = (if list_all valid_header_byte k then canon_bytes True k else k)"

lemma of_char_eq_iff: "(of_char c :: nat) = of_char d \<longleftrightarrow> c = d"
  by (metis char_of_char)

lemma char_cases_nat: obtains n where "c = char_of (n::nat)" and "n < 256"
  by (metis char_of_char of_char_less)

lemma char_of_eq_small: "n < 256 \<Longrightarrow> m < 256 \<Longrightarrow> (char_of n = char_of (m::nat)) = (n = m)"
  by (metis of_char_of_small)

lemma lower_upper [simp]: "lower_char (upper_char c) = lower_char c"
  by (rule char_cases_nat [of c])
     (auto simp: lower_char_def upper_char_def Let_def of_char_of_small char_of_eq_small)

lemma upper_lower [simp]: "upper_char (lower_char c) = upper_char c"
  by (rule char_cases_nat [of c])
     (auto simp: lower_char_def upper_char_def Let_def of_char_of_small char_of_eq_small)

lemma upper_upper [simp]: "upper_char (upper_char c) = upper_char c"
  by (rule char_cases_nat [of c])
     (auto simp: lower_char_def upper_char_def Let_def of_char_of_small char_of_eq_small)

lemma dash_lower [simp]: "lower_char c = CHR ''-'' \<longleftrightarrow> c = CHR ''-''"
proof -
  have "CHR ''-'' = char_of (45::nat)" by code_simp
  then show ?thesis
    by (rule_tac char_cases_nat [of c])
       (auto simp: lower_char_def Let_def of_char_of_small char_of_eq_small)
qed

lemma dash_upper [simp]: "upper_char c = CHR ''-'' \<longleftrightarrow> c = CHR ''-''"
  by (metis dash_lower lower_upper)

lemma valid_lower [simp]: "valid_header_byte (lower_char c) = valid_header_byte c"
proof -
  obtain n :: nat where c: "c = char_of n" and n: "n < 256" by (rule char_cases_nat [of c])
  show ?thesis
  proof (cases "65 \<le> n \<and> n \<le> 90")
    case True
    then show ?thesis
      using c n by (simp add: valid_header_byte_def lower_char_def Let_def of_char_of_small)
  next
    case False
    then show ?thesis using c n by (auto simp: lower_char_def Let_def of_char_of_small)
  qed
qed

lemma valid_upper [simp]: "valid_header_byte (upper_char c) = valid_header_byte c"
  by (metis valid_lower lower_upper)

lemma lower_canon_bytes [simp]: "ToLower (canon_bytes up s) = ToLower s"
  by (induction s arbitrary: up) auto

lemma canon_bytes_lower [simp]: "canon_bytes up (ToLower s) = canon_bytes up s"
  by (induction s arbitrary: up) auto

lemma canon_bytes_idem [simp]: "canon_bytes up (canon_bytes up s) = canon_bytes up s"
  by (metis canon_bytes_lower lower_canon_bytes)

lemma valid_canon_bytes [simp]:
  "list_all valid_header_byte (canon_bytes up s) = list_all valid_header_byte s"
  by (induction s arbitrary: up) auto

lemma valid_ToLower [simp]:
  "list_all valid_header_byte (ToLower s) = list_all valid_header_byte s"
  by (induction s) auto

lemma canonical_idem [simp]: "canonical (canonical k) = canonical k"
  by (simp add: canonical_def)

lemma ToLower_canonical [simp]: "ToLower (canonical k) = ToLower k"
  by (simp add: canonical_def)

lemma canonical_eq_iff:
  "list_all valid_header_byte k \<Longrightarrow> list_all valid_header_byte k' \<Longrightarrow>
   canonical k = canonical k' \<longleftrightarrow> ToLower k = ToLower k'"
  by (metis canonical_def canon_bytes_lower lower_canon_bytes)

section \<open>http.Header\<close>

type_synonym header = smap

definition Get :: "header \<Rightarrow> string \<Rightarrow> string" where
  "Get h k = (case mm_vals h (canonical k) of [] \<Rightarrow> [] | v # _ \<Rightarrow> v)"

definition Values :: "header \<Rightarrow> string \<Rightarrow> string list" where
  "Values h k = mm_vals h (canonical k)"

definition Add :: "header \<Rightarrow> string \<Rightarrow> string \<Rightarrow> header" where
  "Add h k v = mm_append (canonical k) v h"

definition Del :: "header \<Rightarrow> string \<Rightarrow> header" where
  "Del h k = AList.delete (canonical k) h"

definition SetHeader :: "header \<Rightarrow> string \<Rightarrow> string \<Rightarrow> header" where
  "SetHeader h k v = AList.update (canonical k) [v] h"

text \<open>
  What the server guarantees of the header of an incoming request: distinct names, each a valid
  token in its canonical spelling and with at least one value.
\<close>

definition wf_header :: "header \<Rightarrow> bool" where
  "wf_header h \<longleftrightarrow> wf_map h \<and>
     list_all (\<lambda>(k, vs). list_all valid_header_byte k \<and> canonical k = k \<and> vs \<noteq> []) h"

interpretation http_header: multimap Values Add "[]" canonical
  by unfold_locales (auto simp: Values_def Add_def)

lemma Get_Values: "Get h k = (case Values h k of [] \<Rightarrow> [] | v # _ \<Rightarrow> v)"
  by (simp add: Get_def Values_def)

lemma wf_map_Add [simp]: "wf_map h \<Longrightarrow> wf_map (Add h k v)"
  by (simp add: Add_def)

lemma wf_header_wf_map: "wf_header h \<Longrightarrow> wf_map h"
  by (simp add: wf_header_def)

lemma wf_header_mem:
  "wf_header h \<Longrightarrow> (k, vs) \<in> set h \<Longrightarrow> list_all valid_header_byte k \<and> canonical k = k \<and> vs \<noteq> []"
  by (auto simp: wf_header_def list_all_iff)

lemma wf_header_key:
  "wf_header h \<Longrightarrow> k \<in> key_set h \<Longrightarrow> list_all valid_header_byte k \<and> canonical k = k"
  by (auto dest: wf_header_mem)

lemma wf_header_Values: "wf_header h \<Longrightarrow> (k, vs) \<in> set h \<Longrightarrow> Values h k = vs"
  by (metis Values_def mm_vals_mem wf_header_mem wf_header_wf_map)

lemma keys_Add [simp]: "key_set (Add h k v) = insert (canonical k) (key_set h)"
  proof -
  have "set (keys_of (Add h k v)) = insert (canonical k) (set (keys_of h))"
    by (auto simp: Add_def mm_append_def dom_update)
  then show ?thesis by simp
qed

lemma wf_header_lower_inj:
  "wf_header h \<Longrightarrow> k \<in> key_set h \<Longrightarrow> k' \<in> key_set h \<Longrightarrow> ToLower k = ToLower k' \<Longrightarrow> k = k'"
  by (metis canonical_eq_iff wf_header_key)

lemma Values_Del [simp]:
  "wf_map h \<Longrightarrow> Values (Del h k) k' = (if canonical k' = canonical k then [] else Values h k')"
  by (simp add: Values_def Del_def mm_vals_def delete_conv)

lemma Values_SetHeader [simp]:
  "Values (SetHeader h k v) k' = (if canonical k' = canonical k then [v] else Values h k')"
  by (simp add: Values_def SetHeader_def)

lemma wf_header_same_set:
  "wf_header h \<Longrightarrow> wf_map h' \<Longrightarrow> set h = set h' \<Longrightarrow> Values h k = Values h' k"
  by (metis Values_def mm_vals_same_set wf_header_wf_map)

text \<open>A well-formed header has at most one field of each name, up to case.\<close>

lemma filter_key_eq:
  "wf_map h \<Longrightarrow> list_all (\<lambda>(k, vs). vs \<noteq> []) h \<Longrightarrow>
   filter (\<lambda>(k, _). k = c) h = (if mm_vals h c = [] then [] else [(c, mm_vals h c)])"
proof (induction h)
  case (Cons a h)
  obtain k vs where a: "a = (k, vs)" by fastforce
  show ?case
  proof (cases "k = c")
    case True
    with a Cons.prems have "mm_vals h c = []" by (simp add: mm_vals_not_key)
    with True a Cons show ?thesis by (simp add: mm_vals_Cons)
  next
    case False
    with a Cons show ?thesis by (simp add: mm_vals_Cons)
  qed
qed simp

lemma wf_header_filter_name:
  assumes "wf_header h" and "list_all valid_header_byte name"
  shows "filter (\<lambda>(k, _). ToLower k = ToLower name) h =
     (if Values h name = [] then [] else [(canonical name, Values h name)])"
proof -
  have key: "ToLower k = ToLower name \<longleftrightarrow> k = canonical name" if "(k, vs) \<in> set h" for k vs
    using that assms by (metis canonical_eq_iff wf_header_mem)
  have "filter (\<lambda>(k, _). ToLower k = ToLower name) h = filter (\<lambda>(k, _). k = canonical name) h"
    using key by (intro filter_cong) auto
  also have "\<dots> = (if mm_vals h (canonical name) = [] then []
      else [(canonical name, mm_vals h (canonical name))])"
    using assms(1) by (intro filter_key_eq) (auto simp: wf_header_def list_all_iff)
  finally show ?thesis by (simp add: Values_def)
qed

lemma Values_entry: "Values h k = vs \<Longrightarrow> vs \<noteq> [] \<Longrightarrow> (canonical k, vs) \<in> set h"
  by (auto simp: Values_def mm_vals_def split: option.splits dest: map_of_SomeD)

lemma Values_mem_entry: "v \<in> set (Values h k) \<Longrightarrow> (canonical k, Values h k) \<in> set h"
  by (rule Values_entry) auto

text \<open>Deleting, adding and setting fields keeps a header well-formed.\<close>

lemma wf_header_Del [intro]: "wf_header h \<Longrightarrow> wf_header (Del h k)"
  by (auto simp: wf_header_def Del_def list_all_iff wf_map_def AList.delete_eq distinct_map_filter)

lemma wf_header_update:
  assumes "wf_header h" and "list_all valid_header_byte k" and "vs \<noteq> []"
  shows "wf_header (AList.update (canonical k) vs h)"
proof -
  have valid: "list_all valid_header_byte (canonical k)" using assms(2) by (simp add: canonical_def)
  have "list_all valid_header_byte k' \<and> canonical k' = k' \<and> vs' \<noteq> []"
    if "(k', vs') \<in> set (AList.update (canonical k) vs h)" for k' vs'
  proof -
    have "distinct (keys_of (AList.update (canonical k) vs h))"
      using wf_header_wf_map [OF assms(1)] by (simp add: wf_map_def distinct_update)
    with that have "map_of (AList.update (canonical k) vs h) k' = Some vs'" by simp
    then have "k' = canonical k \<and> vs' = vs \<or> (k', vs') \<in> set h"
      by (auto simp: update_conv split: if_splits dest: map_of_SomeD)
    with wf_header_mem [OF assms(1)] valid assms(3) show ?thesis by auto
  qed
  with wf_header_wf_map [OF assms(1)] show ?thesis by (auto simp: wf_header_def list_all_iff)
qed

lemma wf_header_Add [intro]: "wf_header h \<Longrightarrow> list_all valid_header_byte k \<Longrightarrow> wf_header (Add h k v)"
  by (simp add: Add_def mm_append_def wf_header_update)

lemma wf_header_SetHeader [intro]:
  "wf_header h \<Longrightarrow> list_all valid_header_byte k \<Longrightarrow> wf_header (SetHeader h k v)"
  by (simp add: SetHeader_def wf_header_update)

lemma wf_header_foldl:
  assumes "\<And>h x. x \<in> set xs \<Longrightarrow> wf_header h \<Longrightarrow> wf_header (f h x)"
  shows "wf_header h \<Longrightarrow> wf_header (foldl f h xs)"
  using assms by (induction xs arbitrary: h) auto

end
