(* ===== verification/Proxy_Types.thy ===== *)
theory Proxy_Types
  imports Http
begin

text \<open>
  The data that flows through the proxy: users, the review objects sent to the API server, the
  impersonation configuration, requests with their context, replies, and the trace of effects.
  The trace is the list of externally visible events in the order in which they happen: every
  call to the API server with its answer, every line of the access log, every audit event and
  every request sent upstream.  The record \<open>env\<close> collects the code outside the repository;
  its functions see the trace so far, so their answers may change over time.
\<close>

section \<open>Users and reviews\<close>

record user_info =
  Name :: string
  UID :: string
  Groups :: "string list"
  Extra :: "smap option"

record sar_spec =
  SarUser :: string
  SarGroups :: "string list"
  SarExtra :: smap
  Verb :: string
  Group :: string
  Resource :: string
  Subresource :: string
  ResourceName :: string

record review_spec =
  Token :: string
  Audiences :: "string list"

record review_status =
  ReviewError :: string
  IsAuthenticated :: bool

record imp_config =
  ImpUserName :: string
  ImpUID :: string
  ImpGroups :: "string list"
  ImpExtra :: smap

record imp_request =
  Config :: imp_config
  InboundUser :: user_info
  ImpersonatedUser :: "user_info option"

section \<open>Requests\<close>

text \<open>The context keys of package \<open>context\<close> in their \<open>iota\<close> order, and the key of the
  API server library under which the authenticated user is kept.\<close>

datatype key = noImpersonationKey | impersonationConfigKey | bearerTokenKey | clientAddressKey

fun iota :: "key \<Rightarrow> nat" where
  "iota noImpersonationKey = 0"
| "iota impersonationConfigKey = 1"
| "iota bearerTokenKey = 2"
| "iota clientAddressKey = 3"

lemma iota_inj: "iota a = iota b \<longleftrightarrow> a = b"
  by (cases a; cases b) simp_all

instantiation key :: linorder
begin

definition less_eq_key :: "key \<Rightarrow> key \<Rightarrow> bool" where
  "less_eq_key a b \<longleftrightarrow> iota a \<le> iota b"

definition less_key :: "key \<Rightarrow> key \<Rightarrow> bool" where
  "less_key a b \<longleftrightarrow> iota a < iota b"

instance
  by standard (auto simp: less_eq_key_def less_key_def iota_inj)

end

datatype ctx_key = ProxyKey key | UserKey

datatype ctx_val = CtxBool bool | CtxConf imp_request | CtxString string | CtxUser user_info

type_synonym ctx = "(ctx_key \<times> ctx_val) list"

record url =
  Path :: string
  RawQuery :: string

record request =
  Header :: header
  URL :: url
  ReqRemoteAddr :: string
  RequestURI :: string
  Context :: ctx

record response =
  StatusCode :: int
  Body :: string

text \<open>
  What a client gets: an error page of the proxy, the response of the API server, or an aborted
  connection when a handler panics (\<open>net/http\<close> recovers the panic and closes the connection).
\<close>

datatype reply = HttpError int string | Upstream response | Aborted

section \<open>Effects\<close>

text \<open>
  The configuration of a client of the API server: the fields the source reads or copies by their
  names, and everything else, the credentials among it, as one string whose zero value is empty.
  A transport is the default one of \<open>net/http\<close> or one built from such a configuration.
\<close>

record rest_config =
  APIPath :: string
  Host :: string
  Timeout :: int
  CAFile :: string
  CAData :: string
  Credentials :: string

datatype transport = DefaultTransport | RestTransport rest_config

record authn =
  AuthInfo :: "user_info option"
  AuthOk :: bool
  AuthErr :: "go_error option"
  AuthHeader :: header

datatype event =
    AuthnCall request authn
  | SarCall sar_spec "go_error + bool"
  | ReviewCall review_spec "go_error + review_status"
  | AccessLog string
  | AuditLog string
  | Sent transport request

type_synonym trace = "event list"

type_synonym handler = "request \<Rightarrow> trace \<Rightarrow> reply \<times> trace"

text \<open>
  The code outside the repository: the bearer token authenticator of the API server library (it
  also returns the header, from which it may delete a field), the two review endpoints, the
  \<open>xff\<close> library, the audit filters, the header layer of client-go's impersonating round
  tripper, the clock and the network.
\<close>

record env =
  bearer_authenticate :: "trace \<Rightarrow> request \<Rightarrow> authn"
  sar_create :: "trace \<Rightarrow> sar_spec \<Rightarrow> go_error + bool"
  review_create :: "trace \<Rightarrow> review_spec \<Rightarrow> go_error + review_status"
  xff_remote_addr :: "request \<Rightarrow> string"
  with_request_info :: "handler \<Rightarrow> handler"
  with_audit_init :: "handler \<Rightarrow> handler"
  with_audit :: "handler \<Rightarrow> handler"
  with_failed_auth_audit :: "handler \<Rightarrow> handler"
  impersonate :: "imp_config \<Rightarrow> request \<Rightarrow> request"
  now :: "trace \<Rightarrow> string"
  send :: "transport \<Rightarrow> trace \<Rightarrow> request \<Rightarrow> go_error + response"

text \<open>
  A concrete environment for the examples: no token is accepted, no review allows anything, the
  address is the one of the connection, the filters pass every request on and the API server
  answers 200.  Examples override the fields they need.
\<close>

definition base_env :: env where
  "base_env =
     \<lparr>bearer_authenticate =
        (\<lambda>t r. \<lparr>AuthInfo = None, AuthOk = False, AuthErr = Some (ErrMsg ''invalid bearer token''),
               AuthHeader = Header r\<rparr>),
      sar_create = (\<lambda>t s. Inr False),
      review_create = (\<lambda>t s. Inr \<lparr>ReviewError = [], IsAuthenticated = False\<rparr>),
      xff_remote_addr = ReqRemoteAddr,
      with_request_info = (\<lambda>h. h), with_audit_init = (\<lambda>h. h), with_audit = (\<lambda>h. h),
      with_failed_auth_audit = (\<lambda>h. h),
      impersonate = (\<lambda>c r. r),
      now = (\<lambda>t. []),
      send = (\<lambda>tr t r. Inr \<lparr>StatusCode = 200, Body = ''ok''\<rparr>)\<rparr>"

section \<open>Traces\<close>

definition extends :: "trace \<Rightarrow> trace \<Rightarrow> bool" where
  "extends t t' \<longleftrightarrow> prefix t t'"

named_theorems extends_rules \<open>operations only append to the trace\<close>

lemma extends_refl [simp, extends_rules]: "extends t t"
  by (simp add: extends_def)

lemma extends_trans: "extends a b \<Longrightarrow> extends b c \<Longrightarrow> extends a c"
  by (auto simp: extends_def)

lemma extends_append [simp, extends_rules]: "extends t (t @ es)"
  by (simp add: extends_def)

lemma extends_mem: "extends t t' \<Longrightarrow> e \<in> set t \<Longrightarrow> e \<in> set t'"
  by (auto simp: extends_def prefix_def)

fun is_sent :: "event \<Rightarrow> bool" where
  "is_sent (Sent _ _) = True"
| "is_sent _ = False"

text \<open>The requests sent upstream, in order.\<close>

fun sent_of :: "trace \<Rightarrow> (transport \<times> request) list" where
  "sent_of [] = []"
| "sent_of (Sent tr r # t) = (tr, r) # sent_of t"
| "sent_of (_ # t) = sent_of t"

lemma sent_of_append [simp]: "sent_of (t @ t') = sent_of t @ sent_of t'"
  by (induction t rule: sent_of.induct) auto

end
