(* ===== verification/Request_Context.thy ===== *)
theory Request_Context
  imports Proxy_Types
begin

text \<open>
  Package \<open>context\<close> (\<open>pkg/proxy/context/context.go\<close>): the values the handlers leave for each
  other in the request context.  A context is the chain of its key and value pairs, the latest
  first; reading a key with the wrong type of value gives the zero value, as the source's
  checked type assertions do.
\<close>

definition WithValue :: "ctx \<Rightarrow> ctx_key \<Rightarrow> ctx_val \<Rightarrow> ctx" where
  "WithValue c k v = (k, v) # c"

definition Value :: "ctx \<Rightarrow> ctx_key \<Rightarrow> ctx_val option" where
  "Value c k = map_of c k"

lemma Value_WithValue [simp]: "Value (WithValue c k v) k' = (if k' = k then Some v else Value c k')"
  by (simp add: Value_def WithValue_def)

definition WithContext :: "request \<Rightarrow> ctx \<Rightarrow> request" where
  "WithContext req c = req\<lparr>Context := c\<rparr>"

lemma WithContext_simps [simp]:
  "Context (WithContext req c) = c" "Header (WithContext req c) = Header req"
  "URL (WithContext req c) = URL req" "ReqRemoteAddr (WithContext req c) = ReqRemoteAddr req"
  "RequestURI (WithContext req c) = RequestURI req"
  by (simp_all add: WithContext_def)

section \<open>The user of the request\<close>

definition WithUser :: "ctx \<Rightarrow> user_info \<Rightarrow> ctx" where
  "WithUser c u = WithValue c UserKey (CtxUser u)"

definition UserFrom :: "ctx \<Rightarrow> user_info option" where
  "UserFrom c = (case Value c UserKey of Some (CtxUser u) \<Rightarrow> Some u | _ \<Rightarrow> None)"

section \<open>The proxy's own keys\<close>

definition WithNoImpersonation :: "request \<Rightarrow> request" where
  "WithNoImpersonation req =
     WithContext req (WithValue (Context req) (ProxyKey noImpersonationKey) (CtxBool True))"

definition NoImpersonation :: "request \<Rightarrow> bool" where
  "NoImpersonation req =
     (case Value (Context req) (ProxyKey noImpersonationKey) of
        Some (CtxBool b) \<Rightarrow> b | _ \<Rightarrow> False)"

definition WithImpersonationConfig :: "request \<Rightarrow> imp_request \<Rightarrow> request" where
  "WithImpersonationConfig req conf =
     (let c = WithValue (Context req) (ProxyKey impersonationConfigKey) (CtxConf conf)
      in WithContext req
           (case ImpersonatedUser conf of None \<Rightarrow> c | Some u \<Rightarrow> WithUser c u))"

definition ImpersonationConfig :: "request \<Rightarrow> imp_request option" where
  "ImpersonationConfig req =
     (case Value (Context req) (ProxyKey impersonationConfigKey) of
        Some (CtxConf conf) \<Rightarrow> Some conf | _ \<Rightarrow> None)"

definition WithBearerToken :: "request \<Rightarrow> header \<Rightarrow> request" where
  "WithBearerToken req h =
     WithContext req
       (WithValue (Context req) (ProxyKey bearerTokenKey) (CtxString (Get h ''Authorization'')))"

definition BearerToken :: "request \<Rightarrow> string" where
  "BearerToken req =
     (case Value (Context req) (ProxyKey bearerTokenKey) of Some (CtxString s) \<Rightarrow> s | _ \<Rightarrow> [])"

definition RemoteAddr :: "env \<Rightarrow> request \<Rightarrow> request \<times> string" where
  "RemoteAddr E req =
     (case Value (Context req) (ProxyKey clientAddressKey) of
        Some (CtxString a) \<Rightarrow> (req, a)
      | _ \<Rightarrow> (let a = xff_remote_addr E req in
               (WithContext req
                  (WithValue (Context req) (ProxyKey clientAddressKey) (CtxString a)), a)))"

section \<open>What each setter changes\<close>

lemmas ctx_defs = WithUser_def UserFrom_def WithNoImpersonation_def NoImpersonation_def
  WithImpersonationConfig_def ImpersonationConfig_def WithBearerToken_def BearerToken_def Let_def

lemma UserFrom_simps [simp]:
  "UserFrom (WithUser c u) = Some u"
  "k \<noteq> UserKey \<Longrightarrow> UserFrom (WithValue c k v) = UserFrom c"
  by (auto simp: ctx_defs)

lemma NoImpersonation_simps [simp]:
  "NoImpersonation (WithNoImpersonation req)"
  "NoImpersonation (WithContext req (WithUser (Context req) u)) = NoImpersonation req"
  "NoImpersonation (WithImpersonationConfig req conf) = NoImpersonation req"
  "NoImpersonation (WithBearerToken req h) = NoImpersonation req"
  by (auto simp: ctx_defs split: option.splits)

lemma ImpersonationConfig_simps [simp]:
  "ImpersonationConfig (WithImpersonationConfig req conf) = Some conf"
  "ImpersonationConfig (WithNoImpersonation req) = ImpersonationConfig req"
  "ImpersonationConfig (WithContext req (WithUser (Context req) u)) = ImpersonationConfig req"
  "ImpersonationConfig (WithBearerToken req h) = ImpersonationConfig req"
  by (auto simp: ctx_defs split: option.splits)

lemma BearerToken_simps [simp]:
  "BearerToken (WithBearerToken req h) = Get h ''Authorization''"
  "BearerToken (WithNoImpersonation req) = BearerToken req"
  "BearerToken (WithContext req (WithUser (Context req) u)) = BearerToken req"
  "BearerToken (WithImpersonationConfig req conf) = BearerToken req"
  by (auto simp: ctx_defs split: option.splits)

lemma setters_keep_request [simp]:
  "Header (WithNoImpersonation req) = Header req" "URL (WithNoImpersonation req) = URL req"
  "ReqRemoteAddr (WithNoImpersonation req) = ReqRemoteAddr req"
  "Header (WithImpersonationConfig req conf) = Header req"
  "URL (WithImpersonationConfig req conf) = URL req"
  "ReqRemoteAddr (WithImpersonationConfig req conf) = ReqRemoteAddr req"
  "Header (WithBearerToken req h) = Header req" "URL (WithBearerToken req h) = URL req"
  by (auto simp: ctx_defs)

lemma RemoteAddr_frame [simp]:
  "Header (fst (RemoteAddr E req)) = Header req"
  "URL (fst (RemoteAddr E req)) = URL req"
  "ReqRemoteAddr (fst (RemoteAddr E req)) = ReqRemoteAddr req"
  "RequestURI (fst (RemoteAddr E req)) = RequestURI req"
  "UserFrom (Context (fst (RemoteAddr E req))) = UserFrom (Context req)"
  "NoImpersonation (fst (RemoteAddr E req)) = NoImpersonation req"
  "ImpersonationConfig (fst (RemoteAddr E req)) = ImpersonationConfig req"
  "BearerToken (fst (RemoteAddr E req)) = BearerToken req"
  by (auto simp: RemoteAddr_def ctx_defs split: option.splits ctx_val.splits)

text \<open>The address is looked up once: asking again gives the same request and address.\<close>

lemma RemoteAddr_again: "RemoteAddr E (fst (RemoteAddr E' req)) = (fst (RemoteAddr E' req), snd (RemoteAddr E' req))"
  by (auto simp: RemoteAddr_def Let_def split: option.splits ctx_val.splits)

end
