(* ===== verification/Url_Query.thy ===== *)
theory Url_Query
  imports Prelude
begin

text \<open>
  The query string functions of \<open>net/url\<close> that the namespace round tripper uses: \<open>URL.Query\<close>
  (percent decoding, pairs with a semicolon or a bad escape dropped), \<open>Values.Set\<close> and
  \<open>Values.Encode\<close> (keys in byte order, unreserved bytes kept, a space as a plus).  The main
  fact is that decoding what \<open>Encode\<close> writes gives every key its values back.
\<close>

section \<open>Escaping\<close>

definition hex_digit :: "nat \<Rightarrow> char" where
  "hex_digit n = char_of (if n < 10 then 48 + n else 55 + n)"

definition hex_val :: "char \<Rightarrow> nat option" where
  "hex_val c = (let n = (of_char c :: nat) in
     if 48 \<le> n \<and> n \<le> 57 then Some (n - 48)
     else if 65 \<le> n \<and> n \<le> 70 then Some (n - 55)
     else if 97 \<le> n \<and> n \<le> 102 then Some (n - 87) else None)"

definition unreserved :: "char \<Rightarrow> bool" where
  "unreserved c \<longleftrightarrow> (let n = (of_char c :: nat) in
     97 \<le> n \<and> n \<le> 122 \<or> 65 \<le> n \<and> n \<le> 90 \<or> 48 \<le> n \<and> n \<le> 57 \<or>
     n = 45 \<or> n = 95 \<or> n = 46 \<or> n = 126)"

definition escape_char :: "char \<Rightarrow> string" where
  "escape_char c =
     (if unreserved c then [c]
      else if c = CHR '' '' then ''+''
      else [CHR ''%'', hex_digit (of_char c div 16), hex_digit (of_char c mod 16)])"

definition QueryEscape :: "string \<Rightarrow> string" where
  "QueryEscape s = concat (map escape_char s)"

fun QueryUnescape :: "string \<Rightarrow> string option" where
  "QueryUnescape [] = Some []"
| "QueryUnescape (c # s) =
     (if c = CHR ''%'' then
        (case s of
           a # b # s' \<Rightarrow>
             (case (hex_val a, hex_val b) of
                (Some x, Some y) \<Rightarrow> map_option ((#) (char_of (16 * x + y))) (QueryUnescape s')
              | _ \<Rightarrow> None)
         | _ \<Rightarrow> None)
      else if c = CHR ''+'' then map_option ((#) (CHR '' '')) (QueryUnescape s)
      else map_option ((#) c) (QueryUnescape s))"

lemma hex_val_digit [simp]: "n < 16 \<Longrightarrow> hex_val (hex_digit n) = Some n"
  by (simp add: hex_val_def hex_digit_def Let_def of_char_of_small)

lemma of_char_div16: "(of_char c :: nat) div 16 < 16"
  by (rule less_mult_imp_div_less) (use of_char_less [of c] in simp)

lemma QueryUnescape_escape_char:
  "QueryUnescape (escape_char c @ s) = map_option ((#) c) (QueryUnescape s)"
proof (cases "unreserved c")
  case True
  then have "c \<noteq> CHR ''%'' \<and> c \<noteq> CHR ''+''" by (auto simp: unreserved_def)
  with True show ?thesis by (simp add: escape_char_def)
next
  case False
  have "(of_char c :: nat) div 16 < 16" by (rule of_char_div16)
  with False show ?thesis by (auto simp: escape_char_def)
qed

lemma QueryUnescape_QueryEscape: "QueryUnescape (QueryEscape s) = Some s"
  by (induction s) (auto simp: QueryEscape_def QueryUnescape_escape_char)

lemma hex_digit_plain: "n < 16 \<Longrightarrow> hex_digit n \<notin> {CHR ''&'', CHR ''='', CHR '';''}"
  by (auto simp: hex_digit_def of_char_of_small dest!: arg_cong [where f = "of_char :: char \<Rightarrow> nat"])

lemma escape_char_plain:
  "CHR ''&'' \<notin> set (escape_char c)" "CHR ''='' \<notin> set (escape_char c)" "CHR '';'' \<notin> set (escape_char c)"
proof -
  have "(of_char c :: nat) div 16 < 16" by (rule of_char_div16)
  then show "CHR ''&'' \<notin> set (escape_char c)" "CHR ''='' \<notin> set (escape_char c)"
    "CHR '';'' \<notin> set (escape_char c)"
    using hex_digit_plain [of "of_char c div 16"] hex_digit_plain [of "of_char c mod 16"]
    by (auto simp: escape_char_def unreserved_def)
qed

lemma QueryEscape_plain:
  "CHR ''&'' \<notin> set (QueryEscape s)" "CHR ''='' \<notin> set (QueryEscape s)" "CHR '';'' \<notin> set (QueryEscape s)"
  by (auto simp: QueryEscape_def escape_char_plain)

section \<open>Queries\<close>

text \<open>\<open>strings.Cut\<close> at the first separator.\<close>

fun cut :: "char \<Rightarrow> string \<Rightarrow> string \<times> string" where
  "cut c [] = ([], [])"
| "cut c (x # s) = (if x = c then ([], s) else (let (a, b) = cut c s in (x # a, b)))"

definition parse_pair :: "string \<Rightarrow> (string \<times> string) option" where
  "parse_pair seg =
     (if CHR '';'' \<in> set seg then None
      else if seg = [] then None
      else (let (k, v) = cut (CHR ''='') seg in
        case QueryUnescape k of
          None \<Rightarrow> None
        | Some k' \<Rightarrow> map_option (Pair k') (QueryUnescape v)))"

definition Query :: "string \<Rightarrow> smap" where
  "Query q = foldl (\<lambda>m (k, v). mm_append k v m) []
     (List.map_filter parse_pair (split_on (CHR ''&'') q))"

definition encode_pair :: "string \<times> string \<Rightarrow> string" where
  "encode_pair kv = QueryEscape (fst kv) @ ''='' @ QueryEscape (snd kv)"

definition query_pairs :: "smap \<Rightarrow> (string \<times> string) list" where
  "query_pairs m = concat (map (\<lambda>k. map (Pair k) (mm_vals m k)) (sort (keys_of m)))"

definition Encode :: "smap \<Rightarrow> string" where
  "Encode m = join ''&'' (map encode_pair (query_pairs m))"

definition query_set :: "string \<Rightarrow> string \<Rightarrow> smap \<Rightarrow> smap" where
  "query_set k v m = AList.update k [v] m"

lemma cut_append: "c \<notin> set a \<Longrightarrow> cut c (a @ c # b) = (a, b)"
  by (induction a) auto

lemma parse_encode_pair [simp]: "parse_pair (encode_pair kv) = Some kv"
  by (simp add: parse_pair_def encode_pair_def cut_append QueryEscape_plain
      QueryUnescape_QueryEscape)

lemma encode_pair_no_amp: "CHR ''&'' \<notin> set (encode_pair kv)"
  by (simp add: encode_pair_def QueryEscape_plain)

lemma map_filter_parse_encode [simp]: "List.map_filter parse_pair (map encode_pair ps) = ps"
  by (induction ps) (auto simp: List.map_filter_def)

lemma Query_join_pairs:
  "Query (join ''&'' (map encode_pair ps)) = foldl (\<lambda>m (k, v). mm_append k v m) [] ps"
proof (cases "ps = []")
  case True
  then show ?thesis by (simp add: Query_def parse_pair_def List.map_filter_def)
next
  case False
  then have "split_on (CHR ''&'') (join ''&'' (map encode_pair ps)) = map encode_pair ps"
    by (intro split_on_join) (auto simp: encode_pair_no_amp)
  then show ?thesis by (simp add: Query_def)
qed

lemma filter_pairs_at:
  "distinct ks \<Longrightarrow>
   map snd (filter (\<lambda>(k, v). k' = k) (concat (map (\<lambda>k. map (Pair k) (f k)) ks)))
     = (if k' \<in> set ks then f k' else [])"
proof (induction ks)
  case (Cons a ks)
  then show ?case by (cases "k' = a") (auto simp: filter_map comp_def)
qed simp

lemma query_pairs_at:
  "wf_map m \<Longrightarrow> map snd (filter (\<lambda>(k, v). k' = k) (query_pairs m)) = mm_vals m k'"
  using filter_pairs_at [of "sort (keys_of m)" k' "mm_vals m"]
  by (auto simp: query_pairs_def wf_map_def mm_vals_not_key)

lemma mm_vals_Query_Encode: "wf_map m \<Longrightarrow> mm_vals (Query (Encode m)) k = mm_vals m k"
  by (simp add: Encode_def Query_join_pairs go_map.vals_built query_pairs_at)

lemma wf_map_fold_append: "wf_map m \<Longrightarrow> wf_map (foldl (\<lambda>m (k, v). mm_append k v m) m kvs)"
  by (induction kvs arbitrary: m) auto

lemma wf_map_Query [simp]: "wf_map (Query q)"
  by (simp add: Query_def wf_map_fold_append)

lemma mm_vals_query_set [simp]:
  "mm_vals (query_set k v m) k' = (if k' = k then [v] else mm_vals m k')"
  by (simp add: query_set_def)

lemma wf_map_query_set [simp]: "wf_map m \<Longrightarrow> wf_map (query_set k v m)"
  by (simp add: query_set_def)

end
