(* ===== verification/Json.thy ===== *)
theory Json
  imports Url_Query
begin

text \<open>
  What the source uses of \<open>encoding/json\<close>: \<open>Marshal\<close> of a \<open>map[string][]string\<close> (the extra
  fields of the original user) and \<open>Unmarshal\<close> into a \<open>map[string]string\<close> (the tenant to
  namespace file).  Strings are bytes, so invalid UTF-8 is replaced as the package does.  The
  parser is the package's scanner and unquoting in one; its length guards only serve termination
  and never fire.  Of the package's errors only the two classes are kept, not their texts.
\<close>

section \<open>UTF-8\<close>

definition in_range :: "nat \<Rightarrow> nat \<Rightarrow> char \<Rightarrow> bool" where
  "in_range lo hi c \<longleftrightarrow> lo \<le> of_char c \<and> of_char c \<le> hi"

text \<open>The length of the well-formed encoding at the start of the bytes, 0 if there is none.\<close>

fun rune_len :: "string \<Rightarrow> nat" where
  "rune_len [] = 0"
| "rune_len (a # s) =
     (if in_range 0 0x7F a then 1
      else if in_range 0xC2 0xDF a then
        (case s of b # _ \<Rightarrow> if in_range 0x80 0xBF b then 2 else 0 | _ \<Rightarrow> 0)
      else if in_range 0xE0 0xEF a then
        (case s of b # c # _ \<Rightarrow>
           if in_range (if a = CHR 0xE0 then 0xA0 else 0x80) (if a = CHR 0xED then 0x9F else 0xBF) b
              \<and> in_range 0x80 0xBF c then 3 else 0
         | _ \<Rightarrow> 0)
      else if in_range 0xF0 0xF4 a then
        (case s of b # c # d # _ \<Rightarrow>
           if in_range (if a = CHR 0xF0 then 0x90 else 0x80) (if a = CHR 0xF4 then 0x8F else 0xBF) b
              \<and> in_range 0x80 0xBF c \<and> in_range 0x80 0xBF d then 4 else 0
         | _ \<Rightarrow> 0)
      else 0)"

definition encode_rune :: "nat \<Rightarrow> string" where
  "encode_rune n =
     (if n < 0x80 then [char_of n]
      else if n < 0x800 then [char_of (0xC0 + n div 64), char_of (0x80 + n mod 64)]
      else if n < 0x10000 then
        [char_of (0xE0 + n div 4096), char_of (0x80 + n div 64 mod 64), char_of (0x80 + n mod 64)]
      else [char_of (0xF0 + n div 262144), char_of (0x80 + n div 4096 mod 64),
            char_of (0x80 + n div 64 mod 64), char_of (0x80 + n mod 64)])"

definition ReplacementChar :: nat where
  "ReplacementChar = 0xFFFD"

section \<open>Values and their encoding\<close>

datatype json = JNull | JBool bool | JNum string | JStr string | JArr "json list"
  | JObj "(string \<times> json) list"

definition json_hex :: "nat \<Rightarrow> char" where
  "json_hex n = char_of (if n < 10 then 48 + n else 87 + n)"

definition escape_ascii :: "char \<Rightarrow> string" where
  "escape_ascii c =
     (let n = (of_char c :: nat) in
      if c = CHR 0x22 \<or> c = CHR 0x5C then [CHR 0x5C, c]
      else if n = 8 then [CHR 0x5C, CHR ''b'']
      else if n = 12 then [CHR 0x5C, CHR ''f'']
      else if n = 10 then [CHR 0x5C, CHR ''n'']
      else if n = 13 then [CHR 0x5C, CHR ''r'']
      else if n = 9 then [CHR 0x5C, CHR ''t'']
      else if n < 32 \<or> c = CHR ''<'' \<or> c = CHR ''>'' \<or> c = CHR ''&'' then
        CHR 0x5C # ''u00'' @ [json_hex (n div 16), json_hex (n mod 16)]
      else [c])"

function encode_chars :: "string \<Rightarrow> string" where
  "encode_chars [] = []"
| "encode_chars (c # s) =
     (if in_range 0 0x7F c then escape_ascii c @ encode_chars s
      else (let n = rune_len (c # s) in
        if n = 0 then CHR 0x5C # ''ufffd'' @ encode_chars s
        else if take n (c # s) = [CHR 0xE2, CHR 0x80, CHR 0xA8] then
          CHR 0x5C # ''u2028'' @ encode_chars (drop (n - 1) s)
        else if take n (c # s) = [CHR 0xE2, CHR 0x80, CHR 0xA9] then
          CHR 0x5C # ''u2029'' @ encode_chars (drop (n - 1) s)
        else take n (c # s) @ encode_chars (drop (n - 1) s)))"
  by pat_completeness auto
termination by (relation "measure length") auto

definition encode_string :: "string \<Rightarrow> string" where
  "encode_string s = CHR 0x22 # encode_chars s @ [CHR 0x22]"

fun encode :: "json \<Rightarrow> string" where
  "encode JNull = ''null''"
| "encode (JBool b) = (if b then ''true'' else ''false'')"
| "encode (JNum n) = n"
| "encode (JStr s) = encode_string s"
| "encode (JArr js) = ''['' @ join '','' (map encode js) @ '']''"
| "encode (JObj ms) =
     ''{'' @ join '','' (map (\<lambda>(k, j). encode_string k @ CHR '':'' # encode j) ms) @ ''}''"

definition json_of_smap :: "smap \<Rightarrow> json" where
  "json_of_smap m = JObj (map (\<lambda>k. (k, JArr (map JStr (mm_vals m k)))) (sort (keys_of m)))"

definition Marshal :: "smap \<Rightarrow> string result" where
  "Marshal m = Ok (encode (json_of_smap m))"

section \<open>Parsing\<close>

definition skip_ws :: "string \<Rightarrow> string" where
  "skip_ws s = dropWhile (\<lambda>c. c \<in> set [CHR '' '', CHR 0x09, CHR 0x0A, CHR 0x0D]) s"

definition getu4 :: "string \<Rightarrow> (nat \<times> string) option" where
  "getu4 s =
     (case s of
        a # b # c # d # r \<Rightarrow>
          (case (hex_val a, hex_val b, hex_val c, hex_val d) of
             (Some w, Some x, Some y, Some z) \<Rightarrow> Some (((w * 16 + x) * 16 + y) * 16 + z, r)
           | _ \<Rightarrow> None)
      | _ \<Rightarrow> None)"

definition is_surrogate :: "nat \<Rightarrow> bool" where
  "is_surrogate n \<longleftrightarrow> 0xD800 \<le> n \<and> n < 0xE000"

definition surrogate_pair :: "nat \<Rightarrow> nat \<Rightarrow> nat option" where
  "surrogate_pair a b =
     (if 0xD800 \<le> a \<and> a < 0xDC00 \<and> 0xDC00 \<le> b \<and> b < 0xE000
      then Some ((a - 0xD800) * 1024 + (b - 0xDC00) + 0x10000) else None)"

text \<open>The rune of an escape whose four digits are read, and the bytes after it.\<close>

definition unquote_u :: "nat \<Rightarrow> string \<Rightarrow> nat \<times> string" where
  "unquote_u n r =
     (if is_surrogate n then
        (case r of
           x # y # r' \<Rightarrow>
             if x = CHR 0x5C \<and> y = CHR ''u'' then
               (case getu4 r' of
                  Some (n2, r2) \<Rightarrow>
                    (case surrogate_pair n n2 of Some p \<Rightarrow> (p, r2) | None \<Rightarrow> (ReplacementChar, r))
                | None \<Rightarrow> (ReplacementChar, r))
             else (ReplacementChar, r)
         | _ \<Rightarrow> (ReplacementChar, r))
      else (n, r))"

definition unescape :: "char \<Rightarrow> char option" where
  "unescape c =
     (if c \<in> set [CHR 0x22, CHR 0x5C, CHR ''/''] then Some c
      else if c = CHR ''b'' then Some (CHR 0x08)
      else if c = CHR ''f'' then Some (CHR 0x0C)
      else if c = CHR ''n'' then Some (CHR 0x0A)
      else if c = CHR ''r'' then Some (CHR 0x0D)
      else if c = CHR ''t'' then Some (CHR 0x09) else None)"

abbreviation emit :: "string \<Rightarrow> (string \<times> string) option \<Rightarrow> (string \<times> string) option" where
  "emit w r \<equiv> map_option (\<lambda>(a, b). (w @ a, b)) r"

lemma getu4_length: "getu4 s = Some (n, r) \<Longrightarrow> length s = length r + 4"
  by (auto simp: getu4_def split: list.splits option.splits)

lemma unquote_u_length: "unquote_u n r = (m, r') \<Longrightarrow> length r' \<le> length r"
  by (auto simp: unquote_u_def split: if_splits list.splits option.splits dest!: getu4_length)

text \<open>The bytes after an opening quote, up to the closing one.\<close>

function str_body :: "string \<Rightarrow> (string \<times> string) option" where
  "str_body [] = None"
| "str_body (c # s) =
     (if c = CHR 0x22 then Some ([], s)
      else if c = CHR 0x5C then
        (case s of
           [] \<Rightarrow> None
         | e # s' \<Rightarrow>
             if e = CHR ''u'' then
               (case getu4 s' of
                  None \<Rightarrow> None
                | Some (n, r) \<Rightarrow> (case unquote_u n r of (m, r') \<Rightarrow> emit (encode_rune m) (str_body r')))
             else (case unescape e of None \<Rightarrow> None | Some d \<Rightarrow> emit [d] (str_body s')))
      else if of_char c < (32 :: nat) then None
      else (case rune_len (c # s) of
              0 \<Rightarrow> emit (encode_rune ReplacementChar) (str_body s)
            | Suc k \<Rightarrow> emit (c # take k s) (str_body (drop k s))))"
  by pat_completeness auto
termination
  by (relation "measure length") (auto dest!: getu4_length unquote_u_length [OF sym])


declare str_body.simps [simp del]

lemma str_body_length: "str_body s = Some (w, r) \<Longrightarrow> length r < length s"
proof (induction s arbitrary: w r rule: length_induct)
  case (1 s)
  then have IH: "str_body s' = Some (w', r') \<Longrightarrow> length s' < length s \<Longrightarrow> length r' < length s'" for s' w' r'
    by blast
  show ?case
  proof (cases s)
    case Nil
    with 1 show ?thesis by (simp add: str_body.simps)
  next
    case (Cons c s1)
    from 1(2) show ?thesis unfolding Cons
      by (subst (asm) str_body.simps)
         (auto simp: Cons simp del: rune_len.simps split: if_splits list.splits option.splits prod.splits nat.splits
           dest!: IH getu4_length unquote_u_length)
  qed
qed

section \<open>Numbers and literals\<close>

definition is_digit :: "char \<Rightarrow> bool" where
  "is_digit c = in_range 48 57 c"

definition parse_digits :: "string \<Rightarrow> (string \<times> string) option" where
  "parse_digits s =
     (let ds = takeWhile is_digit s in if ds = [] then None else Some (ds, drop (length ds) s))"

definition parse_int :: "string \<Rightarrow> (string \<times> string) option" where
  "parse_int s =
     (case s of [] \<Rightarrow> None
      | c # r \<Rightarrow> if c = CHR ''0'' then Some ([c], r) else parse_digits s)"

definition parse_frac :: "string \<Rightarrow> (string \<times> string) option" where
  "parse_frac s =
     (case s of [] \<Rightarrow> Some ([], [])
      | c # r \<Rightarrow> if c = CHR ''.'' then emit [c] (parse_digits r) else Some ([], s))"

definition parse_exp :: "string \<Rightarrow> (string \<times> string) option" where
  "parse_exp s =
     (case s of [] \<Rightarrow> Some ([], [])
      | c # r \<Rightarrow>
          if c = CHR ''e'' \<or> c = CHR ''E'' then
            (case r of [] \<Rightarrow> None
             | d # r' \<Rightarrow> if d = CHR ''+'' \<or> d = CHR ''-'' then emit [c, d] (parse_digits r')
                         else emit [c] (parse_digits r))
          else Some ([], s))"

definition parse_number :: "string \<Rightarrow> (string \<times> string) option" where
  "parse_number s =
     (let (sign, s0) = (case s of [] \<Rightarrow> ([], [])
                        | c # r \<Rightarrow> if c = CHR ''-'' then ([c], r) else ([], s)) in
      case parse_int s0 of None \<Rightarrow> None
      | Some (i, s1) \<Rightarrow>
          (case parse_frac s1 of None \<Rightarrow> None
           | Some (f, s2) \<Rightarrow> emit (sign @ i @ f) (parse_exp s2)))"

definition literal :: "string \<Rightarrow> json \<Rightarrow> string \<Rightarrow> (json \<times> string) option" where
  "literal w j s = (if prefix w s then Some (j, drop (length w) s) else None)"

section \<open>Values\<close>

definition maxNestingDepth :: nat where
  "maxNestingDepth = 10000"

lemma skip_ws_length: "length (skip_ws s) \<le> length s"
  by (simp add: skip_ws_def length_dropWhile_le)

lemma skip_ws_Cons: "skip_ws s = c # r \<Longrightarrow> length r < length s"
  using skip_ws_length [of s] by simp

text \<open>
  \<open>parse_value d s\<close> reads a value at depth \<open>d\<close>; \<open>parse_elems\<close> and \<open>parse_members\<close> read what
  follows the opening bracket and an element or member that must come.
\<close>

function (sequential) parse_value :: "nat \<Rightarrow> string \<Rightarrow> (json \<times> string) option"
  and parse_elems :: "nat \<Rightarrow> string \<Rightarrow> (json list \<times> string) option"
  and parse_members :: "nat \<Rightarrow> string \<Rightarrow> ((string \<times> json) list \<times> string) option"
where
  "parse_value d s =
     (case skip_ws s of
        [] \<Rightarrow> None
      | c # r \<Rightarrow>
          if c = CHR 0x22 then map_option (\<lambda>(w, r'). (JStr w, r')) (str_body r)
          else if c = CHR ''{'' then
            (if d \<ge> maxNestingDepth then None
             else (case skip_ws r of
                     x # r' \<Rightarrow> if x = CHR ''}'' then Some (JObj [], r')
                              else map_option (\<lambda>(ms, r'). (JObj ms, r')) (parse_members (d + 1) r)
                   | [] \<Rightarrow> None))
          else if c = CHR ''['' then
            (if d \<ge> maxNestingDepth then None
             else (case skip_ws r of
                     x # r' \<Rightarrow> if x = CHR '']'' then Some (JArr [], r')
                              else map_option (\<lambda>(js, r'). (JArr js, r')) (parse_elems (d + 1) r)
                   | [] \<Rightarrow> None))
          else if c = CHR ''t'' then literal ''true'' (JBool True) (c # r)
          else if c = CHR ''f'' then literal ''false'' (JBool False) (c # r)
          else if c = CHR ''n'' then literal ''null'' JNull (c # r)
          else map_option (\<lambda>(n, r'). (JNum n, r')) (parse_number (c # r)))"
| "parse_elems d s =
     (case parse_value d s of
        None \<Rightarrow> None
      | Some (j, r) \<Rightarrow>
          (case skip_ws r of
             [] \<Rightarrow> None
           | x # r' \<Rightarrow>
               if x = CHR '']'' then Some ([j], r')
               else if x = CHR '','' \<and> length r' < length s then
                 map_option (\<lambda>(js, r''). (j # js, r'')) (parse_elems d r')
               else None))"
| "parse_members d s =
     (case skip_ws s of
        [] \<Rightarrow> None
      | q # r \<Rightarrow>
          if q \<noteq> CHR 0x22 then None
          else (case str_body r of
             None \<Rightarrow> None
           | Some (k, r1) \<Rightarrow>
               (case skip_ws r1 of
                  [] \<Rightarrow> None
                | x # r2 \<Rightarrow>
                    if x \<noteq> CHR '':'' then None
                    else (case parse_value d r2 of
                       None \<Rightarrow> None
                     | Some (j, r3) \<Rightarrow>
                         (case skip_ws r3 of
                            [] \<Rightarrow> None
                          | y # r4 \<Rightarrow>
                              if y = CHR ''}'' then Some ([(k, j)], r4)
                              else if y = CHR '','' \<and> length r4 < length s then
                                map_option (\<lambda>(ms, r''). ((k, j) # ms, r'')) (parse_members d r4)
                              else None)))))"
  by pat_completeness auto

termination
proof (relation "measure (\<lambda>x. case x of Inl (d, s) \<Rightarrow> 2 * length s
    | Inr (Inl (d, s)) \<Rightarrow> 2 * length s + 1 | Inr (Inr (d, s)) \<Rightarrow> 2 * length s + 1)", goal_cases)
qed (auto dest!: skip_ws_Cons str_body_length)

section \<open>Well-formed strings\<close>

function coerce_utf8 :: "string \<Rightarrow> string" where
  "coerce_utf8 [] = []"
| "coerce_utf8 (c # s) =
     (case rune_len (c # s) of
        0 \<Rightarrow> encode_rune ReplacementChar @ coerce_utf8 s
      | Suc k \<Rightarrow> c # take k s @ coerce_utf8 (drop k s))"
  by pat_completeness auto
termination by (relation "measure length") auto

function valid_utf8 :: "string \<Rightarrow> bool" where
  "valid_utf8 [] = True"
| "valid_utf8 (c # s) = (case rune_len (c # s) of 0 \<Rightarrow> False | Suc k \<Rightarrow> valid_utf8 (drop k s))"
  by pat_completeness auto
termination by (relation "measure length") auto

declare rune_len.simps [simp del] encode_chars.simps [simp del] coerce_utf8.simps [simp del] valid_utf8.simps [simp del]

lemma coerce_valid: "valid_utf8 s \<Longrightarrow> coerce_utf8 s = s"
  by (induction s rule: valid_utf8.induct)
     (auto simp: valid_utf8.simps coerce_utf8.simps split: nat.splits)

lemma rune_len_ascii: "in_range 0 0x7F c \<Longrightarrow> rune_len (c # s) = 1"
  by (simp add: rune_len.simps)

lemma rune_len_le: "rune_len (c # s) \<le> Suc (length s)"
  by (auto simp: rune_len.simps split: list.splits)

lemma rune_len_prefix:
  assumes "rune_len (c # s) = Suc k"
  shows "rune_len (c # take k s @ x) = Suc k"
proof -
  consider (one) "in_range 0 0x7F c" | (two) "\<not> in_range 0 0x7F c" "in_range 0xC2 0xDF c"
    | (three) "\<not> in_range 0 0x7F c" "\<not> in_range 0xC2 0xDF c" "in_range 0xE0 0xEF c"
    | (four) "\<not> in_range 0 0x7F c" "\<not> in_range 0xC2 0xDF c" "\<not> in_range 0xE0 0xEF c" "in_range 0xF0 0xF4 c"
    | (none) "\<not> in_range 0 0x7F c" "\<not> in_range 0xC2 0xDF c" "\<not> in_range 0xE0 0xEF c" "\<not> in_range 0xF0 0xF4 c"
    by blast
  then show ?thesis
  proof cases
    case one
    then show ?thesis using assms by (simp add: rune_len.simps(2))
  next
    case two
    with assms obtain b t where "s = b # t" by (cases s) (simp_all add: rune_len.simps(2))
    with two assms show ?thesis by (auto simp: rune_len.simps(2) split: if_splits)
  next
    case three
    with assms obtain b d t where "s = b # d # t"
      by (cases s; cases "tl s") (simp_all add: rune_len.simps(2))
    with three assms show ?thesis by (auto simp: rune_len.simps(2) split: if_splits)
  next
    case four
    with assms obtain b d e t where "s = b # d # e # t"
      by (cases s; cases "tl s"; cases "tl (tl s)") (simp_all add: rune_len.simps(2))
    with four assms show ?thesis by (auto simp: rune_len.simps(2) split: if_splits)
  next
    case none
    with assms show ?thesis by (simp add: rune_len.simps(2))
  qed
qed

lemma json_hex_val [simp]: "n < 16 \<Longrightarrow> hex_val (json_hex n) = Some n"
  by (simp add: hex_val_def json_hex_def Let_def of_char_of_small)

lemma encode_rune_ascii: "n < 0x80 \<Longrightarrow> encode_rune n = [char_of n]"
  by (simp add: encode_rune_def)

lemma hex_val_zero: "hex_val (CHR ''0'') = Some 0"
  by code_simp

lemma rune_separators:
  "encode_rune 0x2028 = [CHR 0xE2, CHR 0x80, CHR 0xA8]" "encode_rune 0x2029 = [CHR 0xE2, CHR 0x80, CHR 0xA9]"
  by (simp_all add: encode_rune_def char_of_eq_iff take_bit_eq_mod)

lemma getu4_digits:
  "x < 16 \<Longrightarrow> y < 16 \<Longrightarrow>
   getu4 (CHR ''0'' # CHR ''0'' # json_hex x # json_hex y # r) = Some (x * 16 + y, r)"
  by (simp only: getu4_def list.case hex_val_zero json_hex_val prod.case option.case mult_0 add_0)

lemma getu4_ascii:
  assumes "n < 0x80"
  shows "getu4 (CHR ''0'' # CHR ''0'' # json_hex (n div 16) # json_hex (n mod 16) # r) = Some (n, r)"
  using assms getu4_digits [of "n div 16" "n mod 16" r] by (simp only: div_mult_mod_eq)

lemma unquote_u_plain: "\<not> is_surrogate n \<Longrightarrow> unquote_u n r = (n, r)"
  by (simp add: unquote_u_def)

lemma str_body_u:
  "getu4 s = Some (n, r) \<Longrightarrow> \<not> is_surrogate n \<Longrightarrow>
   str_body (CHR 0x5C # CHR ''u'' # s) = emit (encode_rune n) (str_body r)"
  by (subst str_body.simps) (simp add: unquote_u_plain)

lemma str_body_escape_ascii:
  assumes "in_range 0 0x7F c"
  shows "str_body (escape_ascii c @ x) = emit [c] (str_body x)"
proof -
  define n :: nat where "n = of_char c"
  then have c: "c = char_of n" by simp
  from assms have n: "n < 0x80" by (simp add: in_range_def n_def)
  have rl: "rune_len (c # x) = Suc 0" using rune_len_ascii [OF assms] by simp
  let ?q = "c = CHR 0x22 \<or> c = CHR 0x5C" and ?s = "n \<in> {8, 12, 10, 13, 9}"
    and ?h = "n < 32 \<or> c = CHR ''<'' \<or> c = CHR ''>'' \<or> c = CHR ''&''"
  consider ?q | "\<not> ?q" ?s | "\<not> ?q" "\<not> ?s" ?h | "\<not> ?q" "\<not> ?s" "\<not> ?h" by blast
  then show ?thesis
  proof cases
    case 1
    then show ?thesis by (auto simp: escape_ascii_def unescape_def str_body.simps)
  next
    case 2
    then have "c \<in> {char_of (8::nat), char_of (12::nat), char_of (10::nat), char_of (13::nat), char_of (9::nat)}" using c by auto
    moreover have "{char_of (8::nat), char_of (12::nat), char_of (10::nat), char_of (13::nat), char_of (9::nat)}
       = {CHR 0x08, CHR 0x0C, CHR 0x0A, CHR 0x0D, CHR 0x09}" by code_simp
    ultimately have "c \<in> {CHR 0x08, CHR 0x0C, CHR 0x0A, CHR 0x0D, CHR 0x09}" by simp
    then show ?thesis
      by (elim insertE emptyE; hypsubst) (simp_all add: escape_ascii_def unescape_def str_body.simps Let_def)
  next
    case 3
    then have "escape_ascii c = CHR 0x5C # ''u00'' @ [json_hex (n div 16), json_hex (n mod 16)]"
      unfolding escape_ascii_def Let_def n_def [symmetric] by simp
    moreover have "\<not> is_surrogate n" using n by (simp add: is_surrogate_def)
    ultimately show ?thesis
      using str_body_u [OF getu4_ascii [OF n, of x]] encode_rune_ascii [OF n] c by simp
  next
    case 4
    then have "escape_ascii c = [c]"
      unfolding escape_ascii_def Let_def n_def [symmetric] by simp
    moreover have "str_body (c # x) = emit [c] (str_body x)"
      using 4 rl unfolding n_def by (subst str_body.simps) simp
    ultimately show ?thesis by simp
  qed
qed

lemma str_body_encode: "str_body (encode_chars s @ CHR 0x22 # r) = Some (coerce_utf8 s, r)"
proof (induction s rule: encode_chars.induct)
  case 1
  show ?case by (simp add: encode_chars.simps coerce_utf8.simps str_body.simps)
next
  case (2 c s)
  show ?case
  proof (cases "in_range 0 0x7F c")
    case True
    with 2 rune_len_ascii [OF True, of s] show ?thesis
      by (simp add: encode_chars.simps coerce_utf8.simps str_body_escape_ascii)
  next
    case False
    then have big: "c \<noteq> CHR 0x22" "c \<noteq> CHR 0x5C" "\<not> of_char c < (32::nat)" by (auto simp: in_range_def)
    show ?thesis
    proof (cases "rune_len (c # s)")
      case 0
      have "str_body (CHR 0x5C # ''ufffd'' @ x) = emit (encode_rune ReplacementChar) (str_body x)" for x
        using str_body_u [of "''fffd'' @ x" ReplacementChar x]
        by (simp add: getu4_def hex_val_def is_surrogate_def ReplacementChar_def)
      with 0 False 2 show ?thesis by (simp add: encode_chars.simps coerce_utf8.simps Let_def)
    next
      case (Suc k)
      have sep: "str_body (CHR 0x5C # CHR ''u'' # CHR ''2'' # CHR ''0'' # CHR ''2'' # d # x) =
          emit [CHR 0xE2, CHR 0x80, e] (str_body x)" if "d = CHR ''8'' \<and> e = CHR 0xA8 \<or> d = CHR ''9'' \<and> e = CHR 0xA9" for d e x
        using that str_body_u [of "''202'' @ d # x" "if d = CHR ''8'' then 0x2028 else 0x2029" x]
        by (auto simp: getu4_def hex_val_def is_surrogate_def rune_separators)
      from 2 False Suc have IH: "str_body (encode_chars (drop k s) @ CHR 0x22 # r) = Some (coerce_utf8 (drop k s), r)"
        by (cases "take (Suc k) (c # s) = [CHR 0xE2, CHR 0x80, CHR 0xA8]";
            cases "take (Suc k) (c # s) = [CHR 0xE2, CHR 0x80, CHR 0xA9]") (auto simp: Let_def)
      have whole: "coerce_utf8 (c # s) = take (Suc k) (c # s) @ coerce_utf8 (drop k s)"
        using Suc by (simp add: coerce_utf8.simps)
      have plain: "str_body (c # take k s @ x) = emit (c # take k s) (str_body x)" for x
      proof -
        have "k \<le> length s" using rune_len_le [of c s] Suc by simp
        then show ?thesis
          using big rune_len_prefix [OF Suc, of x] by (subst str_body.simps) simp
      qed
      show ?thesis
        using IH whole sep plain False Suc
        by (auto simp: encode_chars.simps Let_def)
    qed
  qed
qed


section \<open>Documents\<close>

definition parse_document :: "string \<Rightarrow> json option" where
  "parse_document data =
     (case parse_value 0 data of
        None \<Rightarrow> None
      | Some (j, r) \<Rightarrow> if skip_ws r = [] then Some j else None)"

definition SyntaxError :: go_error where
  "SyntaxError = ErrMsg ''SyntaxError''"

definition UnmarshalTypeError :: go_error where
  "UnmarshalTypeError = ErrMsg ''UnmarshalTypeError''"

text \<open>\<open>Unmarshal\<close> into a new \<open>map[string]string\<close>: null elements are stored as empty strings, a
  value of another type is an error, which the package returns after storing the rest.\<close>

fun store_members :: "(string \<times> json) list \<Rightarrow> (string \<rightharpoonup> string) \<Rightarrow> go_error + (string \<rightharpoonup> string)" where
  "store_members [] m = Inr m"
| "store_members ((k, JStr v) # ms) m = store_members ms (m(k \<mapsto> v))"
| "store_members ((k, JNull) # ms) m = store_members ms (m(k \<mapsto> []))"
| "store_members ((k, j) # ms) m = Inl UnmarshalTypeError"

definition Unmarshal :: "string \<Rightarrow> go_error + (string \<rightharpoonup> string)" where
  "Unmarshal data =
     (case parse_document data of
        None \<Rightarrow> Inl SyntaxError
      | Some JNull \<Rightarrow> Inr Map.empty
      | Some (JObj ms) \<Rightarrow> store_members ms Map.empty
      | Some _ \<Rightarrow> Inl UnmarshalTypeError)"

section \<open>Reading back what was written\<close>

text \<open>Values without numbers whose strings are UTF-8 and whose nesting fits below depth \<open>d\<close>.\<close>

fun plain :: "nat \<Rightarrow> json \<Rightarrow> bool" where
  "plain d JNull = True"
| "plain d (JBool b) = True"
| "plain d (JNum n) = False"
| "plain d (JStr s) = valid_utf8 s"
| "plain d (JArr js) = (d < maxNestingDepth \<and> list_all (plain (d + 1)) js)"
| "plain d (JObj ms) =
     (d < maxNestingDepth \<and> list_all (\<lambda>(k, j). valid_utf8 k \<and> plain (d + 1) j) ms)"

lemma skip_ws_simps [simp]:
  "c \<notin> set [CHR '' '', CHR 0x09, CHR 0x0A, CHR 0x0D] \<Longrightarrow> skip_ws (c # r) = c # r"
  by (simp add: skip_ws_def)

lemma parse_string: "valid_utf8 s \<Longrightarrow> str_body (encode_chars s @ CHR 0x22 # r) = Some (s, r)"
  by (simp add: str_body_encode coerce_valid)

declare parse_value.simps [simp del] parse_elems.simps [simp del] parse_members.simps [simp del]

lemma encode_first: "\<exists>c r. encode j = c # r \<and> c \<notin> set [CHR '' '', CHR 0x09, CHR 0x0A, CHR 0x0D, CHR '']'', CHR ''}'']" if "plain d j"
  using that by (cases j) (auto simp: encode_string_def)

lemma skip_encode: "plain d j \<Longrightarrow> skip_ws (encode j @ r) = encode j @ r"
  using encode_first [of d j] by auto

lemma parse_elems_encode:
  assumes "js \<noteq> []" and "\<And>j r. j \<in> set js \<Longrightarrow> parse_value d (encode j @ r) = Some (j, r)"
    and "\<And>j. j \<in> set js \<Longrightarrow> plain d j"
  shows "parse_elems d (join '','' (map encode js) @ CHR '']'' # r) = Some (js, r)"
  using assms
proof (induction js)
  case (Cons j js)
  show ?case
  proof (cases js)
    case Nil
    with Cons.prems(2) [of j] show ?thesis by (simp add: parse_elems.simps)
  next
    case (Cons j' js')
    with Cons.IH Cons.prems have rest: "parse_elems d (join '','' (map encode js) @ CHR '']'' # r) = Some (js, r)" by simp
    have eq: "join '','' (map encode (j # js)) @ CHR '']'' # r =
        encode j @ CHR '','' # join '','' (map encode js) @ CHR '']'' # r" using Cons by simp
    show ?thesis
      unfolding eq by (subst parse_elems.simps) (simp add: Cons.prems rest)
  qed
qed simp

lemma parse_members_encode:
  assumes "ms \<noteq> []" and "\<And>k j r. (k, j) \<in> set ms \<Longrightarrow> parse_value d (encode j @ r) = Some (j, r)"
    and "\<And>k j. (k, j) \<in> set ms \<Longrightarrow> plain d j \<and> valid_utf8 k"
  shows "parse_members d
    (join '','' (map (\<lambda>(k, j). encode_string k @ CHR '':'' # encode j) ms) @ CHR ''}'' # r) = Some (ms, r)"
  using assms
proof (induction ms)
  case (Cons m ms)
  obtain k j where m: "m = (k, j)" by fastforce
  let ?enc = "\<lambda>(k, j). encode_string k @ CHR '':'' # encode j"
  have k: "str_body (encode_chars k @ CHR 0x22 # x) = Some (k, x)" for x
    using Cons.prems(3) [of k j] m by (simp add: parse_string)
  have j: "parse_value d (encode j @ x) = Some (j, x)" for x using Cons.prems(2) [of k j] m by simp
  show ?case
  proof (cases ms)
    case Nil
    then show ?thesis using m by (subst parse_members.simps) (simp add: encode_string_def k j)
  next
    case (Cons m' ms')
    have rest: "parse_members d (join '','' (map ?enc ms) @ CHR ''}'' # r) = Some (ms, r)"
    proof (rule Cons.IH)
      show "ms \<noteq> []" using Cons by simp
      show "parse_value d (encode j @ r) = Some (j, r)" if "(k, j) \<in> set ms" for k j r
        using Cons.prems(2) [of k j r] that by simp
      show "plain d j \<and> valid_utf8 k" if "(k, j) \<in> set ms" for k j
        using Cons.prems(3) [of k j] that by simp
    qed
    have eq: "join '','' (map ?enc (m # ms)) @ CHR ''}'' # r =
        CHR 0x22 # encode_chars k @ CHR 0x22 # CHR '':'' # encode j @ CHR '','' #
          join '','' (map ?enc ms) @ CHR ''}'' # r" using Cons m by (simp add: encode_string_def)
    show ?thesis
      unfolding eq by (subst parse_members.simps) (simp add: k j rest m)
  qed
qed simp

lemma parse_encode: "plain d j \<Longrightarrow> parse_value d (encode j @ r) = Some (j, r)"
proof (induction j arbitrary: d r)
  case (JStr s)
  then show ?case by (subst parse_value.simps) (simp add: encode_string_def parse_string)
next
  case (JArr js)
  show ?case
  proof (cases "js = []")
    case True
    with JArr show ?thesis by (subst parse_value.simps) simp
  next
    case False
    with JArr have "parse_elems (d + 1) (join '','' (map encode js) @ CHR '']'' # r) = Some (js, r)"
      by (intro parse_elems_encode) (auto simp: list_all_iff)
    moreover obtain j js' where js: "js = j # js'" using False by (cases js) auto
    moreover obtain c x where "encode j = c # x" "c \<notin> set [CHR '' '', CHR 0x09, CHR 0x0A, CHR 0x0D, CHR '']'', CHR ''}'']"
      using encode_first [of "d + 1" j] JArr js by auto
    moreover then obtain y where "join '','' (map encode js) = c # y" using js by (cases js') auto
    ultimately show ?thesis using JArr.prems by (subst parse_value.simps) simp
  qed
next
  case (JObj ms)
  let ?enc = "\<lambda>(k, j). encode_string k @ CHR '':'' # encode j"
  show ?case
  proof (cases "ms = []")
    case True
    with JObj show ?thesis by (subst parse_value.simps) simp
  next
    case False
    with JObj have "parse_members (d + 1) (join '','' (map ?enc ms) @ CHR ''}'' # r) = Some (ms, r)"
      by (intro parse_members_encode) (fastforce simp: list_all_iff)+
    moreover obtain k j ms' where ms: "ms = (k, j) # ms'" using False by (cases ms) auto
    moreover then obtain y where "join '','' (map ?enc ms) = CHR 0x22 # y"
      by (cases ms') (auto simp: encode_string_def)
    ultimately show ?thesis using JObj.prems by (subst parse_value.simps) simp
  qed
qed (simp_all add: parse_value.simps literal_def)

text \<open>Encoding loses nothing: what \<open>Marshal\<close> writes of a map of UTF-8 strings is a document
  whose members are the map's keys, each once and in order, with its values.\<close>

lemma marshal_parse:
  assumes "\<And>k v vs. (k, vs) \<in> set m \<Longrightarrow> v \<in> insert k (set vs) \<Longrightarrow> valid_utf8 v" and "wf_map m"
  shows "\<exists>text. Marshal m = Ok text \<and>
    parse_document text = Some (JObj (map (\<lambda>k. (k, JArr (map JStr (mm_vals m k)))) (sort (keys_of m))))"
proof -
  have "valid_utf8 k \<and> (\<forall>v \<in> set (mm_vals m k). valid_utf8 v)" if "k \<in> key_set m" for k
  proof -
    from that obtain vs where "(k, vs) \<in> set m" by auto
    with assms mm_vals_mem [OF assms(2) this] show ?thesis by auto
  qed
  then have "plain 0 (json_of_smap m)"
    by (auto simp: json_of_smap_def list_all_iff maxNestingDepth_def)
  from parse_encode [OF this, of "[]"] show ?thesis
    by (simp add: Marshal_def parse_document_def json_of_smap_def skip_ws_def)
qed

text \<open>A JSON object of strings decodes to exactly that map, the last
  member winning where a name occurs twice.\<close>

lemma store_strings: "store_members (map (\<lambda>(k, v). (k, JStr v)) kvs) m = Inr (m ++ map_of (rev kvs))"
  by (induction kvs arbitrary: m) (auto simp: map_add_def fun_eq_iff split: option.splits)

lemma unmarshal_object:
  assumes "\<And>k v. (k, v) \<in> set kvs \<Longrightarrow> valid_utf8 k \<and> valid_utf8 v"
  shows "Unmarshal (encode (JObj (map (\<lambda>(k, v). (k, JStr v)) kvs))) = Inr (map_of (rev kvs))"
proof -
  have "plain 0 (JObj (map (\<lambda>(k, v). (k, JStr v)) kvs))"
    using assms by (auto simp: list_all_iff maxNestingDepth_def)
  from parse_encode [OF this, of "[]"] show ?thesis
    by (simp add: Unmarshal_def parse_document_def skip_ws_def store_strings)
qed

section \<open>The length guards never fire\<close>

text \<open>Every parser consumes input, so the remainder is always shorter than what was given.\<close>

lemma parse_digits_length: "parse_digits s = Some (w, r) \<Longrightarrow> length r < length s"
  by (cases s) (auto simp: parse_digits_def Let_def split: if_splits)

lemma parse_number_length: "parse_number s = Some (n, r) \<Longrightarrow> length r < length s"
proof -
  have i: "parse_int s = Some (w, r) \<Longrightarrow> length r < length s" for s w r
    by (auto simp: parse_int_def split: list.splits if_splits dest: parse_digits_length)
  have f: "parse_frac s = Some (w, r) \<Longrightarrow> length r \<le> length s" for s w r
    by (auto simp: parse_frac_def split: list.splits if_splits dest!: parse_digits_length)
  have e: "parse_exp s = Some (w, r) \<Longrightarrow> length r \<le> length s" for s w r
    by (auto simp: parse_exp_def split: list.splits if_splits dest!: parse_digits_length)
  assume "parse_number s = Some (n, r)"
  then show ?thesis
    by (auto simp: parse_number_def split: option.splits list.splits if_splits dest!: i f e)
qed

lemma parse_length:
  "parse_value d s = Some (j, r) \<Longrightarrow> length r < length s"
  "parse_elems d s = Some (js, r) \<Longrightarrow> length r < length s"
  "parse_members d s = Some (ms, r) \<Longrightarrow> length r < length s"
proof (induction d s and d s and d s arbitrary: j r and js r and ms r
    rule: parse_value_parse_elems_parse_members.induct)
  case (1 d s)
  then obtain c x where cx: "skip_ws s = c # x" by (cases "skip_ws s") (auto simp: parse_value.simps)
  then have len: "length x < length s" by (rule skip_ws_Cons)
  have inner: "length z < length x" if "skip_ws x = y # z" for y z using that by (rule skip_ws_Cons)
  from 1(3) len show ?case
    by (subst (asm) parse_value.simps)
       (auto simp: literal_def cx split: list.splits if_splits
         dest: inner 1(1) [OF cx, simplified] 1(2) [OF cx, simplified] dest!: str_body_length parse_number_length)
next
  case (2 d s)
  from 2(3) obtain j1 r1 where head: "parse_value d s = Some (j1, r1)"
    by (auto simp: parse_elems.simps split: option.splits)
  with 2(1) have "length r1 < length s" by blast
  moreover have "length z < length r1" if "skip_ws r1 = y # z" for y z using that by (rule skip_ws_Cons)
  moreover have "length r' < length z" if "skip_ws r1 = CHR '','' # z" "length z < length s"
      "parse_elems d z = Some (js', r')" for z js' r'
    using 2(2) [OF head refl that(1)] that by simp
  ultimately show ?case using 2(3) head
    by (subst (asm) parse_elems.simps) (fastforce split: list.splits if_splits)
next
  case (3 d s)
  from 3(3) obtain x k r1 r2 j1 r3 where head: "skip_ws s = CHR 0x22 # x" "str_body x = Some (k, r1)"
      "skip_ws r1 = CHR '':'' # r2" "parse_value d r2 = Some (j1, r3)"
    by (auto simp: parse_members.simps split: option.splits list.splits if_splits)
  have "length r3 < length r2" using 3(1) [OF head(1) _ head(2) refl head(3)] head(4) by simp
  moreover have "length r2 < length s"
    using head by (auto dest!: skip_ws_Cons str_body_length)
  moreover have "length z < length r3" if "skip_ws r3 = y # z" for y z using that by (rule skip_ws_Cons)
  moreover have "length r' < length z" if "skip_ws r3 = CHR '','' # z" "length z < length s"
      "parse_members d z = Some (ms', r')" for z ms' r'
    using 3(2) [OF head(1) _ head(2) refl head(3) _ head(4) refl that(1)] that by simp
  ultimately show ?case using 3(3) head
    by (subst (asm) parse_members.simps) (fastforce split: list.splits if_splits)
qed
end
