(* ===== verification/Hooks.thy ===== *)
theory Hooks
  imports Proxy_Types Json
begin

text \<open>
  \<open>pkg/proxy/hooks/hooks.go\<close>: the functions run before the server shuts down, by name.  A hook
  acts on the trace and may fail.  The lock makes each operation one step.  The library function
  that turns a list of errors into one error is the parameter \<open>aggregate\<close>.
\<close>

type_synonym shutdown_hook = "trace \<Rightarrow> go_error option \<times> trace"

record hooks =
  preShutdownHooks :: "(string \<times> shutdown_hook) list"

definition NewHooks :: hooks where
  "NewHooks = \<lparr>preShutdownHooks = []\<rparr>"

definition AddPreShutdownHook :: "string \<Rightarrow> shutdown_hook \<Rightarrow> hooks \<Rightarrow> hooks" where
  "AddPreShutdownHook name hook h =
     h\<lparr>preShutdownHooks := AList.update name hook (preShutdownHooks h)\<rparr>"

text \<open>The verb \<open>%q\<close>, on bytes above ASCII as if they belonged to printable characters.\<close>

definition quote_char :: "char \<Rightarrow> string" where
  "quote_char c =
     (let n = (of_char c :: nat) in
      if c = CHR 0x22 \<or> c = CHR 0x5C then [CHR 0x5C, c]
      else if n = 7 then [CHR 0x5C, CHR ''a'']
      else if n = 8 then [CHR 0x5C, CHR ''b'']
      else if n = 12 then [CHR 0x5C, CHR ''f'']
      else if n = 10 then [CHR 0x5C, CHR ''n'']
      else if n = 13 then [CHR 0x5C, CHR ''r'']
      else if n = 9 then [CHR 0x5C, CHR ''t'']
      else if n = 11 then [CHR 0x5C, CHR ''v'']
      else if n < 32 \<or> n = 127 then [CHR 0x5C, CHR ''x'', json_hex (n div 16), json_hex (n mod 16)]
      else [c])"

definition go_quote :: "string \<Rightarrow> string" where
  "go_quote s = CHR 0x22 # concat (map quote_char s) @ [CHR 0x22]"

definition hook_error :: "string \<Rightarrow> go_error \<Rightarrow> go_error" where
  "hook_error name err =
     ErrMsg (''PreShutdownHook '' @ go_quote name @ '' failed: '' @ Error err)"

fun run_hooks :: "(string \<times> shutdown_hook) list \<Rightarrow> go_error list \<Rightarrow> trace \<Rightarrow> go_error list \<times> trace" where
  "run_hooks [] errs t = (errs, t)"
| "run_hooks ((name, hook) # hs) errs t =
     (case hook t of
        (None, t') \<Rightarrow> run_hooks hs errs t'
      | (Some err, t') \<Rightarrow> run_hooks hs (errs @ [hook_error name err]) t')"

definition RunPreShutdownHooks ::
    "(go_error list \<Rightarrow> go_error option) \<Rightarrow> hooks \<Rightarrow> trace \<Rightarrow> go_error option \<times> trace" where
  "RunPreShutdownHooks aggregate h t =
     (let (errs, t') = run_hooks (preShutdownHooks h) [] t in (aggregate errs, t'))"

section \<open>Every hook runs\<close>

text \<open>The trace and the answers when every hook is run once, in order, whatever the others return.\<close>

fun answers :: "(string \<times> shutdown_hook) list \<Rightarrow> trace \<Rightarrow> (string \<times> go_error option) list \<times> trace" where
  "answers [] t = ([], t)"
| "answers ((name, hook) # hs) t =
     (let (r, t') = hook t; (rs, t'') = answers hs t' in ((name, r) # rs, t''))"

lemma map_fst_answers: "map fst (fst (answers hs t)) = keys_of hs"
proof (induction hs arbitrary: t)
  case (Cons a hs)
  obtain name hook where "a = (name, hook)" by fastforce
  with Cons.IH [of "snd (hook t)"] show ?case by (simp add: case_prod_unfold Let_def)
qed simp

lemma run_hooks_answers:
  "run_hooks hs errs t =
     (errs @ List.map_filter (\<lambda>(name, r). map_option (hook_error name) r) (fst (answers hs t)),
      snd (answers hs t))"
  by (induction hs errs t rule: run_hooks.induct)
     (auto simp: List.map_filter_simps split: prod.splits option.splits)

definition wf_hooks :: "hooks \<Rightarrow> bool" where
  "wf_hooks h \<longleftrightarrow> wf_map (preShutdownHooks h)"

text \<open>C33: at shutdown every registered hook runs exactly once, also after others have failed, and
  the result is an error exactly when one of them failed, provided the library's aggregation gives
  no error for the empty list only.\<close>

theorem every_hook_runs:
  assumes "\<And>errs. aggregate errs = None \<longleftrightarrow> errs = []" and "wf_hooks h"
    and "RunPreShutdownHooks aggregate h t = (r, t')"
  shows "\<exists>rs. answers (preShutdownHooks h) t = (rs, t') \<and> distinct (map fst rs) \<and>
    set (map fst rs) = key_set (preShutdownHooks h) \<and>
    (r = None \<longleftrightarrow> (\<forall>(name, e) \<in> set rs. e = None))"
proof -
  obtain rs where rs: "answers (preShutdownHooks h) t = (rs, t')"
    using assms(3) by (cases "answers (preShutdownHooks h) t") (auto simp: RunPreShutdownHooks_def run_hooks_answers)
  with map_fst_answers [of "preShutdownHooks h" t] have keys: "map fst rs = keys_of (preShutdownHooks h)" by simp
  moreover from arg_cong [OF keys, of set] have "key_set rs = key_set (preShutdownHooks h)" by simp
  moreover have "List.map_filter (\<lambda>(name, r). map_option (hook_error name) r) rs = [] \<longleftrightarrow>
      (\<forall>(name, e) \<in> set rs. e = None)" for rs
    by (induction rs) (auto simp: List.map_filter_simps split: option.splits)
  ultimately show ?thesis
    using assms rs by (auto simp: RunPreShutdownHooks_def run_hooks_answers wf_hooks_def wf_map_def)
qed

lemma wf_hooks_New [simp]: "wf_hooks NewHooks"
  by (simp add: wf_hooks_def NewHooks_def)

lemma wf_hooks_Add [simp]: "wf_hooks h \<Longrightarrow> wf_hooks (AddPreShutdownHook name hook h)"
  by (simp add: wf_hooks_def AddPreShutdownHook_def)

text \<open>A hook registered under a name that is taken replaces the earlier one.\<close>

lemma AddPreShutdownHook_lookup:
  "map_of (preShutdownHooks (AddPreShutdownHook name hook h)) n =
     (if n = name then Some hook else map_of (preShutdownHooks h) n)"
  by (simp add: AddPreShutdownHook_def update_conv)

definition failing_hook :: shutdown_hook where
  "failing_hook t = (Some (ErrMsg ''stuck''), t)"

definition noting_hook :: shutdown_hook where
  "noting_hook t = (None, t @ [AuditLog ''shutdown''])"

theorem every_hook_runs_witness:
  "\<exists>rs. answers [(''Readiness Probe'', failing_hook), (''AuditBackend'', noting_hook)] []
      = (rs, [AuditLog ''shutdown'']) \<and> distinct (map fst rs)"
proof -
  let ?h = "AddPreShutdownHook ''AuditBackend'' noting_hook
    (AddPreShutdownHook ''Readiness Probe'' failing_hook NewHooks)"
  let ?agg = "\<lambda>es. case es of [] \<Rightarrow> None | e # _ \<Rightarrow> Some e"
  have hooks: "preShutdownHooks ?h = [(''Readiness Probe'', failing_hook), (''AuditBackend'', noting_hook)]"
    by (simp add: AddPreShutdownHook_def NewHooks_def)
  have agg: "?agg es = None \<longleftrightarrow> es = []" for es :: "go_error list" by (cases es) auto
  have run: "RunPreShutdownHooks ?agg ?h [] =
      (Some (hook_error ''Readiness Probe'' (ErrMsg ''stuck'')), [AuditLog ''shutdown''])"
    by (simp add: RunPreShutdownHooks_def hooks failing_hook_def noting_hook_def)
  from every_hook_runs [OF agg _ run] show ?thesis unfolding hooks by auto
qed

end
