(* ===== verification/Audit_Chain.thy ===== *)
theory Audit_Chain
  imports Request_Context Hooks
begin

text \<open>
  \<open>pkg/proxy/audit\<close>: the auditor, which wraps the API server library's audit filters around the
  proxy's handlers.  The library's options, its completed configuration and its filters are
  parameters; \<open>env\<close> holds the filters.  The predicate \<open>transparent\<close> states what the library
  documents of a filter: it records audit events, leaves notes of its own in the request's
  context, and otherwise hands the request on once, or answers it itself with an error.
\<close>

section \<open>The auditor\<close>

record audit_backend =
  BackendRun :: "trace \<Rightarrow> go_error option \<times> trace"
  BackendShutdown :: "trace \<Rightarrow> trace"

record 'ss server_config =
  ServerExternalAddress :: string
  SecureServing :: 'ss
  LongRunningVerbs :: "string list"
  AuditBackend :: "audit_backend option"
  EffectiveVersion :: string

record 'ss auditor =
  serverConfig :: "'ss server_config"

text \<open>\<open>New\<close>: the options fill in the backend, then the library completes the configuration.\<close>

definition NewAudit ::
    "('ss server_config \<Rightarrow> go_error + 'ss server_config) \<Rightarrow> ('ss server_config \<Rightarrow> 'ss server_config) \<Rightarrow>
     string \<Rightarrow> 'ss \<Rightarrow> 'ss auditor result" where
  "NewAudit ApplyTo Complete externalAddress secureServingInfo =
     (case ApplyTo \<lparr>ServerExternalAddress = externalAddress, SecureServing = secureServingInfo,
                    LongRunningVerbs = [''watch''], AuditBackend = None, EffectiveVersion = []\<rparr> of
        Inl e \<Rightarrow> Err e
      | Inr cfg \<Rightarrow> Ok \<lparr>serverConfig = Complete (cfg\<lparr>EffectiveVersion := ''1.0.31''\<rparr>)\<rparr>)"

definition RunAudit :: "'ss auditor \<Rightarrow> trace \<Rightarrow> go_error option \<times> trace" where
  "RunAudit a t =
     (case AuditBackend (serverConfig a) of
        None \<Rightarrow> (None, t)
      | Some b \<Rightarrow>
          (case BackendRun b t of
             (Some err, t') \<Rightarrow> (Some (ErrMsg (''failed to run the audit backend: '' @ Error err)), t')
           | (None, t') \<Rightarrow> (None, t')))"

definition Shutdown :: "'ss auditor \<Rightarrow> shutdown_hook" where
  "Shutdown a t =
     (case AuditBackend (serverConfig a) of
        None \<Rightarrow> (None, t) | Some b \<Rightarrow> (None, BackendShutdown b t))"

definition WithRequest :: "env \<Rightarrow> handler \<Rightarrow> handler" where
  "WithRequest E h = with_request_info E (with_audit_init E (with_audit E h))"

definition WithUnauthorized :: "env \<Rightarrow> handler \<Rightarrow> handler" where
  "WithUnauthorized E h = with_request_info E (with_failed_auth_audit E h)"

text \<open>\<open>NewUnauthenticatedHandler\<close>: without an auditor the function serves unwrapped.\<close>

definition NewUnauthenticatedHandler :: "env \<Rightarrow> 'ss auditor option \<Rightarrow> handler \<Rightarrow> handler" where
  "NewUnauthenticatedHandler E a serveFunc =
     (case a of None \<Rightarrow> serveFunc | Some _ \<Rightarrow> WithUnauthorized E serveFunc)"

section \<open>Transparent filters\<close>

definition audit_only :: "trace \<Rightarrow> bool" where
  "audit_only es \<longleftrightarrow> (\<forall>e \<in> set es. \<exists>s. e = AuditLog s)"

definition foreign_ctx :: "ctx \<Rightarrow> ctx \<Rightarrow> bool" where
  "foreign_ctx c c' \<longleftrightarrow> Value c' UserKey = Value c UserKey \<and> (\<forall>k. Value c' (ProxyKey k) = Value c (ProxyKey k))"

definition transparent :: "(handler \<Rightarrow> handler) \<Rightarrow> bool" where
  "transparent F \<longleftrightarrow> (\<forall>h r t.
     (\<exists>code body es. audit_only es \<and> F h r t = (HttpError code body, t @ es)) \<or>
     (\<exists>c es es' rep t'. foreign_ctx (Context r) c \<and> audit_only es \<and> audit_only es' \<and>
        h (WithContext r c) (t @ es) = (rep, t') \<and> F h r t = (rep, t' @ es')))"

named_theorems audit_rules \<open>transparent filters and their compositions\<close>

lemma transparent_id [audit_rules]: "transparent (\<lambda>h. h)"
  unfolding transparent_def
proof (intro allI disjI2)
  fix h :: handler and r t
  have "h (WithContext r (Context r)) (t @ []) = (fst (h r t), snd (h r t))" by (simp add: WithContext_def)
  then show "\<exists>c es es' rep t'. foreign_ctx (Context r) c \<and> audit_only es \<and> audit_only es' \<and>
      h (WithContext r c) (t @ es) = (rep, t') \<and> h r t = (rep, t' @ es')"
    by (intro exI [of _ "Context r"] exI [of _ "[]"] exI [of _ "fst (h r t)"] exI [of _ "snd (h r t)"])
       (simp_all add: foreign_ctx_def audit_only_def)
qed

lemma audit_only_append [simp]: "audit_only (es @ es') \<longleftrightarrow> audit_only es \<and> audit_only es'"
  by (auto simp: audit_only_def)

lemma audit_only_Nil [simp]: "audit_only []"
  by (simp add: audit_only_def)

lemma foreign_ctx_trans: "foreign_ctx a b \<Longrightarrow> foreign_ctx b c \<Longrightarrow> foreign_ctx a c"
  by (simp add: foreign_ctx_def)

lemma transparent_cases [consumes 1, case_names answered passed]:
  assumes "transparent F"
  obtains (answered) code body es where "audit_only es" "F h r t = (HttpError code body, t @ es)"
  | (passed) c es es' rep t' where "foreign_ctx (Context r) c" "audit_only es" "audit_only es'"
      "h (WithContext r c) (t @ es) = (rep, t')" "F h r t = (rep, t' @ es')"
  using assms unfolding transparent_def by blast

lemma transparent_comp [audit_rules]:
  assumes "transparent F" and "transparent G"
  shows "transparent (\<lambda>h. F (G h))"
  unfolding transparent_def
proof (intro allI)
  fix h r t
  let ?goal = "(\<exists>code body es. audit_only es \<and> F (G h) r t = (HttpError code body, t @ es)) \<or>
     (\<exists>c es es' rep t'. foreign_ctx (Context r) c \<and> audit_only es \<and> audit_only es' \<and>
        h (WithContext r c) (t @ es) = (rep, t') \<and> F (G h) r t = (rep, t' @ es'))"
  from assms(1) show ?goal
  proof (cases rule: transparent_cases [where h = "G h" and r = r and t = t])
    case (answered code body es)
    then show ?thesis by blast
  next
    case outer: (passed c es es' rep t')
    from assms(2) show ?thesis
    proof (cases rule: transparent_cases [where h = h and r = "WithContext r c" and t = "t @ es"])
      case (answered code body es2)
      with outer have "F (G h) r t = (HttpError code body, t @ (es @ es2 @ es'))" by simp
      with answered outer show ?thesis by (metis audit_only_append)
    next
      case (passed c2 es2 es2' rep2 t2)
      with outer have "h (WithContext r c2) (t @ (es @ es2)) = (rep, t2)" "F (G h) r t = (rep, t2 @ (es2' @ es'))"
        by (simp_all add: WithContext_def)
      moreover have "foreign_ctx (Context r) c2" using passed outer foreign_ctx_trans by fastforce
      ultimately show ?thesis using passed outer by (metis audit_only_append)
    qed
  qed
qed

definition transparent_env :: "env \<Rightarrow> bool" where
  "transparent_env E \<longleftrightarrow> transparent (with_request_info E) \<and> transparent (with_audit_init E) \<and>
     transparent (with_audit E) \<and> transparent (with_failed_auth_audit E)"

lemma WithRequest_transparent [audit_rules]: "transparent_env E \<Longrightarrow> transparent (WithRequest E)"
  using transparent_comp [OF _ transparent_comp, of "with_request_info E" "with_audit_init E" "with_audit E"]
  by (simp add: WithRequest_def [abs_def] transparent_env_def)

lemma WithUnauthorized_transparent [audit_rules]: "transparent_env E \<Longrightarrow> transparent (WithUnauthorized E)"
  using transparent_comp [of "with_request_info E" "with_failed_auth_audit E"]
  by (simp add: WithUnauthorized_def [abs_def] transparent_env_def)

lemma transparent_base_env [simp]: "transparent_env base_env"
  using transparent_id by (simp add: transparent_env_def base_env_def)

text \<open>The proxy's own entries are still there behind a transparent filter.\<close>

lemma foreign_ctx_reads:
  assumes "foreign_ctx (Context r) c"
  shows "UserFrom c = UserFrom (Context r)"
    and "NoImpersonation (WithContext r c) = NoImpersonation r"
    and "ImpersonationConfig (WithContext r c) = ImpersonationConfig r"
    and "BearerToken (WithContext r c) = BearerToken r"
  using assms by (simp_all add: foreign_ctx_def ctx_defs)

end
