(* ===== verification/Access_Log.thy ===== *)
theory Access_Log
  imports Proxy_Types
begin

text \<open>
  \<open>pkg/proxy/logging/accesslog.go\<close>: one line per request that was sent on or refused.  A line is
  an event of the trace.  The loops over an extra map visit it in the order of the list.
\<close>

section \<open>The lines\<close>

definition log_remote_addr :: "request \<Rightarrow> string" where
  "log_remote_addr req =
     (let remoteAddr = ReqRemoteAddr req; indexOfColon = index_char (CHR '':'') remoteAddr in
      if indexOfColon > 0 then take (nat indexOfColon) remoteAddr else remoteAddr)"

fun fwd_loop :: "string \<Rightarrow> string list \<Rightarrow> string \<Rightarrow> bool \<Rightarrow> string \<times> bool" where
  "fwd_loop remoteAddr [] newXFwdFor oneFound = (newXFwdFor, oneFound)"
| "fwd_loop remoteAddr (ip # ips) newXFwdFor oneFound =
     (let ip' = TrimSpace ip in
      if ip' \<noteq> remoteAddr then fwd_loop remoteAddr ips (newXFwdFor @ ip' @ '', '') True
      else fwd_loop remoteAddr ips newXFwdFor oneFound)"

definition findXForwardedFor :: "header \<Rightarrow> string \<Rightarrow> string" where
  "findXForwardedFor headers remoteAddr =
     (let xFwdFor = Get headers ''x-forwarded-for'' in
      if xFwdFor \<noteq> [] then
        (let (newXFwdFor, oneFound) = fwd_loop remoteAddr (split_on (CHR '','') xFwdFor) [] False
         in if oneFound then take (length newXFwdFor - 2) newXFwdFor else newXFwdFor)
      else xFwdFor)"

definition log_extras :: "smap option \<Rightarrow> string" where
  "log_extras extra =
     (case extra of
        None \<Rightarrow> []
      | Some m \<Rightarrow> foldl (\<lambda>acc (k, v). acc @ k @ ''='' @ join ''|'' v @ '' '') [] m)"

definition success_line :: "string \<Rightarrow> request \<Rightarrow> user_info \<Rightarrow> user_info option \<Rightarrow> string" where
  "success_line timestamp req inboundUser outboundUser =
     (let remoteAddr = log_remote_addr req;
          outboundUserLog =
            (case outboundUser of
               None \<Rightarrow> []
             | Some u \<Rightarrow> '' outbound:['' @ Name u @ '' / '' @ join ''|'' (Groups u) @ '' / '' @ UID u @
                          '' / '' @ log_extras (Extra u) @ '']'')
      in ''['' @ timestamp @ ''] AuSuccess src:['' @ remoteAddr @ '' / '' @
         findXForwardedFor (Header req) remoteAddr @ ''] URI:'' @ RequestURI req @
         '' inbound:['' @ Name inboundUser @ '' / '' @ join ''|'' (Groups inboundUser) @ '' / '' @
         log_extras (Extra inboundUser) @ '']'' @ outboundUserLog @ [CHR 0x0A])"

definition LogSuccessfulRequest ::
    "env \<Rightarrow> request \<Rightarrow> user_info \<Rightarrow> user_info option \<Rightarrow> trace \<Rightarrow> trace" where
  "LogSuccessfulRequest E req inboundUser outboundUser t =
     t @ [AccessLog (success_line (now E t) req inboundUser outboundUser)]"

definition failure_line :: "string \<Rightarrow> request \<Rightarrow> string" where
  "failure_line timestamp req =
     ''['' @ timestamp @ ''] AuFail src:['' @ log_remote_addr req @ '' / '' @
     Get (Header req) ''x-forwarded-for'' @ ''] URI:'' @ RequestURI req @ [CHR 0x0A]"

definition LogFailedRequest :: "env \<Rightarrow> request \<Rightarrow> trace \<Rightarrow> trace" where
  "LogFailedRequest E req t = t @ [AccessLog (failure_line (now E t) req)]"

section \<open>The forwarded addresses\<close>

text \<open>The accumulated string is the kept addresses, each followed by a comma and a space, so the
  slice that drops the last two bytes is in range.\<close>

lemma fwd_loop_accumulates:
  "fwd_loop r ips acc found =
     (acc @ concat (map (\<lambda>ip. ip @ '', '') (filter (\<lambda>ip. ip \<noteq> r) (map TrimSpace ips))),
      found \<or> filter (\<lambda>ip. ip \<noteq> r) (map TrimSpace ips) \<noteq> [])"
  by (induction ips arbitrary: acc found) (auto simp: Let_def)

lemma concat_separated:
  "ws \<noteq> [] \<Longrightarrow> concat (map (\<lambda>w. w @ sep) ws) = join sep ws @ sep"
  by (induction sep ws rule: join.induct) auto

lemma fwd_loop_length: "fwd_loop r ips [] False = (s, True) \<Longrightarrow> length s \<ge> 2"
  by (auto simp: fwd_loop_accumulates concat_separated)

text \<open>C32: the forwarded-for field of a log line is the client's list with the address that is
  already logged left out wherever it occurs, every other address trimmed and in its order.\<close>

theorem forwarded_for_list:
  "findXForwardedFor headers remoteAddr =
     join '', '' (filter (\<lambda>ip. ip \<noteq> remoteAddr)
       (map TrimSpace (split_on (CHR '','') (Get headers ''x-forwarded-for''))))"
proof -
  have empty: "TrimSpace [] = []" by code_simp
  show ?thesis
    by (simp add: findXForwardedFor_def Let_def fwd_loop_accumulates concat_separated empty)
qed

section \<open>The source address\<close>

lemma index_char_append: "c \<notin> set a \<Longrightarrow> index_char c (a @ c # b) = int (length a)"
  by (induction a) (auto simp: Let_def)

lemma log_remote_addr_host:
  "a \<noteq> [] \<Longrightarrow> CHR '':'' \<notin> set a \<Longrightarrow> ReqRemoteAddr req = a @ '':'' @ port \<Longrightarrow> log_remote_addr req = a"
  by (simp add: log_remote_addr_def index_char_append)

text \<open>the logged source is the host of the connection without its port; of an IPv6 address,
  which the connection writes in brackets, only the part before the first colon is left.\<close>

lemma logged_source:
  assumes "CHR '':'' \<notin> set host" and "host \<noteq> []" and "ReqRemoteAddr req = host @ '':'' @ port"
    and "ReqRemoteAddr req6 = ''['' @ first @ '':'' @ others @ '']:'' @ port" and "CHR '':'' \<notin> set first"
  shows "(\<exists>rest. failure_line ts req = ''['' @ ts @ ''] AuFail src:['' @ host @ '' / '' @ rest) \<and>
    (\<exists>rest. failure_line ts req6 = ''['' @ ts @ ''] AuFail src:['' @ ''['' @ first @ '' / '' @ rest)"
  using log_remote_addr_host [OF assms(2,1,3)]
    log_remote_addr_host [of "''['' @ first" req6 "others @ '']:'' @ port"] assms(4,5)
  by (simp add: failure_line_def)

end
