(* ===== verification/Token_Review.thy ===== *)
theory Token_Review
  imports Proxy_Types
begin

text \<open>
  \<open>pkg/util/token.go\<close> and \<open>pkg/proxy/tokenreview/tokenreview.go\<close>: reading the bearer token of a
  request and asking the API server to review it, and the fake of the unit tests.  The library go-jose that signs the readiness
  probe's token is a parameter.
\<close>

section \<open>The token of a request\<close>

text \<open>A nil request gives no token; a nil header is the header without fields.\<close>

definition ParseTokenFromRequest :: "request option \<Rightarrow> string \<times> bool" where
  "ParseTokenFromRequest r =
     (case r of
        None \<Rightarrow> ([], False)
      | Some req \<Rightarrow>
          (let auth = TrimSpace (Get (Header req) ''Authorization'') in
           if auth = [] then ([], False)
           else (let parts = split_on (CHR '' '') auth in
             if length parts < 2 \<or> ToLower (parts ! 0) \<noteq> ''bearer'' then ([], False)
             else (let token = parts ! 1 in
               if length token = 0 then ([], False) else (token, True)))))"

record jwt_claims =
  Subject :: string
  Issuer :: string
  NotBefore :: "int \<times> int \<times> int"
  Audience :: "string list"

text \<open>\<open>FakeJWT\<close>: the claims of the probe's token, signed by go-jose with a fixed key.\<close>

definition FakeJWT :: "(string \<Rightarrow> go_error + 'signer) \<Rightarrow> ('signer \<Rightarrow> jwt_claims \<Rightarrow> go_error + string) \<Rightarrow>
    string \<Rightarrow> string result" where
  "FakeJWT new_signer serialize issuerURL =
     (case new_signer ''secret'' of
        Inl e \<Rightarrow> Err e
      | Inr sig \<Rightarrow>
          (case serialize sig \<lparr>Subject = ''fake'', Issuer = issuerURL, NotBefore = (2016, 1, 1),
                              Audience = []\<rparr> of
             Inl e \<Rightarrow> Err e | Inr s \<Rightarrow> Ok s))"

section \<open>Reviewing it\<close>

record token_reviewer =
  audiences :: "string list"

text \<open>\<open>New\<close> fails when the client for the API server cannot be built.\<close>

definition NewTokenReview :: "go_error option \<Rightarrow> string list \<Rightarrow> token_reviewer result" where
  "NewTokenReview kubeclient_err auds =
     (case kubeclient_err of Some e \<Rightarrow> Err e | None \<Rightarrow> Ok \<lparr>audiences = auds\<rparr>)"

definition buildReview :: "token_reviewer \<Rightarrow> string \<Rightarrow> review_spec" where
  "buildReview tr token = \<lparr>Token = token, Audiences = audiences tr\<rparr>"

text \<open>A nil reviewer is only dereferenced once a token has been found.\<close>

definition Review :: "env \<Rightarrow> token_reviewer option \<Rightarrow> request \<Rightarrow> trace \<Rightarrow> bool result \<times> trace" where
  "Review E tr req t =
     (let (token, ok) = ParseTokenFromRequest (Some req) in
      if \<not> ok then (Err (ErrMsg ''bearer token not found in request''), t)
      else (case tr of
          None \<Rightarrow> (Panic, t)
        | Some tr' \<Rightarrow>
            (let review = buildReview tr' token;
                 resp = review_create E t review;
                 t' = t @ [ReviewCall review resp]
             in (case resp of
                   Inl e \<Rightarrow> (Err e, t')
                 | Inr st \<Rightarrow>
                     if length (ReviewError st) > 0
                     then (Err (ErrMsg (''error authenticating using token review: '' @ ReviewError st)), t')
                     else (Ok (IsAuthenticated st), t')))))"

section \<open>Properties\<close>

lemma TrimSpace_bearer:
  assumes "ToLower scheme = ''bearer''" and "TrimSpace tok = tok" and "tok \<noteq> []"
  shows "TrimSpace (scheme @ CHR '' '' # tok) = scheme @ CHR '' '' # tok"
  unfolding TrimSpace_id_iff
proof (intro ballI conjI)
  fix w assume w: "w \<in> set go_spaces"
  have "\<forall>w \<in> set go_spaces. w \<noteq> [] \<and> lower_char (hd w) \<noteq> CHR ''b''" by code_simp
  moreover obtain c cs where "scheme = c # cs" "lower_char c = CHR ''b''"
    using assms(1) by (cases scheme) auto
  ultimately show "\<not> prefix w (scheme @ CHR '' '' # tok)" using w by (cases w) auto
  have "\<forall>w \<in> set go_spaces. length w \<ge> 2 \<longrightarrow> CHR '' '' \<notin> set w" by code_simp
  moreover have "\<not> suffix w tok" using assms(2) w TrimSpace_id_iff by blast
  ultimately show "\<not> suffix w (scheme @ CHR '' '' # tok)"
    using w assms(3) by (auto simp: suffix_append suffix_Cons Suc_le_eq)
qed

lemma token_found_iff:
  "ParseTokenFromRequest (Some req) = (tok, True) \<longleftrightarrow>
   tok \<noteq> [] \<and> CHR '' '' \<notin> set tok \<and>
   (\<exists>scheme rest. ToLower scheme = ''bearer'' \<and>
      TrimSpace (Get (Header req) ''Authorization'') = join '' '' (scheme # tok # rest) \<and>
      list_all (\<lambda>w. CHR '' '' \<notin> set w) rest)"
  (is "?found \<longleftrightarrow> ?shape")
proof
  let ?auth = "TrimSpace (Get (Header req) ''Authorization'')"
  assume ?found
  then have found: "\<not> length (split_on (CHR '' '') ?auth) < 2" "split_on (CHR '' '') ?auth ! 1 = tok"
    "ToLower (split_on (CHR '' '') ?auth ! 0) = ''bearer''" and "tok \<noteq> []"
    by (auto simp: ParseTokenFromRequest_def Let_def split: if_splits)
  moreover obtain scheme rest where parts: "split_on (CHR '' '') ?auth = scheme # tok # rest"
    using found by (cases "split_on (CHR '' '') ?auth"; cases "tl (split_on (CHR '' '') ?auth)") auto
  moreover have "CHR '' '' \<notin> set w" if "w \<in> set (scheme # tok # rest)" for w
    using that split_on_no_sep [of w "CHR '' ''" ?auth] parts by simp
  moreover have "?auth = join '' '' (scheme # tok # rest)"
    using join_split_on [of "CHR '' ''" ?auth] parts by simp
  ultimately show ?shape by (auto simp: parts list_all_iff)
next
  let ?auth = "TrimSpace (Get (Header req) ''Authorization'')"
  assume ?shape
  then obtain scheme rest where scheme: "ToLower scheme = ''bearer''"
    and auth: "?auth = join '' '' (scheme # tok # rest)"
    and words: "tok \<noteq> []" "CHR '' '' \<notin> set tok" "\<forall>w \<in> set rest. CHR '' '' \<notin> set w"
    by (auto simp: list_all_iff)
  have "\<forall>c \<in> set ''bearer''. c \<noteq> CHR '' ''" "lower_char (CHR '' '') = CHR '' ''" by simp_all
  then have "CHR '' '' \<notin> set scheme"
    using scheme unfolding ToLower_def by (metis image_eqI set_map)
  with words have "split_on (CHR '' '') ?auth = scheme # tok # rest"
    unfolding auth by (intro split_on_join) auto
  moreover have "?auth \<noteq> []" using scheme by (cases rest; cases scheme) (auto simp: auth)
  ultimately show ?found
    using scheme words by (simp add: ParseTokenFromRequest_def Let_def)
qed

text \<open>C27: a token is found exactly when, after trimming white space, the Authorization header is
  the word bearer in any spelling, a space and a nonempty word without spaces, which is the token;
  whatever follows a further space is ignored.\<close>

theorem parse_token_iff:
  "ParseTokenFromRequest (Some req) = (tok, True) \<longleftrightarrow>
   tok \<noteq> [] \<and> CHR '' '' \<notin> set tok \<and>
   (\<exists>scheme rest. ToLower scheme = ''bearer'' \<and>
      TrimSpace (Get (Header req) ''Authorization'') = join '' '' (scheme # tok # rest) \<and>
      list_all (\<lambda>w. CHR '' '' \<notin> set w) rest)"
  by (rule token_found_iff)

text \<open>A client that sends the usual header gets its token through unchanged.\<close>

lemma parse_token_roundtrip:
  assumes "Get (Header req) ''Authorization'' = scheme @ '' '' @ tok" and "ToLower scheme = ''bearer''"
    and "tok \<noteq> []" and "CHR '' '' \<notin> set tok" and "TrimSpace tok = tok"
  shows "ParseTokenFromRequest (Some req) = (tok, True)"
proof -
  have "TrimSpace (Get (Header req) ''Authorization'') = join '' '' [scheme, tok]"
    using TrimSpace_bearer [OF assms(2,5,3)] assms(1) by simp
  with assms show ?thesis unfolding token_found_iff by (metis list.pred_inject(1))
qed

text \<open>C28: a review vouches for a request only if the request has a token and the API server, asked
  about exactly this token and the configured audiences, answered without error that it is
  authenticated.\<close>

theorem review_ok_authenticated:
  assumes "Review E (Some tr) req t = (Ok True, t')"
  shows "\<exists>token st. ParseTokenFromRequest (Some req) = (token, True) \<and>
    ReviewError st = [] \<and> IsAuthenticated st \<and>
    review_create E t \<lparr>Token = token, Audiences = audiences tr\<rparr> = Inr st \<and>
    t' = t @ [ReviewCall \<lparr>Token = token, Audiences = audiences tr\<rparr> (Inr st)]"
  using assms
  by (auto simp: Review_def buildReview_def Let_def split: prod.splits if_splits sum.splits)

theorem review_ok_authenticated_witness:
  "\<exists>st. IsAuthenticated st \<and> review_create
      (base_env\<lparr>review_create := (\<lambda>t r. Inr \<lparr>ReviewError = [], IsAuthenticated = Token r = ''good''\<rparr>)\<rparr>)
      [] \<lparr>Token = ''good'', Audiences = [''api'']\<rparr> = Inr st"
proof -
  let ?E = "base_env\<lparr>review_create := (\<lambda>t r. Inr \<lparr>ReviewError = [], IsAuthenticated = Token r = ''good''\<rparr>)\<rparr>"
  let ?r = "\<lparr>Header = [(''Authorization'', [''Bearer good''])],
     URL = \<lparr>Path = ''/'', RawQuery = []\<rparr>, ReqRemoteAddr = [], RequestURI = [], Context = []\<rparr>"
  have tok: "ParseTokenFromRequest (Some ?r) = (''good'', True)" by code_simp
  have "fst (Review ?E (Some \<lparr>audiences = [''api'']\<rparr>) ?r []) = Ok True" by code_simp
  then obtain t' where "Review ?E (Some \<lparr>audiences = [''api'']\<rparr>) ?r [] = (Ok True, t')"
    by (metis prod.collapse)
  from review_ok_authenticated [OF this] tok show ?thesis by auto
qed

text \<open>without a token in the request the API server is not asked.\<close>

theorem review_no_token:
  assumes "\<not> snd (ParseTokenFromRequest (Some req))"
  shows "Review E tr req t = (Err (ErrMsg ''bearer token not found in request''), t)"
  using assms by (cases "ParseTokenFromRequest (Some req)") (simp add: Review_def)

theorem review_no_token_witness:
  "Review base_env None \<lparr>Header = [(''Authorization'', [''Basic abc''])],
     URL = \<lparr>Path = ''/'', RawQuery = []\<rparr>, ReqRemoteAddr = [], RequestURI = [], Context = []\<rparr> []
   = (Err (ErrMsg ''bearer token not found in request''), [])"
  by (rule review_no_token) code_simp

section \<open>The fake reviewer\<close>

text \<open>
  \<open>pkg/proxy/tokenreview/fake\<close>, the reviewer of the unit tests: it answers every review with what it
  was told, at first with nothing.
\<close>

record token_review =
  Spec :: review_spec
  Status :: review_status

record fake_reviewer =
  CreateFn :: "token_review \<Rightarrow> token_review option \<times> go_error option"

definition NewFakeReviewer :: fake_reviewer where
  "NewFakeReviewer = \<lparr>CreateFn = (\<lambda>req. (None, None))\<rparr>"

definition FakeCreate :: "fake_reviewer \<Rightarrow> token_review \<Rightarrow> token_review option \<times> go_error option" where
  "FakeCreate f req = CreateFn f req"

definition FakeCreateContext :: "fake_reviewer \<Rightarrow> token_review \<Rightarrow> token_review option \<times> go_error option" where
  "FakeCreateContext f req = CreateFn f req"

definition WithCreate :: "token_review option \<Rightarrow> go_error option \<Rightarrow> fake_reviewer \<Rightarrow> fake_reviewer" where
  "WithCreate req err f = f\<lparr>CreateFn := (\<lambda>r. (req, err))\<rparr>"

text \<open>What a caller sees of such an answer; without a review and without an error it dereferences nil.\<close>

definition fake_answer :: "token_review option \<times> go_error option \<Rightarrow> (go_error + review_status) option" where
  "fake_answer a =
     (case a of (r, Some e) \<Rightarrow> Some (Inl e) | (Some r, None) \<Rightarrow> Some (Inr (Status r)) | (None, None) \<Rightarrow> None)"

text \<open>A review whose API server is the fake comes out as the fake was told.\<close>

lemma Review_with_fake:
  assumes "fake_answer (FakeCreate (WithCreate resp err f) q) = Some a" and "review_create E = (\<lambda>t q. a)"
    and "ParseTokenFromRequest (Some req) = (token, True)"
  shows "fst (Review E (Some tr) req t) = Ok True \<longleftrightarrow>
    err = None \<and> (\<exists>r. resp = Some r \<and> ReviewError (Status r) = [] \<and> IsAuthenticated (Status r))"
  using assms
  by (auto simp: FakeCreate_def WithCreate_def fake_answer_def Review_def Let_def split: option.splits sum.splits)

end
