(* ===== verification/Mapping_Manager.thy ===== *)
theory Mapping_Manager
  imports Json
begin

text \<open>
  The first half of \<open>pkg/proxy/namespace_round_tripper.go\<close>: the \<open>MappingManager\<close> that holds
  the tenant to namespace mapping and reloads it when the file changes.  Opening and reading the
  file gives an error or its bytes.  The watcher goroutine
  is a step relation: the file changes at any time, and the goroutine reacts to the watcher's
  events.  The read/write lock of the source makes each load and each lookup one atomic step.
\<close>

section \<open>The manager\<close>

record mapping_manager =
  mappings :: "string \<rightharpoonup> string"

type_synonym file_read = "go_error + string"

definition loadMappings :: "file_read \<Rightarrow> mapping_manager \<Rightarrow>
    go_error option \<times> mapping_manager" where
  "loadMappings file m =
     (case file of
        Inl e \<Rightarrow> (Some e, m)
      | Inr data \<Rightarrow>
          (case Unmarshal data of
             Inl e \<Rightarrow> (Some e, m)
           | Inr newMappings \<Rightarrow> (None, m\<lparr>mappings := newMappings\<rparr>)))"

definition NewMappingManager :: "file_read \<Rightarrow> mapping_manager result" where
  "NewMappingManager file =
     (case loadMappings file \<lparr>mappings = Map.empty\<rparr> of
        (Some e, m) \<Rightarrow> Err e
      | (None, m) \<Rightarrow> Ok m)"

definition GetNamespace :: "mapping_manager \<Rightarrow> string \<Rightarrow> string \<times> bool" where
  "GetNamespace m pathSuffix =
     (case mappings m pathSuffix of None \<Rightarrow> ([], False) | Some ns \<Rightarrow> (ns, True))"

lemma loadMappings_failed: "loadMappings f m = (Some e, m') \<Longrightarrow> m' = m"
  by (auto simp: loadMappings_def split: sum.splits)

lemma loadMappings_loaded:
  "loadMappings f m = (None, m') \<longleftrightarrow>
   (\<exists>data new. f = Inr data \<and> Unmarshal data = Inr new \<and> m' = m\<lparr>mappings := new\<rparr>)"
  by (auto simp: loadMappings_def split: sum.splits)

text \<open>a mapping file that is a JSON object of strings is loaded as exactly that mapping, the last
  member winning where a name occurs twice.\<close>

lemma mapping_file_loaded:
  assumes "\<And>k v. (k, v) \<in> set kvs \<Longrightarrow> valid_utf8 k \<and> valid_utf8 v"
  shows "loadMappings (Inr (encode (JObj (map (\<lambda>(k, v). (k, JStr v)) kvs)))) m =
    (None, m\<lparr>mappings := map_of (rev kvs)\<rparr>)"
proof -
  have "Unmarshal (encode (JObj (map (\<lambda>(k, v). (k, JStr v)) kvs))) = Inr (map_of (rev kvs))"
    by (rule unmarshal_object) (rule assms)
  then show ?thesis by (simp only: loadMappings_def sum.case)
qed

section \<open>The watcher\<close>

definition kubeletDataSymlink :: string where
  "kubeletDataSymlink = ''..data''"

text \<open>\<open>filepath.Base\<close> on a slash separated path.\<close>

definition path_base :: "string \<Rightarrow> string" where
  "path_base p =
     (if p = [] then ''.''
      else (let q = rev (dropWhile (\<lambda>c. c = CHR ''/'') (rev p)) in
        if q = [] then ''/'' else last (split_on (CHR ''/'') q)))"

definition relevant_event :: "string \<Rightarrow> string \<Rightarrow> bool" where
  "relevant_event filePath name \<longleftrightarrow>
     path_base name = kubeletDataSymlink \<or> path_base name = path_base filePath"

text \<open>What the goroutine receives: an event, an error, or the end of either channel.\<close>

datatype watch_item = FsEvent string | WatchError | ChannelClosed

record watch_state =
  file_now :: file_read
  manager :: mapping_manager
  running :: bool

definition watch_handle :: "string \<Rightarrow> watch_item \<Rightarrow> watch_state \<Rightarrow> watch_state" where
  "watch_handle filePath item s =
     (case item of
        FsEvent name \<Rightarrow>
          if \<not> relevant_event filePath name then s
          else s\<lparr>manager := snd (loadMappings (file_now s) (manager s))\<rparr>
      | WatchError \<Rightarrow> s
      | ChannelClosed \<Rightarrow> s\<lparr>running := False\<rparr>)"

text \<open>
  \<open>watchFile\<close> only loops when the watcher could be created and the directory added; otherwise
  the goroutine ends at once and the mapping is never reloaded.
\<close>

definition watchFile_start :: "bool \<Rightarrow> bool \<Rightarrow> file_read \<Rightarrow> mapping_manager \<Rightarrow> watch_state" where
  "watchFile_start watcher_created dir_added f m =
     \<lparr>file_now = f, manager = m, running = (watcher_created \<and> dir_added)\<rparr>"

datatype watch_label = FileChanges file_read | Received watch_item

inductive watch_step :: "string \<Rightarrow> watch_state \<Rightarrow> watch_label \<Rightarrow> watch_state \<Rightarrow> bool"
  for filePath :: string where
  file_changes: "watch_step filePath s (FileChanges f) (s\<lparr>file_now := f\<rparr>)"
| received: "running s \<Longrightarrow> watch_step filePath s (Received i) (watch_handle filePath i s)"

inductive_cases watch_stepE: "watch_step filePath s l t"
inductive_simps watch_step_received: "watch_step filePath s (Received i) t"
inductive_simps watch_step_file: "watch_step filePath s (FileChanges f) t"

text \<open>Runs from a successful \<open>NewMappingManager\<close>, with the contents the file has had.\<close>

inductive watch_run :: "string \<Rightarrow> string list \<Rightarrow> watch_state \<Rightarrow> bool"
  for filePath :: string where
  started: "NewMappingManager (Inr data) = Ok m \<Longrightarrow>
     watch_run filePath [data] (watchFile_start c d (Inr data) m)"
| moved: "watch_run filePath ds s \<Longrightarrow> watch_step filePath s (FileChanges (Inr data)) t \<Longrightarrow>
     watch_run filePath (data # ds) t"
| broke: "watch_run filePath ds s \<Longrightarrow> watch_step filePath s (FileChanges (Inl e)) t \<Longrightarrow>
     watch_run filePath ds t"
| handled: "watch_run filePath ds s \<Longrightarrow> watch_step filePath s (Received i) t \<Longrightarrow>
     watch_run filePath ds t"

definition known_mapping :: "string list \<Rightarrow> watch_state \<Rightarrow> bool" where
  "known_mapping ds s \<longleftrightarrow>
     (\<exists>data \<in> set ds. Unmarshal data = Inr (mappings (manager s))) \<and>
     (\<forall>data. file_now s = Inr data \<longrightarrow> data \<in> set ds)"

lemma known_mapping_handle:
  "known_mapping ds s \<Longrightarrow> known_mapping ds (watch_handle filePath i s)"
  by (cases s) (auto simp: known_mapping_def watch_handle_def loadMappings_def
      split: watch_item.splits sum.splits)

lemma watch_run_known_mapping: "watch_run filePath ds s \<Longrightarrow> known_mapping ds s"
proof (induction rule: watch_run.induct)
  case (started data m c d)
  then show ?case
    by (auto simp: known_mapping_def watchFile_start_def NewMappingManager_def loadMappings_def
        split: sum.splits)
next
  case (handled ds s i t)
  then show ?case by (auto simp: watch_step_received known_mapping_handle)
qed (auto simp: watch_step_file known_mapping_def)

section \<open>Properties\<close>

text \<open>C26: the proxy never uses a torn or invalid mapping. In every run, however the file changes
  and whatever events and errors the watcher delivers, the mapping in use is the decoding of one
  of the contents the file has really had.\<close>

theorem mapping_always_some_version:
  assumes "watch_run filePath ds s"
  shows "\<exists>data \<in> set ds. Unmarshal data = Inr (mappings (manager s))"
  using watch_run_known_mapping [OF assms] by (simp add: known_mapping_def)

definition ns_file :: "string \<Rightarrow> string" where
  "ns_file ns = encode (JObj [(''tenant1'', JStr ns)])"

lemma ns_file_simps [simp]:
  "Unmarshal (ns_file ''ns-one'') = Inr [''tenant1'' \<mapsto> ''ns-one'']"
  "Unmarshal (ns_file ''ns-two'') = Inr [''tenant1'' \<mapsto> ''ns-two'']"
proof -
  have "parse_document (ns_file ''ns-one'') = Some (JObj [(''tenant1'', JStr ''ns-one'')])"
    "parse_document (ns_file ''ns-two'') = Some (JObj [(''tenant1'', JStr ''ns-two'')])" by code_simp+
  then show "Unmarshal (ns_file ''ns-one'') = Inr [''tenant1'' \<mapsto> ''ns-one'']"
    "Unmarshal (ns_file ''ns-two'') = Inr [''tenant1'' \<mapsto> ''ns-two'']"
    by (simp_all add: Unmarshal_def)
qed

text \<open>The kubelet's swap: the file moves to a new content, then the event for \<open>..data\<close> arrives.\<close>

definition swap_before :: watch_state where
  "swap_before = \<lparr>file_now = Inr (ns_file ''ns-two''), manager = \<lparr>mappings = [''tenant1'' \<mapsto> ''ns-one'']\<rparr>, running = True\<rparr>"

lemma swap_run: "watch_run ''/etc/map/ns.json'' [ns_file ''ns-two'', ns_file ''ns-one''] swap_before"
proof -
  have "watch_run ''/etc/map/ns.json'' [ns_file ''ns-one'']
      (watchFile_start True True (Inr (ns_file ''ns-one'')) \<lparr>mappings = [''tenant1'' \<mapsto> ''ns-one'']\<rparr>)"
    by (rule watch_run.started) (simp add: NewMappingManager_def loadMappings_def)
  then show ?thesis
    by (rule watch_run.moved)
       (simp add: watch_step_file watchFile_start_def swap_before_def)
qed

theorem mapping_always_some_version_witness:
  "\<exists>data \<in> set [ns_file ''ns-two'', ns_file ''ns-one'']. Unmarshal data = Inr (mappings (manager swap_before))"
  by (rule mapping_always_some_version [OF swap_run])

text \<open>a reload takes effect. When a running watcher receives an event for the data symlink or
  for the mapping file itself and the file decodes, the lookups that follow answer from the new
  content; if reading or decoding fails, they answer as before.\<close>

lemma reload_takes_effect:
  assumes "watch_step filePath s (Received (FsEvent name)) t"
    and "relevant_event filePath name"
  shows "(\<forall>data new. file_now s = Inr data \<longrightarrow> Unmarshal data = Inr new \<longrightarrow>
            (\<forall>k. GetNamespace (manager t) k =
               (case new k of None \<Rightarrow> ([], False) | Some ns \<Rightarrow> (ns, True)))) \<and>
         (fst (loadMappings (file_now s) (manager s)) \<noteq> None \<longrightarrow> manager t = manager s)"
  using assms
  by (auto simp: watch_step_received watch_handle_def loadMappings_def GetNamespace_def
      split: sum.splits)

text \<open>Events for other files of the directory, watcher errors and the end of a channel never
  change the mapping.\<close>

lemma other_events_keep_mapping:
  assumes "watch_step filePath s (Received i) t"
    and "\<And>name. i = FsEvent name \<Longrightarrow> \<not> relevant_event filePath name"
  shows "manager t = manager s"
  using assms by (auto simp: watch_step_received watch_handle_def split: watch_item.splits)

end
