(* ===== verification/Namespace_Round_Tripper.thy ===== *)
theory Namespace_Round_Tripper
  imports Mapping_Manager Url_Query Proxy_Types
begin

text \<open>
  The second half of \<open>pkg/proxy/namespace_round_tripper.go\<close>: the round tripper that takes the
  tenant out of the path, replaces the namespace by the tenant's own, takes the region out of the
  path and adds it as a label selector.  The loops over the path parts are recursions over the
  rest of the slice, which return the slice as the loop leaves it; an index past the end of the
  slice is a panic.  The locale \<open>namespace_provider\<close> is the interface to the mapping manager.
\<close>

section \<open>Rewriting the path\<close>

definition joinPath :: "string list \<Rightarrow> string" where
  "joinPath parts =
     (let fullPath = join ''/'' (filter (\<lambda>p. p \<noteq> []) parts) in
      if prefix ''/'' fullPath then fullPath else ''/'' @ fullPath)"

text \<open>
  The loop of \<open>modifyNamespaceInPath\<close>: \<open>get\<close> is the manager's lookup, \<open>suff\<close> and
  \<open>apiTokHit\<close> the loop's variables, the list the parts from the current index on.
\<close>

fun modify_parts :: "(string \<Rightarrow> string \<times> bool) \<Rightarrow> string \<Rightarrow> bool \<Rightarrow> string list \<Rightarrow> string list" where
  "modify_parts get suff apiTokHit [] = []"
| "modify_parts get suff apiTokHit (part # rest) =
     (let apiTokHit' = (apiTokHit \<or> part = ''api'');
          take_it = (suff = [] \<and> \<not> apiTokHit');
          suff' = (if take_it then part else suff);
          part' = (if take_it then [] else part)
      in if part = ''namespaces'' \<and> rest \<noteq> []
         then part' # (case get suff' of
                         (namespace, True) \<Rightarrow> namespace # tl rest
                       | (_, False) \<Rightarrow> rest)
         else part' # modify_parts get suff' apiTokHit' rest)"

definition modifyNamespaceInPath :: "(string \<Rightarrow> string \<times> bool) \<Rightarrow> string \<Rightarrow> string" where
  "modifyNamespaceInPath get path = joinPath (modify_parts get [] False (split_on (CHR ''/'') path))"

section \<open>The region selector\<close>

definition labelSelectorPrefix :: string where
  "labelSelectorPrefix = ''pcd-kaapi.pf9.io/region=''"

definition labelSelectorToBeAdded :: "string list" where
  "labelSelectorToBeAdded =
     [''byomachines'', ''byohosts'', ''hostedcontrolplanes'', ''openstackclusters'', ''machines'',
      ''machinedeployments'', ''clusters'']"

definition allClusters :: string where
  "allClusters = ''all-clusters-in-pf9-tenant-namespace''"

definition add_selector :: "string \<Rightarrow> string \<Rightarrow> string" where
  "add_selector regionName rawQuery =
     Encode (query_set ''labelSelector'' (labelSelectorPrefix @ regionName) (Query rawQuery))"

text \<open>The loop of \<open>addRegionLabelSelectorInPath\<close>: the parts from the current index on, and the
  raw query of the request.\<close>

fun region_parts :: "string \<Rightarrow> string list \<Rightarrow> string \<Rightarrow> (string list \<times> string) result" where
  "region_parts regionName [] rawQuery = Ok ([], rawQuery)"
| "region_parts regionName (part # rest) rawQuery =
     (if part = ''namespaces'' then
        if length rest > 2 \<and> rest ! 2 \<noteq> [] then
          Ok (part # (if rest ! 1 = ''clusters'' \<and> rest ! 2 = allClusters then rest[2 := []] else rest),
              rawQuery)
        else if length rest < 2 then Panic
        else map_result (\<lambda>(ps, q). (part # ps, q))
          (region_parts regionName rest
            (if rest ! 1 \<in> set labelSelectorToBeAdded then add_selector regionName rawQuery
             else rawQuery))
      else map_result (\<lambda>(ps, q). (part # ps, q)) (region_parts regionName rest rawQuery))"

definition addRegionLabelSelectorInPath :: "request \<Rightarrow> request result" where
  "addRegionLabelSelectorInPath req =
     (let partsOfPath = split_on (CHR ''/'') (Path (URL req)) in
      if length partsOfPath < 2 then Panic
      else (let regionName = partsOfPath ! 1 in
        map_result (\<lambda>(ps, q). req\<lparr>URL := (URL req)\<lparr>Path := joinPath ps, RawQuery := q\<rparr>\<rparr>)
          (region_parts regionName (partsOfPath[1 := []]) (RawQuery (URL req)))))"

section \<open>The round tripper\<close>

record namespace_rt =
  Transport :: transport
  SuffixNSMappingFile :: string
  MappingManager :: mapping_manager
  DefaultNamespace :: string

definition NewCustomNamespaceRoundTripper ::
    "(string \<Rightarrow> file_read) \<Rightarrow> string \<Rightarrow> namespace_rt result" where
  "NewCustomNamespaceRoundTripper read_file suffixNSMappingFile =
     (case NewMappingManager (read_file suffixNSMappingFile) of
        Ok m \<Rightarrow> Ok \<lparr>Transport = DefaultTransport, SuffixNSMappingFile = suffixNSMappingFile,
                    MappingManager = m, DefaultNamespace = ''default''\<rparr>
      | Err e \<Rightarrow> Err (ErrMsg (''error initializing mapping manager: '' @ Error e))
      | Panic \<Rightarrow> Panic)"

text \<open>What is done to the request before it is forwarded.\<close>

definition rewrite_request :: "namespace_rt \<Rightarrow> request \<Rightarrow> request result" where
  "rewrite_request c req =
     addRegionLabelSelectorInPath
       (req\<lparr>URL := (URL req)\<lparr>Path :=
          modifyNamespaceInPath (GetNamespace (MappingManager c)) (Path (URL req))\<rparr>\<rparr>)"

definition send_via :: "env \<Rightarrow> transport \<Rightarrow> request \<Rightarrow> trace \<Rightarrow> response result \<times> trace" where
  "send_via E tr req t =
     (case send E tr t req of Inl e \<Rightarrow> Err e | Inr resp \<Rightarrow> Ok resp, t @ [Sent tr req])"

definition NamespaceRoundTrip :: "env \<Rightarrow> namespace_rt \<Rightarrow> request \<Rightarrow> trace \<Rightarrow> response result \<times> trace" where
  "NamespaceRoundTrip E c req t =
     (case rewrite_request c req of
        Ok req' \<Rightarrow> send_via E (Transport c) req' t
      | Err e \<Rightarrow> (Err e, t)
      | Panic \<Rightarrow> (Panic, t))"

section \<open>Paths made of clean segments\<close>

text \<open>A segment is a nonempty string without a slash; a clean path is a slash before each segment.\<close>

definition clean :: "string list \<Rightarrow> bool" where
  "clean segs \<longleftrightarrow> (\<forall>s \<in> set segs. s \<noteq> [] \<and> CHR ''/'' \<notin> set s)"

definition path_of :: "string list \<Rightarrow> string" where
  "path_of segs = ''/'' @ join ''/'' segs"

definition segments :: "string \<Rightarrow> string list" where
  "segments path = filter (\<lambda>p. p \<noteq> []) (split_on (CHR ''/'') path)"

lemma clean_simps [simp]:
  "clean []" "clean (s # segs) \<longleftrightarrow> s \<noteq> [] \<and> CHR ''/'' \<notin> set s \<and> clean segs"
  "clean (xs @ ys) \<longleftrightarrow> clean xs \<and> clean ys"
  by (auto simp: clean_def)

lemma clean_filter: "clean segs \<Longrightarrow> filter (\<lambda>p. p \<noteq> []) segs = segs"
  by (simp add: clean_def filter_id_conv)

lemma split_path_of: "clean segs \<Longrightarrow> segs \<noteq> [] \<Longrightarrow> split_on (CHR ''/'') (path_of segs) = [] # segs"
  by (simp add: path_of_def split_on_join clean_def)

lemma prefix_slash_join: "clean segs \<Longrightarrow> \<not> prefix ''/'' (join ''/'' segs)"
  by (cases segs; cases "hd segs") (auto simp: join_Cons_char)

lemma joinPath_clean:
  assumes "clean (filter (\<lambda>p. p \<noteq> []) parts)"
  shows "joinPath parts = path_of (filter (\<lambda>p. p \<noteq> []) parts)"
  using prefix_slash_join [OF assms] by (simp add: joinPath_def path_of_def Let_def)

lemma segments_path_of: "clean segs \<Longrightarrow> segments (path_of segs) = segs"
  by (cases "segs = []") (simp_all add: segments_def split_path_of clean_filter, simp add: path_of_def)

lemma modify_parts_suffix_set:
  assumes "suff \<noteq> []" and "''namespaces'' \<notin> set pre"
  shows "modify_parts get suff hit (pre @ rest) = pre @ modify_parts get suff (hit \<or> ''api'' \<in> set pre) rest"
  using assms(2) by (induction pre arbitrary: hit) (auto simp: assms(1) Let_def eq_commute [of "''api''"])

section \<open>The interface to the mapping manager\<close>

locale namespace_provider =
  fixes get :: "string \<Rightarrow> string \<times> bool"
    and mapped :: "string \<rightharpoonup> string"
  assumes get_mapped: "get k = (case mapped k of None \<Rightarrow> ([], False) | Some ns \<Rightarrow> (ns, True))"
begin

text \<open>On a path that starts with a tenant, the first namespace of the path becomes the tenant's.\<close>

lemma modify_namespaced:
  assumes "clean (tenant # pre @ ''namespaces'' # ns # post)"
    and "tenant \<noteq> ''api''" and "tenant \<noteq> ''namespaces''" and "''namespaces'' \<notin> set pre"
    and "\<And>n. mapped tenant = Some n \<Longrightarrow> clean [n]"
  shows "modifyNamespaceInPath get (path_of (tenant # pre @ ''namespaces'' # ns # post)) =
    path_of (pre @ ''namespaces'' # (case mapped tenant of None \<Rightarrow> ns | Some n \<Rightarrow> n) # post)"
proof -
  let ?parts = "modify_parts get [] False ([] # tenant # pre @ ''namespaces'' # ns # post)"
  have "?parts = [] # [] # pre @ ''namespaces'' # (case mapped tenant of None \<Rightarrow> ns | Some n \<Rightarrow> n) # post"
    using assms modify_parts_suffix_set [of tenant pre]
    by (simp add: Let_def get_mapped split: option.splits)
  moreover have "clean (pre @ ''namespaces'' # (case mapped tenant of None \<Rightarrow> ns | Some n \<Rightarrow> n) # post)"
    using assms by (auto split: option.splits)
  ultimately show ?thesis
    using assms(1) by (simp add: modifyNamespaceInPath_def split_path_of joinPath_clean clean_filter)
qed

text \<open>A path of a tenant without a namespace only loses the tenant.\<close>

lemma modify_cluster_scoped:
  assumes "clean (tenant # rest)" and "tenant \<noteq> ''api''" and "tenant \<noteq> ''namespaces''"
    and "''namespaces'' \<notin> set (butlast rest)"
  shows "modifyNamespaceInPath get (path_of (tenant # rest)) = path_of rest"
proof -
  have all: "modify_parts get tenant False rest = rest"
  proof (cases "rest = []")
    case False
    then have "rest = butlast rest @ [last rest]" by simp
    moreover have "modify_parts get tenant False (butlast rest @ [last rest]) = butlast rest @ [last rest]"
      using assms modify_parts_suffix_set [of tenant "butlast rest" get False "[last rest]"]
      by (simp add: Let_def)
    ultimately show ?thesis by simp
  qed simp
  have "modify_parts get [] False ([] # tenant # rest) = [] # [] # rest"
    using assms all by (simp add: Let_def)
  with assms(1) show ?thesis
    by (simp add: modifyNamespaceInPath_def split_path_of joinPath_clean clean_filter)
qed

end

interpretation manager: namespace_provider "GetNamespace m" "mappings m" for m
  by unfold_locales (simp add: GetNamespace_def)

section \<open>The region loop\<close>

lemma region_parts_skip:
  "''namespaces'' \<notin> set pre \<Longrightarrow>
   region_parts r (pre @ rest) q = map_result (\<lambda>(ps, q). (pre @ ps, q)) (region_parts r rest q)"
proof (induction pre)
  case Nil
  show ?case by (cases "region_parts r rest q") auto
next
  case (Cons p pre)
  then have "p \<noteq> ''namespaces''" and "''namespaces'' \<notin> set pre" by auto
  with Cons.IH show ?case by (cases "region_parts r rest q") auto
qed

lemma region_parts_none: "''namespaces'' \<notin> set pre \<Longrightarrow> region_parts r pre q = Ok (pre, q)"
  using region_parts_skip [of pre r "[]" q] by simp

lemma addRegion_clean:
  assumes "clean (region # segs)" and "Path (URL req) = path_of (region # segs)"
  shows "addRegionLabelSelectorInPath req =
    map_result (\<lambda>(ps, q). req\<lparr>URL := (URL req)\<lparr>Path := joinPath ps, RawQuery := q\<rparr>\<rparr>)
      (region_parts region segs (RawQuery (URL req)))"
proof -
  have "split_on (CHR ''/'') (Path (URL req)) = [] # region # segs"
    using assms by (simp add: split_path_of)
  then show ?thesis
    by (cases "region_parts region segs (RawQuery (URL req))")
       (auto simp: addRegionLabelSelectorInPath_def Let_def joinPath_def)
qed

lemma rewrite_namespaced:
  assumes "clean (tenant # region # pre @ ''namespaces'' # ns # post)"
    and "tenant \<noteq> ''api''" and "tenant \<noteq> ''namespaces''" and "region \<noteq> ''namespaces''"
    and "''namespaces'' \<notin> set pre"
    and "\<And>n. mappings (MappingManager c) tenant = Some n \<Longrightarrow> clean [n]"
    and "Path (URL req) = path_of (tenant # region # pre @ ''namespaces'' # ns # post)"
    and "n = (case mappings (MappingManager c) tenant of None \<Rightarrow> ns | Some n \<Rightarrow> n)"
  shows "rewrite_request c req =
    map_result (\<lambda>(ps, q). req\<lparr>URL := (URL req)\<lparr>Path := joinPath (pre @ ps), RawQuery := q\<rparr>\<rparr>)
      (region_parts region (''namespaces'' # n # post) (RawQuery (URL req)))"
proof -
  have "modifyNamespaceInPath (GetNamespace (MappingManager c)) (Path (URL req)) =
      path_of (region # pre @ ''namespaces'' # n # post)"
    using manager.modify_namespaced [of tenant "region # pre" ns post "MappingManager c"] assms by simp
  moreover have "clean (region # pre @ ''namespaces'' # n # post)"
    using assms by (auto split: option.splits)
  ultimately show ?thesis
    using addRegion_clean [of region "pre @ ''namespaces'' # n # post"
        "req\<lparr>URL := (URL req)\<lparr>Path := path_of (region # pre @ ''namespaces'' # n # post)\<rparr>\<rparr>"]
      region_parts_skip [OF assms(5)]
    by (cases "region_parts region (''namespaces'' # n # post) (RawQuery (URL req))")
       (auto simp: rewrite_request_def simp del: region_parts.simps)
qed

section \<open>The first namespace of a path\<close>

text \<open>\<open>isolated n segs\<close>: where the path names a namespace first, it names \<open>n\<close>.\<close>

fun isolated :: "string \<Rightarrow> string list \<Rightarrow> bool" where
  "isolated n [] = True"
| "isolated n (p # rest) =
     (if p = ''namespaces'' then (case rest of [] \<Rightarrow> True | x # _ \<Rightarrow> x = n) else isolated n rest)"

lemma isolated_iff: "isolated n segs \<longleftrightarrow>
    (\<forall>pre x post. segs = pre @ ''namespaces'' # x # post \<longrightarrow> ''namespaces'' \<notin> set pre \<longrightarrow> x = n)"
proof (induction segs)
  case (Cons p rest)
  show ?case
  proof (cases "p = ''namespaces''")
    case True
    then show ?thesis by (auto simp: Cons_eq_append_conv split: list.splits)
  next
    case False
    have "(\<forall>pre x post. p # rest = pre @ ''namespaces'' # x # post \<longrightarrow> ''namespaces'' \<notin> set pre \<longrightarrow> x = n) \<longleftrightarrow>
        (\<forall>pre x post. rest = pre @ ''namespaces'' # x # post \<longrightarrow> ''namespaces'' \<notin> set pre \<longrightarrow> x = n)"
      (is "?long \<longleftrightarrow> ?short")
    proof
      assume long: ?long
      show ?short
      proof (intro allI impI)
        fix pre x post
        assume "rest = pre @ ''namespaces'' # x # post" "''namespaces'' \<notin> set pre"
        with long [rule_format, of "p # pre" x post] False show "x = n" by simp
      qed
    next
      assume short: ?short
      show ?long
      proof (intro allI impI)
        fix pre x post
        assume eq: "p # rest = pre @ ''namespaces'' # x # post" and no: "''namespaces'' \<notin> set pre"
        with False obtain pre' where "pre = p # pre'" by (cases pre) auto
        with eq no short [rule_format, of pre' x post] show "x = n" by simp
      qed
    qed
    with False Cons show ?thesis by simp
  qed
qed simp

lemma isolated_modify:
  assumes "get tenant = (n, True)" and "tenant \<noteq> []" and "n \<noteq> []"
  shows "isolated n (filter (\<lambda>p. p \<noteq> []) (modify_parts get tenant hit parts))"
  by (induction parts arbitrary: hit) (auto simp: Let_def assms)

lemma modify_parts_leading:
  assumes "filter (\<lambda>p. p \<noteq> []) parts = tenant # rest" and "tenant \<noteq> ''api''" and "tenant \<noteq> ''namespaces''"
  shows "\<exists>es hit parts'. filter (\<lambda>p. p \<noteq> []) parts' = rest \<and> filter (\<lambda>p. p \<noteq> []) es = [] \<and>
    modify_parts get [] False parts = es @ modify_parts get tenant hit parts'"
  using assms
proof (induction parts)
  case (Cons p parts)
  show ?case
  proof (cases "p = []")
    case True
    with Cons obtain es hit parts' where "filter (\<lambda>p. p \<noteq> []) parts' = rest"
      "filter (\<lambda>p. p \<noteq> []) es = []" "modify_parts get [] False parts = es @ modify_parts get tenant hit parts'"
      by auto
    with True show ?thesis
      by (intro exI [of _ "[] # es"] exI [of _ hit] exI [of _ parts']) (simp add: Let_def)
  next
    case False
    with Cons.prems show ?thesis
      by (intro exI [of _ "[[]]"] exI [of _ False] exI [of _ parts]) (simp add: Let_def)
  qed
qed simp

lemma modify_parts_mem:
  "p \<in> set (modify_parts get suff hit parts) \<Longrightarrow> p = [] \<or> p \<in> set parts \<or> p \<in> range (\<lambda>k. fst (get k))"
proof (induction parts arbitrary: suff hit)
  case (Cons x parts)
  have looked: "(case get s of (n, True) \<Rightarrow> n # tl parts | (_, False) \<Rightarrow> parts)
      = (if snd (get s) then fst (get s) # tl parts else parts)" for s
    by (auto split: prod.split bool.split)
  have "q \<in> set parts" if "q \<in> set (tl parts)" for q using that by (cases parts) auto
  with Cons show ?case by (auto simp: looked Let_def split: if_splits)
qed simp

lemma region_parts_head: "region_parts r (x # xs) q = Ok (ps, q') \<Longrightarrow> \<exists>ps'. ps = x # ps'"
  by (auto split: if_splits)

lemma isolated_region:
  "region_parts r segs q = Ok (ps, q') \<Longrightarrow> isolated n segs \<Longrightarrow> n \<noteq> [] \<Longrightarrow>
   isolated n (filter (\<lambda>p. p \<noteq> []) ps)"
proof (induction segs arbitrary: q ps q')
  case (Cons p segs)
  show ?case
  proof (cases "p = ''namespaces''")
    case False
    with Cons show ?thesis by auto
  next
    case True
    show ?thesis
    proof (cases segs)
      case Nil
      with True Cons.prems show ?thesis by simp
    next
      case (Cons x xs)
      have "\<exists>ps'. ps = p # x # ps'"
        using \<open>region_parts r (p # segs) q = Ok (ps, q')\<close> True Cons
        by (auto dest: region_parts_head split: if_splits simp del: region_parts.simps(2) simp: region_parts.simps(2) [of r "''namespaces''"] list_update_code)
      with True Cons \<open>isolated n (p # segs)\<close> \<open>n \<noteq> []\<close> show ?thesis by auto
    qed
  qed
qed simp

lemma region_parts_set: "region_parts r segs q = Ok (ps, q') \<Longrightarrow> set ps \<subseteq> insert [] (set segs)"
proof (induction segs arbitrary: q ps)
  case (Cons x segs)
  have "set (segs[2 := []]) \<subseteq> insert [] (set segs)" by (rule set_update_subset_insert)
  with Cons show ?case by (auto split: if_splits dest!: Cons.IH)
qed simp

lemma modify_parts_head:
  assumes "tenant \<noteq> []" and "region \<noteq> ''namespaces''"
  shows "filter (\<lambda>p. p \<noteq> []) parts = region # rest \<Longrightarrow>
    \<exists>segs. filter (\<lambda>p. p \<noteq> []) (modify_parts get tenant hit parts) = region # segs"
  by (induction parts arbitrary: hit) (auto simp: Let_def assms split: if_splits)

lemma segments_joinPath:
  assumes "\<And>p. p \<in> set ps \<Longrightarrow> CHR ''/'' \<notin> set p"
  shows "segments (joinPath ps) = filter (\<lambda>p. p \<noteq> []) ps"
proof -
  have "clean (filter (\<lambda>p. p \<noteq> []) ps)" using assms by (auto simp: clean_def)
  then show ?thesis by (simp add: joinPath_clean segments_path_of)
qed

text \<open>What the tenant step leaves of an arbitrary path.\<close>

lemma modify_isolated:
  assumes "segments path = tenant # region # rest" and "tenant \<noteq> ''api''" and "tenant \<noteq> ''namespaces''"
    and "region \<noteq> ''namespaces''" and "get tenant = (n, True)" and "n \<noteq> []"
    and noslash: "\<And>k. CHR ''/'' \<notin> set (fst (get k))"
  shows "\<exists>segs. modifyNamespaceInPath get path = path_of (region # segs) \<and> clean (region # segs)
    \<and> isolated n segs"
proof -
  let ?f = "filter (\<lambda>p. p \<noteq> [])" and ?parts = "split_on (CHR ''/'') path"
  have "tenant \<noteq> []" using assms(1) by (auto simp: segments_def filter_eq_Cons_iff)
  obtain es hit parts' where left: "?f parts' = region # rest" "?f es = []"
      "modify_parts get [] False ?parts = es @ modify_parts get tenant hit parts'"
    using modify_parts_leading [of ?parts tenant "region # rest" get] assms by (auto simp: segments_def)
  obtain segs where segs: "?f (modify_parts get tenant hit parts') = region # segs"
    using modify_parts_head [OF \<open>tenant \<noteq> []\<close> assms(4) left(1)] by blast
  then have all: "?f (modify_parts get [] False ?parts) = region # segs" using left by simp
  have "isolated n (region # segs)"
    using isolated_modify [of get tenant n hit parts'] assms \<open>tenant \<noteq> []\<close> segs by simp
  with assms(4) have "isolated n segs" by simp
  moreover have "CHR ''/'' \<notin> set p" if "p \<in> set (modify_parts get [] False ?parts)" for p
    using modify_parts_mem [OF that] split_on_no_sep [of p "CHR ''/''" path] noslash by auto
  then have "clean (?f (modify_parts get [] False ?parts))" by (auto simp: clean_def)
  then have "clean (region # segs)" and "modifyNamespaceInPath get path = path_of (region # segs)"
    unfolding all using joinPath_clean [of "modify_parts get [] False ?parts"] all
    by (simp_all add: modifyNamespaceInPath_def)
  ultimately show ?thesis by blast
qed

section \<open>Properties\<close>

text \<open>The examples: one tenant with a namespace of its own, and requests for its machines.\<close>

definition acme_rt :: namespace_rt where
  "acme_rt = \<lparr>Transport = DefaultTransport, SuffixNSMappingFile = ''/etc/map/ns.json'',
     MappingManager = \<lparr>mappings = [''acme'' \<mapsto> ''ns-acme'']\<rparr>, DefaultNamespace = ''default''\<rparr>"

definition get_request :: "string \<Rightarrow> request" where
  "get_request path = \<lparr>Header = [], URL = \<lparr>Path = path, RawQuery = ''limit=5''\<rparr>,
     ReqRemoteAddr = ''10.0.0.9:4711'', RequestURI = path, Context = []\<rparr>"

lemma acme_mapped: "mappings (MappingManager acme_rt) k = Some v \<longleftrightarrow> k = ''acme'' \<and> v = ''ns-acme''"
  by (auto simp: acme_rt_def split: if_splits)

lemma get_request_simps [simp]:
  "URL (get_request p) = \<lparr>Path = p, RawQuery = ''limit=5''\<rparr>"
  by (simp add: get_request_def)

text \<open>C18: a list request of a tenant, \<open>/tenant/region/.../namespaces/ns/objects\<close>, goes upstream with
  the tenant and the region taken out of its path, the namespace replaced by the one the tenant is
  mapped to whatever namespace the client wrote, and the region selector in its query exactly
  when the objects are of a kind that is kept per region.\<close>

theorem ns_list_request:
  assumes "clean (tenant # region # pre @ [''namespaces'', ns, obj])"
    and "tenant \<noteq> ''api''" and "''namespaces'' \<notin> set (tenant # region # pre)"
    and "ns \<noteq> ''namespaces''" and "obj \<noteq> ''namespaces''"
    and "mappings (MappingManager c) tenant = Some n" and "clean [n]" and "n \<noteq> ''namespaces''"
    and "Path (URL req) = path_of (tenant # region # pre @ [''namespaces'', ns, obj])"
  shows "rewrite_request c req =
    Ok (req\<lparr>URL := (URL req)\<lparr>Path := path_of (pre @ [''namespaces'', n, obj]),
        RawQuery := (if obj \<in> set labelSelectorToBeAdded
                     then add_selector region (RawQuery (URL req)) else RawQuery (URL req))\<rparr>\<rparr>)"
proof -
  have "clean (pre @ [''namespaces'', n, obj])" using assms(1,7) by simp
  moreover have "rewrite_request c req =
    map_result (\<lambda>(ps, q). req\<lparr>URL := (URL req)\<lparr>Path := joinPath (pre @ ps), RawQuery := q\<rparr>\<rparr>)
      (region_parts region [''namespaces'', n, obj] (RawQuery (URL req)))"
    using assms by (intro rewrite_namespaced [where tenant = tenant and ns = ns]) auto
  ultimately show ?thesis
    using assms(5,8) by (auto simp: joinPath_clean clean_filter)
qed

theorem ns_list_request_witness:
  "rewrite_request acme_rt (get_request ''/acme/east/apis/cluster.x-k8s.io/v1/namespaces/kube-system/machines'') =
    Ok ((get_request ''/acme/east/apis/cluster.x-k8s.io/v1/namespaces/kube-system/machines'')\<lparr>URL :=
      \<lparr>Path = ''/apis/cluster.x-k8s.io/v1/namespaces/ns-acme/machines'',
       RawQuery = ''labelSelector=pcd-kaapi.pf9.io%2Fregion%3Deast&limit=5''\<rparr>\<rparr>)"
proof -
  have "add_selector ''east'' ''limit=5'' = ''labelSelector=pcd-kaapi.pf9.io%2Fregion%3Deast&limit=5''"
    by code_simp
  then show ?thesis
    using ns_list_request [of "''acme''" "''east''" "[''apis'', ''cluster.x-k8s.io'', ''v1'']" "''kube-system''" "''machines''"
      acme_rt "''ns-acme''" "get_request ''/acme/east/apis/cluster.x-k8s.io/v1/namespaces/kube-system/machines''"]
    by (simp add: acme_mapped path_of_def labelSelectorToBeAdded_def)
qed

text \<open>C19: a request for one object, \<open>.../namespaces/ns/objects/name\<close>, gets no selector: its query
  goes upstream as the client sent it, its path is rewritten in the same way, and the marker that
  asks for the clusters of all regions is cut from the path.\<close>

theorem ns_object_request:
  assumes "clean (tenant # region # pre @ ''namespaces'' # ns # obj # name # post)"
    and "tenant \<noteq> ''api''" and "''namespaces'' \<notin> set (tenant # region # pre)"
    and "mappings (MappingManager c) tenant = Some n" and "clean [n]"
    and "Path (URL req) = path_of (tenant # region # pre @ ''namespaces'' # ns # obj # name # post)"
  shows "rewrite_request c req =
    Ok (req\<lparr>URL := (URL req)\<lparr>Path := path_of (pre @ ''namespaces'' # n # obj #
        (if obj = ''clusters'' \<and> name = allClusters then post else name # post))\<rparr>\<rparr>)"
proof -
  have "clean (pre @ ''namespaces'' # n # obj # name # post)" using assms(1,5) by simp
  moreover have "rewrite_request c req =
    map_result (\<lambda>(ps, q). req\<lparr>URL := (URL req)\<lparr>Path := joinPath (pre @ ps), RawQuery := q\<rparr>\<rparr>)
      (region_parts region (''namespaces'' # n # obj # name # post) (RawQuery (URL req)))"
    using assms by (intro rewrite_namespaced [where tenant = tenant and ns = ns]) auto
  ultimately show ?thesis
    by (auto simp: joinPath_clean clean_filter)
qed

theorem ns_object_request_witness:
  "rewrite_request acme_rt (get_request ''/acme/east/apis/c/v1/namespaces/any/machines/m1'') =
    Ok ((get_request ''/acme/east/apis/c/v1/namespaces/any/machines/m1'')\<lparr>URL :=
      \<lparr>Path = ''/apis/c/v1/namespaces/ns-acme/machines/m1'', RawQuery = ''limit=5''\<rparr>\<rparr>) \<and>
   rewrite_request acme_rt (get_request ''/acme/east/apis/c/v1/namespaces/any/clusters/all-clusters-in-pf9-tenant-namespace'') =
    Ok ((get_request ''/acme/east/apis/c/v1/namespaces/any/clusters/all-clusters-in-pf9-tenant-namespace'')\<lparr>URL :=
      \<lparr>Path = ''/apis/c/v1/namespaces/ns-acme/clusters'', RawQuery = ''limit=5''\<rparr>\<rparr>)"
  using ns_object_request [of "''acme''" "''east''" "[''apis'', ''c'', ''v1'']" "''any''" "''machines''" "''m1''" "[]"
      acme_rt "''ns-acme''" "get_request ''/acme/east/apis/c/v1/namespaces/any/machines/m1''"]
    ns_object_request [of "''acme''" "''east''" "[''apis'', ''c'', ''v1'']" "''any''" "''clusters''" allClusters "[]"
      acme_rt "''ns-acme''" "get_request ''/acme/east/apis/c/v1/namespaces/any/clusters/all-clusters-in-pf9-tenant-namespace''"]
  by (simp add: acme_mapped path_of_def allClusters_def)

text \<open>the upstream query with the selector has exactly one \<open>labelSelector\<close>, the region's, and
  keeps the values of every other parameter that the client's query has.\<close>

lemma ns_selector:
  "mm_vals (Query (add_selector region raw)) k =
    (if k = ''labelSelector'' then [labelSelectorPrefix @ region] else mm_vals (Query raw) k)"
  by (simp add: add_selector_def mm_vals_Query_Encode query_set_def wf_map_Query)

lemma rewrite_isolated:
  assumes "segments (Path (URL req)) = tenant # region # rest"
    and "tenant \<noteq> ''api''" and "tenant \<noteq> ''namespaces''" and "region \<noteq> ''namespaces''"
    and "mappings (MappingManager c) tenant = Some n"
    and "\<And>k v. mappings (MappingManager c) k = Some v \<Longrightarrow> clean [v]"
    and "rewrite_request c req = Ok req'"
    and "segments (Path (URL req')) = pre @ ''namespaces'' # x # post" and "''namespaces'' \<notin> set pre"
  shows "x = n"
proof -
  let ?get = "GetNamespace (MappingManager c)"
  have "?get tenant = (n, True)" and "n \<noteq> []" and "CHR ''/'' \<notin> set (fst (?get k))" for k
    using assms(5) assms(6) by (auto simp: GetNamespace_def split: option.splits)
  then obtain segs where "modifyNamespaceInPath ?get (Path (URL req)) = path_of (region # segs)"
      and cl: "clean (region # segs)" and iso: "isolated n segs"
    using modify_isolated [OF assms(1-4)] by blast
  with assms(7) addRegion_clean [OF cl, of "req\<lparr>URL := (URL req)\<lparr>Path := path_of (region # segs)\<rparr>\<rparr>"]
  obtain ps q where ps: "region_parts region segs (RawQuery (URL req)) = Ok (ps, q)"
      and "Path (URL req') = joinPath ps"
    by (auto simp: rewrite_request_def)
  moreover have "CHR ''/'' \<notin> set p" if "p \<in> set ps" for p
    using region_parts_set [OF ps] that cl by (auto simp: clean_def)
  ultimately have "segments (Path (URL req')) = filter (\<lambda>p. p \<noteq> []) ps"
    by (simp add: segments_joinPath)
  with isolated_region [OF ps iso \<open>n \<noteq> []\<close>] have "isolated n (segments (Path (URL req')))" by simp
  with assms(8,9) show ?thesis unfolding isolated_iff by blast
qed



text \<open>C29: for a tenant's requests that end at \<open>namespaces\<close> or at the name of a namespace the round
  tripper reads past the end of the path's parts and panics, so nothing is sent.\<close>

theorem ns_namespace_panics:
  assumes "clean (tenant # region # pre @ ''namespaces'' # post)" and "length post \<le> 1"
    and "tenant \<noteq> ''api''" and "''namespaces'' \<notin> set (tenant # region # pre)"
    and "Path (URL req) = path_of (tenant # region # pre @ ''namespaces'' # post)"
    and "\<And>n. mappings (MappingManager c) tenant = Some n \<Longrightarrow> clean [n]"
  shows "NamespaceRoundTrip E c req t = (Panic, t)"
proof (cases post)
  case Nil
  have "modifyNamespaceInPath (GetNamespace (MappingManager c)) (Path (URL req)) =
      path_of (region # pre @ [''namespaces''])"
    using manager.modify_cluster_scoped [of tenant "region # pre @ [''namespaces'']"] assms Nil by (auto simp: butlast_append)
  then show ?thesis
    using addRegion_clean [of region "pre @ [''namespaces'']"] region_parts_skip [of pre] assms Nil
    by (simp add: NamespaceRoundTrip_def rewrite_request_def)
next
  case (Cons ns ps)
  with assms have "post = [ns]" by (cases ps) auto
  with assms rewrite_namespaced [of tenant region pre ns "[]" c req] show ?thesis
    by (auto simp: NamespaceRoundTrip_def)
qed

theorem ns_namespace_panics_witness:
  "NamespaceRoundTrip base_env acme_rt (get_request ''/acme/east/api/v1/namespaces/default'') [] = (Panic, []) \<and>
   NamespaceRoundTrip base_env acme_rt (get_request ''/acme/east/api/v1/namespaces'') [] = (Panic, [])"
  using ns_namespace_panics [of "''acme''" "''east''" "[''api'', ''v1'']" "[''default'']"
      "get_request ''/acme/east/api/v1/namespaces/default''" acme_rt base_env "[]"]
    ns_namespace_panics [of "''acme''" "''east''" "[''api'', ''v1'']" "[]"
      "get_request ''/acme/east/api/v1/namespaces''" acme_rt base_env "[]"]
  by (simp add: acme_mapped path_of_def)

text \<open>C30: a request without tenant and region, such as \<open>/api/v1/pods\<close>, keeps its path through the
  tenant step, but the region step takes the first part of the path for the region and removes it.\<close>

theorem ns_core_path_cut:
  assumes "clean rest" and "''namespaces'' \<notin> set rest"
    and "Path (URL req) = path_of (''api'' # rest)"
  shows "rewrite_request c req = Ok (req\<lparr>URL := (URL req)\<lparr>Path := path_of rest\<rparr>\<rparr>)"
proof -
  have hit: "modify_parts get [] True ps = ps" if "''namespaces'' \<notin> set ps" for get ps
    using that by (induction ps) (auto simp: Let_def)
  have "modifyNamespaceInPath (GetNamespace (MappingManager c)) (Path (URL req)) = path_of (''api'' # rest)"
    using assms hit [of rest] by (simp add: modifyNamespaceInPath_def split_path_of joinPath_clean clean_filter Let_def)
  then show ?thesis
    using assms addRegion_clean [of "''api''" rest "req\<lparr>URL := (URL req)\<lparr>Path := path_of (''api'' # rest)\<rparr>\<rparr>"]
    by (simp add: rewrite_request_def region_parts_none joinPath_clean clean_filter)
qed

theorem ns_core_path_cut_witness:
  "rewrite_request acme_rt (get_request ''/api/v1/pods'') =
    Ok ((get_request ''/api/v1/pods'')\<lparr>URL := \<lparr>Path = ''/v1/pods'', RawQuery = ''limit=5''\<rparr>\<rparr>)"
  using ns_core_path_cut [of "[''v1'', ''pods'']" "get_request ''/api/v1/pods''" acme_rt]
  by (simp add: path_of_def)

end
