(* ===== verification/Proxy_State.thy ===== *)
theory Proxy_State
  imports Audit_Chain Access_Log Token_Review Namespace_Round_Tripper
begin

text \<open>
  The records \<open>Config\<close> and \<open>Proxy\<close> of \<open>pkg/proxy/proxy.go\<close>, and what handlers reply with.
  The authenticator and the serving configuration belong to the API server library and are type
  variables.  The review client needs no state of its own and has no field.
\<close>

record config =
  DisableImpersonation :: bool
  ConfigNSMappingFile :: string
  TokenReviewEnabled :: bool
  FlushInterval :: int
  ExternalAddress :: string
  ExtraUserHeaders :: smap
  ExtraUserHeadersClientIPEnabled :: bool

record ('ss, 'ta) proxy =
  oidcRequestAuther :: 'ta
  tokenAuther :: 'ta
  tokenReviewer :: "token_reviewer option"
  secureServingInfo :: 'ss
  proxyAuditor :: "'ss auditor"
  restConfig :: rest_config
  clientTransport :: "transport option"
  noAuthClientTransport :: "transport option"
  namespaceTransport :: "namespace_rt option"
  proxyConfig :: config
  proxyHooks :: hooks

type_synonym error_handler = "request \<Rightarrow> go_error option \<Rightarrow> trace \<Rightarrow> reply \<times> trace"

definition UserHeaderClientIPKey :: string where
  "UserHeaderClientIPKey = ''Remote-Client-IP''"

definition AllAuthenticated :: string where
  "AllAuthenticated = ''system:authenticated''"

text \<open>\<open>strings.Contains\<close>\<close>

fun Contains :: "string \<Rightarrow> string \<Rightarrow> bool" where
  "Contains [] w = (w = [])"
| "Contains (c # s) w = (prefix w (c # s) \<or> Contains s w)"

lemma Contains_iff: "Contains s w \<longleftrightarrow> (\<exists>a b. s = a @ w @ b)"
proof (induction s)
  case (Cons c s)
  note IH = Cons
  show ?case
  proof
    assume "Contains (c # s) w"
    then consider b where "c # s = w @ b" | a b where "s = a @ w @ b"
      using Cons by (auto simp: prefix_def)
    then show "\<exists>a b. c # s = a @ w @ b"
      by cases (metis append_Nil, metis append_Cons)
  next
    assume "\<exists>a b. c # s = a @ w @ b"
    then obtain a b where eq: "c # s = a @ w @ b" by blast
    show "Contains (c # s) w"
    proof (cases a)
      case Nil
      with eq have "prefix w (c # s)" by (auto simp: prefix_def)
      then show ?thesis by simp
    next
      case (Cons x a')
      with eq have "\<exists>a b. s = a @ w @ b" by auto
      with IH show ?thesis by simp
    qed
  qed
qed simp

end
