(* ===== verification/Subject_Access_Review.thy ===== *)
theory Subject_Access_Review
  imports Proxy_Types
begin

text \<open>
  \<open>pkg/proxy/subjectaccessreview/subjectaccessreview.go\<close>: deciding whether the authenticated
  user may impersonate what the \<open>Impersonate-*\<close> headers of the request ask for.  The model
  walks the header in one order of Go's map iteration, asks the API server one review per value
  and builds the target user.  The locale \<open>authorizer\<close> is the interface between the walk and
  the single review; inside it the walk is shown to perform exactly the reviews that the header
  asks for, in order, and to build exactly the user that the header names.
\<close>

section \<open>The reviewer\<close>

text \<open>The client of the API server is all the structure holds; its calls are \<open>sar_create\<close>.\<close>

record 'r subject_access_review =
  subjectAccessReviewer :: 'r

definition NewSubjectAccessReview :: "'r \<Rightarrow> 'r subject_access_review result" where
  "NewSubjectAccessReview r = Ok \<lparr>subjectAccessReviewer = r\<rparr>"

section \<open>One review\<close>

definition extra_of :: "user_info \<Rightarrow> smap" where
  "extra_of u = (case Extra u of None \<Rightarrow> [] | Some m \<Rightarrow> m)"

definition copy_extras :: "smap \<Rightarrow> smap" where
  "copy_extras m = foldl (\<lambda>acc (k, v). AList.update k v acc) [] m"

definition rbac_spec :: "string \<Rightarrow> string \<Rightarrow> user_info \<Rightarrow> sar_spec" where
  "rbac_spec resource name requester =
     (let (res, sub, grp) =
        (if index_char (CHR ''/'') resource > 0
         then (split_on (CHR ''/'') resource ! 0, split_on (CHR ''/'') resource ! 1,
               ''authentication.k8s.io'')
         else (resource, [], []))
      in \<lparr>SarUser = Name requester, SarGroups = Groups requester,
          SarExtra = copy_extras (extra_of requester),
          Verb = ''impersonate'', Group = grp, Resource = res, Subresource = sub,
          ResourceName = name\<rparr>)"

definition checkRbacImpersonationAuthorization ::
    "env \<Rightarrow> user_info \<Rightarrow> string \<Rightarrow> string \<Rightarrow> trace \<Rightarrow> bool result \<times> trace" where
  "checkRbacImpersonationAuthorization E requester resource name t =
     (let spec = rbac_spec resource name requester; r = sar_create E t spec
      in (case r of Inl e \<Rightarrow> Err e | Inr allowed \<Rightarrow> Ok allowed, t @ [SarCall spec r]))"

section \<open>The walk over the header\<close>

type_synonym checker = "string \<Rightarrow> string \<Rightarrow> trace \<Rightarrow> bool result \<times> trace"

text \<open>One review per value; the first refusal or error ends the walk.\<close>

fun check_each :: "checker \<Rightarrow> (string \<Rightarrow> go_error) \<Rightarrow> string \<Rightarrow> (string \<Rightarrow> user_info \<Rightarrow> user_info) \<Rightarrow>
    string list \<Rightarrow> user_info \<Rightarrow> trace \<Rightarrow> user_info result \<times> trace" where
  "check_each check denied res upd [] u t = (Ok u, t)"
| "check_each check denied res upd (v # vs) u t =
     (case check res v t of
        (Ok True, t') \<Rightarrow> check_each check denied res upd vs (upd v u) t'
      | (Ok False, t') \<Rightarrow> (Err (denied v), t')
      | (Err e, t') \<Rightarrow> (Err e, t')
      | (Panic, t') \<Rightarrow> (Panic, t'))"

record check_state =
  HasImpersonation :: bool
  TargetUser :: user_info
  HeadersToRemove :: "string list"

definition quoted :: "string \<Rightarrow> string" where
  "quoted s = CHR 0x27 # s @ [CHR 0x27]"

definition denied_msg :: "string \<Rightarrow> string \<Rightarrow> string \<Rightarrow> go_error" where
  "denied_msg requester what name =
     ErrMsg (requester @ '' is not allowed to impersonate '' @ what @ '' '' @ quoted name)"

definition denied_extra :: "string \<Rightarrow> string \<Rightarrow> string \<Rightarrow> go_error" where
  "denied_extra requester extraName v =
     ErrMsg (requester @ '' is not allowed to impersonate extra info '' @ quoted extraName @
             ''='' @ quoted v)"

definition set_name :: "string \<Rightarrow> user_info \<Rightarrow> user_info" where
  "set_name n u = u\<lparr>Name := n\<rparr>"

definition add_group :: "string \<Rightarrow> user_info \<Rightarrow> user_info" where
  "add_group g u = u\<lparr>Groups := Groups u @ [g]\<rparr>"

definition set_uid :: "string \<Rightarrow> user_info \<Rightarrow> user_info" where
  "set_uid i u = u\<lparr>UID := i\<rparr>"

definition add_extra :: "string \<Rightarrow> string \<Rightarrow> user_info \<Rightarrow> user_info" where
  "add_extra k v u = u\<lparr>Extra := Some (mm_append k v (extra_of u))\<rparr>"

definition check_attribute ::
    "checker \<Rightarrow> string \<Rightarrow> string \<Rightarrow> string list \<Rightarrow> user_info \<Rightarrow> trace \<Rightarrow> user_info result \<times> trace" where
  "check_attribute check rn key values u t =
     (let keyToCheck = ToLower key in
      if keyToCheck = ''impersonate-user'' then
        (case values of
           [] \<Rightarrow> (Panic, t)
         | v # _ \<Rightarrow> if v \<noteq> [] then check_each check (denied_msg rn ''user'') ''users'' set_name [v] u t
                    else (Ok u, t))
      else if keyToCheck = ''impersonate-group'' then
        check_each check (denied_msg rn ''group'') ''groups'' add_group values u t
      else if keyToCheck = ''impersonate-uid'' then
        (case values of
           [] \<Rightarrow> (Panic, t)
         | v # _ \<Rightarrow> check_each check (denied_msg rn ''uid'') ''uids'' set_uid [v] u t)
      else if prefix ''impersonate-extra-'' keyToCheck then
        (let extraName = ToLower (drop 18 key) in
         check_each check (denied_extra rn extraName) (''userextras/'' @ extraName)
           (add_extra extraName) values u t)
      else (Err (ErrMsg (''unknown impersonation header '' @ quoted key)), t))"

definition check_header :: "checker \<Rightarrow> string \<Rightarrow> bool \<Rightarrow> string \<times> string list \<Rightarrow> check_state \<Rightarrow> trace \<Rightarrow>
    check_state result \<times> trace" where
  "check_header check rn hasImpersonatedUser kv st t =
     (let (key, values) = kv in
      if prefix ''impersonate-'' (ToLower key) then
        if \<not> hasImpersonatedUser then (Err ErrNoImpersonationUserFound, t)
        else (let st' = st\<lparr>HeadersToRemove := key # HeadersToRemove st, HasImpersonation := True\<rparr>;
                  (r, t') = check_attribute check rn key values (TargetUser st') t
              in (map_result (\<lambda>u. st'\<lparr>TargetUser := u\<rparr>) r, t'))
      else (Ok st, t))"

fun check_headers :: "checker \<Rightarrow> string \<Rightarrow> bool \<Rightarrow> header \<Rightarrow> check_state \<Rightarrow> trace \<Rightarrow>
    check_state result \<times> trace" where
  "check_headers check rn hasU [] st t = (Ok st, t)"
| "check_headers check rn hasU (kv # h) st t =
     (case check_header check rn hasU kv st t of
        (Ok st', t') \<Rightarrow> check_headers check rn hasU h st' t'
      | (Err e, t') \<Rightarrow> (Err e, t')
      | (Panic, t') \<Rightarrow> (Panic, t'))"

definition empty_target :: user_info where
  "empty_target = \<lparr>Name = [], UID = [], Groups = [], Extra = Some []\<rparr>"

definition init_check :: check_state where
  "init_check = \<lparr>HasImpersonation = False, TargetUser = empty_target, HeadersToRemove = []\<rparr>"

definition copy_headers :: "string list \<Rightarrow> header \<Rightarrow> header" where
  "copy_headers removed h =
     foldl (\<lambda>new (k, vs). foldl (\<lambda>new v. Add new k v) new vs) []
       (map (\<lambda>(k, _). (k, Values h k)) (filter (\<lambda>(k, _). k \<notin> set removed) h))"

definition CheckAuthorizedForImpersonation ::
    "env \<Rightarrow> request \<Rightarrow> user_info \<Rightarrow> trace \<Rightarrow> (user_info option \<times> request) result \<times> trace" where
  "CheckAuthorizedForImpersonation E req requester t =
     (let hasImpersonatedUser = Get (Header req) ''impersonate-user'' \<noteq> [];
          (r, t') = check_headers (checkRbacImpersonationAuthorization E requester) (Name requester)
                      hasImpersonatedUser (Header req) init_check t
      in (map_result (\<lambda>st.
            if HasImpersonation st
            then (Some (TargetUser st),
                  req\<lparr>Header := copy_headers (HeadersToRemove st) (Header req)\<rparr>)
            else (None, req)) r, t'))"

section \<open>What a header asks for\<close>

text \<open>
  The specification: the reviews one field needs, the user it describes, and whether it is a
  field the walk accepts.
\<close>

fun is_impersonation :: "string \<times> string list \<Rightarrow> bool" where
  "is_impersonation (key, _) = prefix ''impersonate-'' (ToLower key)"

fun attribute_needs :: "string \<times> string list \<Rightarrow> (string \<times> string) list" where
  "attribute_needs (key, vs) =
     (let k = ToLower key in
      if k = ''impersonate-user'' then map (Pair ''users'') (filter (\<lambda>v. v \<noteq> []) (take 1 vs))
      else if k = ''impersonate-group'' then map (Pair ''groups'') vs
      else if k = ''impersonate-uid'' then map (Pair ''uids'') (take 1 vs)
      else if prefix ''impersonate-extra-'' k then
        map (Pair (''userextras/'' @ ToLower (drop 18 key))) vs
      else [])"

fun attribute_target :: "string \<times> string list \<Rightarrow> user_info \<Rightarrow> user_info" where
  "attribute_target (key, vs) u =
     (let k = ToLower key in
      if k = ''impersonate-user'' then fold set_name (filter (\<lambda>v. v \<noteq> []) (take 1 vs)) u
      else if k = ''impersonate-group'' then fold add_group vs u
      else if k = ''impersonate-uid'' then fold set_uid (take 1 vs) u
      else if prefix ''impersonate-extra-'' k then fold (add_extra (ToLower (drop 18 key))) vs u
      else u)"

fun known_attribute :: "string \<times> string list \<Rightarrow> bool" where
  "known_attribute (key, vs) =
     (let k = ToLower key in
      (k = ''impersonate-user'' \<or> k = ''impersonate-uid'') \<and> vs \<noteq> [] \<or>
      k = ''impersonate-group'' \<or> prefix ''impersonate-extra-'' k)"

definition header_needs :: "header \<Rightarrow> (string \<times> string) list" where
  "header_needs h = concat (map attribute_needs (filter is_impersonation h))"

lemmas attribute_spec = attribute_needs.simps attribute_target.simps known_attribute.simps

declare attribute_spec [simp del]

section \<open>The interface between the walk and one review\<close>

locale authorizer =
  fixes check :: checker
    and call :: "string \<Rightarrow> string \<Rightarrow> go_error + bool \<Rightarrow> event"
  assumes check_decided: "check r n t = (Ok b, t') \<Longrightarrow> t' = t @ [call r n (Inr b)]"
    and check_failed: "check r n t = (Err e, t') \<Longrightarrow> t' = t @ [call r n (Inl e)]"
    and check_no_panic: "check r n t \<noteq> (Panic, t')"
begin

lemma check_cases:
  obtains (allowed) "check r n t = (Ok True, t @ [call r n (Inr True)])"
  | (refused) "check r n t = (Ok False, t @ [call r n (Inr False)])"
  | (failed) e where "check r n t = (Err e, t @ [call r n (Inl e)])"
proof (cases "check r n t")
  case (Pair x t')
  then show ?thesis
    using check_decided check_failed check_no_panic that by (cases x) (metis (full_types))+
qed

lemma check_each_Ok:
  "check_each check denied res upd vs u t = (Ok u', t') \<Longrightarrow>
   u' = fold upd vs u \<and> t' = t @ map (\<lambda>v. call res v (Inr True)) vs"
proof (induction vs arbitrary: u t)
  case (Cons v vs)
  show ?case
  proof (cases rule: check_cases [of res v t])
    case allowed
    with Cons.prems have "check_each check denied res upd vs (upd v u) (t @ [call res v (Inr True)]) = (Ok u', t')"
      by simp
    from Cons.IH [OF this] show ?thesis by simp
  qed (use Cons.prems in auto)
qed simp

lemma check_each_allowed:
  "\<forall>v \<in> set vs. \<forall>t. fst (check res v t) = Ok True \<Longrightarrow>
   check_each check denied res upd vs u t = (Ok (fold upd vs u), t @ map (\<lambda>v. call res v (Inr True)) vs)"
proof (induction vs arbitrary: u t)
  case (Cons v vs)
  from Cons.prems have "fst (check res v t) = Ok True" by simp
  then have "check res v t = (Ok True, t @ [call res v (Inr True)])"
    by (cases rule: check_cases [of res v t]) auto
  with Cons show ?case by simp
qed simp

lemma check_each_no_panic: "check_each check denied res upd vs u t \<noteq> (Panic, t')"
proof (induction vs arbitrary: u t)
  case (Cons v vs)
  then show ?case by (cases rule: check_cases [of res v t]) auto
qed simp

lemma check_each_Err:
  "check_each check denied res upd vs u t = (Err e, t') \<Longrightarrow>
   \<exists>v \<in> set vs. e = denied v \<or> (\<exists>t. fst (check res v t) = Err e)"
proof (induction vs arbitrary: u t)
  case (Cons v vs)
  show ?case
  proof (cases rule: check_cases [of res v t])
    case allowed
    with Cons show ?thesis by fastforce
  next
    case (failed e')
    with Cons.prems have "fst (check res v t) = Err e" by simp
    then show ?thesis by (metis list.set_intros(1))
  qed (use Cons.prems in auto)
qed simp

lemma check_each_Ok_answers:
  "check_each check denied res upd vs u t = (Ok u', t') \<Longrightarrow>
   \<forall>v \<in> set vs. \<exists>t. fst (check res v t) = Ok True"
proof (induction vs arbitrary: u t)
  case (Cons v vs)
  show ?case
  proof (cases rule: check_cases [of res v t])
    case allowed
    with Cons have "\<forall>v \<in> set vs. \<exists>t. fst (check res v t) = Ok True" by fastforce
    moreover from allowed have "fst (check res v t) = Ok True" by simp
    ultimately show ?thesis by auto
  qed (use Cons.prems in auto)
qed simp

lemma check_attribute_Ok_answers:
  "check_attribute check rn key vs u t = (Ok u', t') \<Longrightarrow>
   \<forall>(r, n) \<in> set (attribute_needs (key, vs)). \<exists>t. fst (check r n t) = Ok True"
  by (auto simp: check_attribute_def attribute_spec Let_def simp del: check_each.simps
      split: if_splits list.splits dest!: check_each_Ok_answers)

lemma check_attribute_Ok:
  "check_attribute check rn key vs u t = (Ok u', t') \<Longrightarrow>
   known_attribute (key, vs) \<and> u' = attribute_target (key, vs) u \<and>
   t' = t @ map (\<lambda>(r, n). call r n (Inr True)) (attribute_needs (key, vs))"
  by (auto simp: check_attribute_def attribute_spec Let_def simp del: check_each.simps
      split: if_splits list.splits dest!: check_each_Ok)

lemma check_attribute_allowed:
  assumes "known_attribute (key, vs)"
    and "\<forall>(r, n) \<in> set (attribute_needs (key, vs)). \<forall>t. fst (check r n t) = Ok True"
  shows "check_attribute check rn key vs u t =
    (Ok (attribute_target (key, vs) u),
     t @ map (\<lambda>(r, n). call r n (Inr True)) (attribute_needs (key, vs)))"
  using assms
  by (auto simp: check_attribute_def attribute_spec Let_def check_each_allowed
      simp del: check_each.simps split: list.splits)

lemma check_attribute_no_panic:
  "vs \<noteq> [] \<Longrightarrow> check_attribute check rn key vs u t \<noteq> (Panic, t')"
  by (auto simp: check_attribute_def Let_def check_each_no_panic simp del: check_each.simps
      split: list.splits)

lemma check_headers_Ok:
  assumes "check_headers check rn hasU h st t = (Ok st', t')"
  shows "t' = t @ map (\<lambda>(r, n). call r n (Inr True)) (header_needs h) \<and>
    TargetUser st' = fold attribute_target (filter is_impersonation h) (TargetUser st) \<and>
    (HasImpersonation st' \<longleftrightarrow> HasImpersonation st \<or> filter is_impersonation h \<noteq> []) \<and>
    set (HeadersToRemove st') =
      set (HeadersToRemove st) \<union> key_set (filter is_impersonation h) \<and>
    (filter is_impersonation h \<noteq> [] \<longrightarrow> hasU) \<and>
    (\<forall>kv \<in> set (filter is_impersonation h). known_attribute kv)"
  using assms
proof (induction h arbitrary: st t)
  case (Cons kv h)
  obtain key vs where kv: "kv = (key, vs)" by fastforce
  show ?case
  proof (cases "is_impersonation kv")
    case False
    with kv Cons show ?thesis by (auto simp: check_header_def header_needs_def)
  next
    case True
    let ?st = "st\<lparr>HeadersToRemove := key # HeadersToRemove st, HasImpersonation := True\<rparr>"
    obtain u1 t1 where u1: "check_attribute check rn key vs (TargetUser st) t = (Ok u1, t1)"
      and rest: "check_headers check rn hasU h (?st\<lparr>TargetUser := u1\<rparr>) t1 = (Ok st', t')" and hasU
      using True kv Cons.prems
      by (auto simp: check_header_def Let_def split: if_splits prod.splits result.splits)
    then show ?thesis
      using True kv check_attribute_Ok [OF u1] Cons.IH [OF rest]
      by (auto simp: header_needs_def)
  qed
qed (simp add: header_needs_def)

lemma check_headers_Ok_answers:
  "check_headers check rn hasU h st t = (Ok st', t') \<Longrightarrow>
   \<forall>(r, n) \<in> set (header_needs h). \<exists>t. fst (check r n t) = Ok True"
proof (induction h arbitrary: st t)
  case (Cons kv h)
  obtain key vs where kv: "kv = (key, vs)" by fastforce
  show ?case
  proof (cases "is_impersonation kv")
    case False
    with kv Cons show ?thesis by (auto simp: check_header_def header_needs_def)
  next
    case True
    let ?st = "st\<lparr>HeadersToRemove := key # HeadersToRemove st, HasImpersonation := True\<rparr>"
    obtain u1 t1 where u1: "check_attribute check rn key vs (TargetUser st) t = (Ok u1, t1)"
      and rest: "check_headers check rn hasU h (?st\<lparr>TargetUser := u1\<rparr>) t1 = (Ok st', t')"
      using True kv Cons.prems
      by (auto simp: check_header_def Let_def split: if_splits prod.splits result.splits)
    have "header_needs (kv # h) = attribute_needs kv @ header_needs h"
      using True by (simp add: header_needs_def)
    then show ?thesis
      using kv check_attribute_Ok_answers [OF u1] Cons.IH [OF rest] by auto
  qed
qed (simp add: header_needs_def)

lemma check_headers_allowed:
  assumes "filter is_impersonation h \<noteq> [] \<Longrightarrow> hasU"
    and "\<And>kv. kv \<in> set (filter is_impersonation h) \<Longrightarrow> known_attribute kv"
    and "\<forall>(r, n) \<in> set (header_needs h). \<forall>t. fst (check r n t) = Ok True"
  shows "\<exists>st' t'. check_headers check rn hasU h st t = (Ok st', t')"
  using assms
proof (induction h arbitrary: st t)
  case (Cons kv h)
  obtain key vs where kv: "kv = (key, vs)" by fastforce
  show ?case
  proof (cases "is_impersonation kv")
    case False
    with kv Cons show ?thesis by (simp add: check_header_def header_needs_def)
  next
    case True
    from Cons.prems(2) [of kv] True kv have "known_attribute (key, vs)" by simp
    moreover have "\<forall>(r, n) \<in> set (attribute_needs (key, vs)). \<forall>t. fst (check r n t) = Ok True"
      using True kv Cons.prems(3) by (auto simp: header_needs_def)
    ultimately have "check_attribute check rn key vs u t = (Ok (attribute_target (key, vs) u),
      t @ map (\<lambda>(r, n). call r n (Inr True)) (attribute_needs (key, vs)))" for u t
      by (rule check_attribute_allowed)
    moreover have "\<forall>(r, n) \<in> set (header_needs h). \<forall>t. fst (check r n t) = Ok True"
      using True Cons.prems(3) by (auto simp: header_needs_def)
    ultimately show ?thesis
      using True kv Cons by (simp add: check_header_def Let_def)
  qed
qed simp

lemma check_headers_no_panic:
  "list_all (\<lambda>(k, vs). vs \<noteq> []) h \<Longrightarrow> check_headers check rn hasU h st t \<noteq> (Panic, t')"
proof (induction h arbitrary: st t)
  case (Cons kv h)
  obtain key vs where kv: "kv = (key, vs)" by fastforce
  with Cons check_attribute_no_panic [of vs rn key] show ?case
    by (auto simp: check_header_def Let_def split: prod.splits result.splits)
qed simp

text \<open>Without a user to impersonate no review is made.\<close>

lemma check_headers_no_user:
  "filter is_impersonation h \<noteq> [] \<Longrightarrow>
   check_headers check rn False h st t = (Err ErrNoImpersonationUserFound, t)"
proof (induction h arbitrary: st)
  case (Cons kv h)
  obtain key vs where "kv = (key, vs)" by fastforce
  with Cons show ?case by (auto simp: check_header_def)
qed simp

end

interpretation rbac: authorizer "checkRbacImpersonationAuthorization E requester"
    "\<lambda>r n a. SarCall (rbac_spec r n requester) a" for E requester
  by unfold_locales
    (auto simp: checkRbacImpersonationAuthorization_def Let_def split: sum.splits)

section \<open>The user that a header describes\<close>

lemma extra_of_empty_target [simp]: "extra_of empty_target = []"
  by (simp add: extra_of_def empty_target_def)

lemma fold_set_name: "fold set_name vs u = (if vs = [] then u else u\<lparr>Name := last vs\<rparr>)"
  by (induction vs arbitrary: u) (auto simp: set_name_def)

lemma fold_set_uid: "fold set_uid vs u = (if vs = [] then u else u\<lparr>UID := last vs\<rparr>)"
  by (induction vs arbitrary: u) (auto simp: set_uid_def)

lemma fold_add_group: "fold add_group vs u = u\<lparr>Groups := Groups u @ vs\<rparr>"
  by (induction vs arbitrary: u) (auto simp: add_group_def)

lemma fold_add_extra:
  "fold (add_extra k) vs u = (if vs = [] then u
     else u\<lparr>Extra := Some (foldl (\<lambda>m v. mm_append k v m) (extra_of u) vs)\<rparr>)"
  by (induction vs arbitrary: u) (auto simp: add_extra_def extra_of_def)

lemmas fold_setters = fold_set_name fold_set_uid fold_add_group fold_add_extra

text \<open>The four parts of the user that a field describes.\<close>

definition nonempty_hd :: "string list \<Rightarrow> string \<Rightarrow> string" where
  "nonempty_hd vs n = (case vs of v # _ \<Rightarrow> if v \<noteq> [] then v else n | [] \<Rightarrow> n)"

lemma Name_attribute_target:
  "Name (attribute_target kv u) =
     (if ToLower (fst kv) = ''impersonate-user'' then nonempty_hd (snd kv) (Name u) else Name u)"
  by (cases kv) (auto simp: attribute_spec Let_def fold_setters nonempty_hd_def split: list.splits)

lemma UID_attribute_target:
  "UID (attribute_target kv u) =
     (if ToLower (fst kv) = ''impersonate-uid''
      then (case snd kv of [] \<Rightarrow> UID u | v # _ \<Rightarrow> v) else UID u)"
  by (cases kv) (auto simp: attribute_spec Let_def fold_setters split: list.splits)

lemma Groups_attribute_target:
  "Groups (attribute_target kv u) =
     (if ToLower (fst kv) = ''impersonate-group'' then Groups u @ snd kv else Groups u)"
  by (cases kv) (auto simp: attribute_spec Let_def fold_setters)

lemma extra_of_attribute_target:
  "extra_of (attribute_target kv u) =
     (if prefix ''impersonate-extra-'' (ToLower (fst kv))
      then foldl (\<lambda>m v. mm_append (ToLower (drop 18 (fst kv))) v m) (extra_of u) (snd kv)
      else extra_of u)"
  by (cases kv) (auto simp: attribute_spec Let_def fold_setters extra_of_def)

lemma filter_imp_name:
  assumes "wf_header h" and "list_all valid_header_byte n" and "prefix ''impersonate-'' (ToLower n)"
  shows "filter (\<lambda>kv. ToLower (fst kv) = ToLower n) (filter is_impersonation h)
    = (if Values h n = [] then [] else [(canonical n, Values h n)])"
proof -
  have "filter (\<lambda>kv. ToLower (fst kv) = ToLower n) (filter is_impersonation h) =
    filter (\<lambda>(k, _). ToLower k = ToLower n) h"
    using assms(3) by (auto intro!: filter_cong)
  with wf_header_filter_name [OF assms(1,2)] show ?thesis by simp
qed

lemma target_name:
  assumes "wf_header h"
  shows "Name (fold attribute_target (filter is_impersonation h) empty_target)
    = Get h ''Impersonate-User''"
proof -
  have valid: "list_all valid_header_byte ''Impersonate-User''" by code_simp
  have low: "ToLower ''Impersonate-User'' = ''impersonate-user''" by code_simp
  have "Name (fold attribute_target (filter is_impersonation h) empty_target) =
    fold (\<lambda>kv. nonempty_hd (snd kv))
      (filter (\<lambda>kv. ToLower (fst kv) = ''impersonate-user'') (filter is_impersonation h)) []"
    by (subst fold_project [where p = Name, OF Name_attribute_target]) (simp add: empty_target_def)
  also have "\<dots> = Get h ''Impersonate-User''"
    using filter_imp_name [OF assms valid] by (auto simp: low Get_Values nonempty_hd_def split: list.splits)
  finally show ?thesis .
qed

lemma target_uid:
  assumes "wf_header h"
  shows "UID (fold attribute_target (filter is_impersonation h) empty_target)
    = Get h ''Impersonate-Uid''"
proof -
  have valid: "list_all valid_header_byte ''Impersonate-Uid''" by code_simp
  have low: "ToLower ''Impersonate-Uid'' = ''impersonate-uid''" by code_simp
  have "UID (fold attribute_target (filter is_impersonation h) empty_target) =
    fold (\<lambda>kv n. case snd kv of [] \<Rightarrow> n | v # _ \<Rightarrow> v)
      (filter (\<lambda>kv. ToLower (fst kv) = ''impersonate-uid'') (filter is_impersonation h)) []"
    by (subst fold_project [where p = UID, OF UID_attribute_target]) (simp add: empty_target_def)
  also have "\<dots> = Get h ''Impersonate-Uid''"
    using filter_imp_name [OF assms valid] by (auto simp: low Get_Values split: list.splits)
  finally show ?thesis .
qed

lemma target_groups:
  assumes "wf_header h"
  shows "Groups (fold attribute_target (filter is_impersonation h) empty_target)
    = Values h ''Impersonate-Group''"
proof -
  have valid: "list_all valid_header_byte ''Impersonate-Group''" by code_simp
  have low: "ToLower ''Impersonate-Group'' = ''impersonate-group''" by code_simp
  have "Groups (fold attribute_target (filter is_impersonation h) empty_target) =
    fold (\<lambda>kv gs. gs @ snd kv)
      (filter (\<lambda>kv. ToLower (fst kv) = ''impersonate-group'') (filter is_impersonation h)) []"
    by (subst fold_project [where p = Groups, OF Groups_attribute_target]) (simp add: empty_target_def)
  also have "\<dots> = Values h ''Impersonate-Group''"
    using filter_imp_name [OF assms valid] by (auto simp: low)
  finally show ?thesis .
qed

lemma mm_vals_fold_extras:
  "mm_vals (extra_of (fold attribute_target es u)) k = mm_vals (extra_of u) k @
     concat (map snd (filter (\<lambda>kv. prefix ''impersonate-extra-'' (ToLower (fst kv)) \<and>
                                 k = ToLower (drop 18 (fst kv))) es))"
  by (induction es arbitrary: u)
     (auto simp: extra_of_attribute_target go_map.vals_add_values)

lemma extra_key_iff:
  "prefix ''impersonate-extra-'' (ToLower key) \<and> k = ToLower (drop 18 key) \<longleftrightarrow>
   ToLower k = k \<and> ToLower key = ''impersonate-extra-'' @ k"
proof -
  have "ToLower (drop 18 key) = drop 18 (ToLower key)" by (simp add: ToLower_def drop_map)
  then show ?thesis by (auto simp: prefix_def)
qed

lemma target_extra:
  assumes "wf_header h"
  shows "mm_vals (extra_of (fold attribute_target (filter is_impersonation h) empty_target)) k
    = (if ToLower k = k then Values h (''Impersonate-Extra-'' @ k) else [])"
proof (cases "ToLower k = k")
  case False
  then show ?thesis by (simp add: mm_vals_fold_extras extra_key_iff)
next
  case True
  let ?n = "''Impersonate-Extra-'' @ k"
  have low: "ToLower ?n = ''impersonate-extra-'' @ k" using True by simp
  have "mm_vals (extra_of (fold attribute_target (filter is_impersonation h) empty_target)) k =
    concat (map snd (filter (\<lambda>kv. ToLower (fst kv) = ToLower ?n) (filter is_impersonation h)))"
    using True by (simp add: mm_vals_fold_extras extra_key_iff)
  also have "\<dots> = Values h ?n"
  proof (cases "list_all valid_header_byte ?n")
    case True
    then show ?thesis using filter_imp_name [OF assms True] low by simp
  next
    case False
    have "ToLower key \<noteq> ToLower ?n" if "(key, vs) \<in> set h" for key vs
    proof
      assume "ToLower key = ToLower ?n"
      then have "list_all valid_header_byte (ToLower ?n)"
        using wf_header_mem [OF assms that] valid_ToLower [of key] by simp
      with False valid_ToLower [of ?n] show False by blast
    qed
    then have none: "filter (\<lambda>kv. ToLower (fst kv) = ToLower ?n) h = []" by (auto simp: filter_empty_conv)
    have "?n \<notin> key_set h" using False wf_header_key [OF assms] by blast
    then have "mm_vals h ?n = []" by (rule mm_vals_not_key)
    moreover have "canonical ?n = ?n" unfolding canonical_def using False by (rule if_not_P)
    ultimately have "Values h ?n = []" by (simp only: Values_def)
    with none show ?thesis by (auto simp: filter_empty_conv)
  qed
  finally show ?thesis using True by simp
qed

section \<open>The header that is forwarded\<close>

lemma keys_fold_Add:
  "key_set (foldl (\<lambda>new v. Add new k v) h vs) =
     (if vs = [] then {} else {canonical k}) \<union> key_set h"
  by (induction vs arbitrary: h) auto

lemma keys_fold_Adds:
  "key_set (foldl (\<lambda>new (k, vs). foldl (\<lambda>new v. Add new k v) new vs) h kvss) \<subseteq>
     canonical ` key_set kvss \<union> key_set h"
proof (induction kvss arbitrary: h)
  case (Cons a kvss)
  obtain k vs where a: "a = (k, vs)" by fastforce
  from Cons [of "foldl (\<lambda>new v. Add new k v) h vs"] show ?case
    by (auto simp: a keys_fold_Add split: if_splits)
qed simp

lemma copy_headers_keys:
  assumes "wf_header h"
  shows "key_set (copy_headers S h) \<subseteq> key_set h - set S"
proof -
  have "key_set (copy_headers S h) \<subseteq>
      canonical ` key_set (map (\<lambda>(k, _). (k, Values h k)) (filter (\<lambda>(k, _). k \<notin> set S) h))"
    unfolding copy_headers_def by (rule order_trans [OF keys_fold_Adds]) auto
  also have "\<dots> \<subseteq> key_set h - set S"
    using wf_header_mem [OF assms] by force
  finally show ?thesis .
qed

lemma Values_copy_headers:
  assumes "wf_header h"
  shows "Values (copy_headers S h) k = (if canonical k \<in> set S then [] else Values h k)"
proof -
  have entries: "map (\<lambda>(k, _). (k, Values h k)) (filter (\<lambda>(k, _). k \<notin> set S) h) =
      filter (\<lambda>(k, _). k \<notin> set S) h"
    using wf_header_Values [OF assms] by (intro map_idI) auto
  have "Values (copy_headers S h) k = concat (map snd
      (filter (\<lambda>(k', vs). canonical k = canonical k') (filter (\<lambda>(k, _). k \<notin> set S) h)))"
    unfolding copy_headers_def entries http_header.vals_add_map by (simp add: http_header.vals_empty)
  also have "filter (\<lambda>(k', vs). canonical k = canonical k') (filter (\<lambda>(k, _). k \<notin> set S) h) =
      (if canonical k \<in> set S then [] else filter (\<lambda>(k', vs). canonical k = k') h)"
    using wf_header_mem [OF assms] by (auto simp: filter_empty_conv intro!: filter_cong)
  finally show ?thesis
    using concat_filter_key [OF wf_header_wf_map [OF assms], of "canonical k"]
    by (auto simp: Values_def)
qed

lemma wf_header_copy:
  assumes "wf_header h"
  shows "wf_header (copy_headers S h)"
  unfolding copy_headers_def
proof (rule wf_header_foldl)
  fix new kvs
  assume "kvs \<in> set (map (\<lambda>(k, _). (k, Values h k)) (filter (\<lambda>(k, _). k \<notin> set S) h))" and new: "wf_header new"
  then obtain k vs where k: "(k, vs) \<in> set h" "kvs = (k, Values h k)" by auto
  from wf_header_mem [OF assms k(1)] have "wf_header (foldl (\<lambda>new v. Add new k v) new (Values h k))"
    by (intro wf_header_foldl [OF _ new]) auto
  with k(2) show "wf_header (case kvs of (k, vs) \<Rightarrow> foldl (\<lambda>new v. Add new k v) new vs)" by simp
qed (simp add: wf_header_def)

lemma header_needs_mem:
  "(k, vs) \<in> set h \<Longrightarrow> is_impersonation (k, vs) \<Longrightarrow> x \<in> set (attribute_needs (k, vs)) \<Longrightarrow>
   x \<in> set (header_needs h)"
  by (auto simp: header_needs_def)

section \<open>Correctness of the impersonation check\<close>

lemma rbac_allowed_iff [simp]:
  "fst (checkRbacImpersonationAuthorization E requester r n t) = Ok True \<longleftrightarrow>
   sar_create E t (rbac_spec r n requester) = Inr True"
  by (auto simp: checkRbacImpersonationAuthorization_def Let_def split: sum.splits)

lemma Check_Ok_iff:
  "CheckAuthorizedForImpersonation E req requester t = (Ok (x, req'), t') \<longleftrightarrow>
   (\<exists>st. check_headers (checkRbacImpersonationAuthorization E requester) (Name requester)
           (Get (Header req) ''impersonate-user'' \<noteq> []) (Header req) init_check t = (Ok st, t') \<and>
         (if HasImpersonation st
          then x = Some (TargetUser st) \<and>
               req' = req\<lparr>Header := copy_headers (HeadersToRemove st) (Header req)\<rparr>
          else x = None \<and> req' = req))"
  by (auto simp: CheckAuthorizedForImpersonation_def Let_def split: prod.splits if_splits)

lemma Get_impersonate_user: "Get h ''impersonate-user'' = Get h ''Impersonate-User''"
proof -
  have "canonical ''impersonate-user'' = canonical ''Impersonate-User''" by code_simp
  then show ?thesis by (simp add: Get_def)
qed

text \<open>Everything a successful check says: the reviews made, the target and the header passed on.\<close>

lemma Check_Ok:
  assumes "CheckAuthorizedForImpersonation E req requester t = (Ok (x, req'), t')"
  shows "t' = t @ map (\<lambda>(r, n). SarCall (rbac_spec r n requester) (Inr True)) (header_needs (Header req))"
    and "x = (if filter is_impersonation (Header req) = [] then None
      else Some (fold attribute_target (filter is_impersonation (Header req)) empty_target))"
    and "filter is_impersonation (Header req) = [] \<Longrightarrow> req' = req"
    and "filter is_impersonation (Header req) \<noteq> [] \<Longrightarrow> \<exists>S. set S = key_set (filter is_impersonation (Header req)) \<and>
           req' = req\<lparr>Header := copy_headers S (Header req)\<rparr>"
    and "filter is_impersonation (Header req) \<noteq> [] \<Longrightarrow> Get (Header req) ''Impersonate-User'' \<noteq> []"
    and "\<forall>kv \<in> set (filter is_impersonation (Header req)). known_attribute kv"
    and "\<forall>(r, n) \<in> set (header_needs (Header req)). \<exists>t. sar_create E t (rbac_spec r n requester) = Inr True"
proof -
  from assms obtain st where run: "check_headers (checkRbacImpersonationAuthorization E requester)
      (Name requester) (Get (Header req) ''impersonate-user'' \<noteq> []) (Header req) init_check t = (Ok st, t')"
    and res: "if HasImpersonation st
      then x = Some (TargetUser st) \<and> req' = req\<lparr>Header := copy_headers (HeadersToRemove st) (Header req)\<rparr>
      else x = None \<and> req' = req"
    by (auto simp: Check_Ok_iff)
  note facts = rbac.check_headers_Ok [OF run] and answers = rbac.check_headers_Ok_answers [OF run]
  show "t' = t @ map (\<lambda>(r, n). SarCall (rbac_spec r n requester) (Inr True)) (header_needs (Header req))"
    and "\<forall>kv \<in> set (filter is_impersonation (Header req)). known_attribute kv"
    using facts by auto
  show "x = (if filter is_impersonation (Header req) = [] then None
      else Some (fold attribute_target (filter is_impersonation (Header req)) empty_target))"
    and "filter is_impersonation (Header req) = [] \<Longrightarrow> req' = req"
    using facts res by (auto simp: init_check_def split: if_splits)
  show "filter is_impersonation (Header req) \<noteq> [] \<Longrightarrow> \<exists>S. set S = key_set (filter is_impersonation (Header req)) \<and>
      req' = req\<lparr>Header := copy_headers S (Header req)\<rparr>"
    using facts res by (auto simp: init_check_def split: if_splits)
  show "filter is_impersonation (Header req) \<noteq> [] \<Longrightarrow> Get (Header req) ''Impersonate-User'' \<noteq> []"
    using facts by (simp add: Get_impersonate_user)
  show "\<forall>(r, n) \<in> set (header_needs (Header req)). \<exists>t. sar_create E t (rbac_spec r n requester) = Inr True"
    using answers by (simp add: rbac_allowed_iff)
qed

lemma Check_Ok_Some:
  assumes "CheckAuthorizedForImpersonation E req requester t = (Ok (Some u, req'), t')"
  shows "u = fold attribute_target (filter is_impersonation (Header req)) empty_target"
    and "Get (Header req) ''Impersonate-User'' \<noteq> []"
  using Check_Ok(2,5) [OF assms] by (auto split: if_splits)

lemma needs_user:
  assumes "Get h ''Impersonate-User'' \<noteq> []"
  shows "(''users'', Get h ''Impersonate-User'') \<in> set (header_needs h)"
proof -
  obtain v vs where "Values h ''Impersonate-User'' = v # vs" and v: "v = Get h ''Impersonate-User''"
    using assms by (cases "Values h ''Impersonate-User''") (auto simp: Get_Values)
  then have "(canonical ''Impersonate-User'', v # vs) \<in> set h" by (auto dest: Values_entry)
  then show ?thesis
    using assms v by (auto intro: header_needs_mem simp: attribute_needs.simps Let_def)
qed

lemma needs_group:
  assumes "g \<in> set (Values h ''Impersonate-Group'')"
  shows "(''groups'', g) \<in> set (header_needs h)"
proof -
  have "(canonical ''Impersonate-Group'', Values h ''Impersonate-Group'') \<in> set h"
    using assms by (blast intro: Values_mem_entry)
  then show ?thesis
    using assms by (auto intro: header_needs_mem simp: attribute_needs.simps Let_def)
qed

lemma needs_uid:
  assumes "Get h ''Impersonate-Uid'' \<noteq> []"
  shows "(''uids'', Get h ''Impersonate-Uid'') \<in> set (header_needs h)"
proof -
  obtain v vs where "Values h ''Impersonate-Uid'' = v # vs" and v: "v = Get h ''Impersonate-Uid''"
    using assms by (cases "Values h ''Impersonate-Uid''") (auto simp: Get_Values)
  then have "(canonical ''Impersonate-Uid'', v # vs) \<in> set h" by (auto dest: Values_entry)
  then show ?thesis
    using v by (auto intro: header_needs_mem simp: attribute_needs.simps Let_def)
qed

lemma needs_extra:
  assumes "v \<in> set (Values h (''Impersonate-Extra-'' @ k))" and "ToLower k = k"
  shows "(''userextras/'' @ k, v) \<in> set (header_needs h)"
proof -
  let ?c = "canonical (''Impersonate-Extra-'' @ k)"
  have entry: "(?c, Values h (''Impersonate-Extra-'' @ k)) \<in> set h"
    using assms by (blast intro: Values_mem_entry)
  have "ToLower ?c = ''impersonate-extra-'' @ k" using assms(2) by simp
  then have "prefix ''impersonate-extra-'' (ToLower ?c) \<and> k = ToLower (drop 18 ?c)"
    using assms(2) extra_key_iff by blast
  with entry assms(1) \<open>ToLower ?c = _\<close> show ?thesis
    by (intro header_needs_mem [of ?c]) (auto simp: attribute_needs.simps Let_def)
qed

section \<open>The fake reviewer of the unit tests\<close>

text \<open>
  \<open>fake/subjectaccessreview.go\<close>: the reviewer the repository's own tests use.  It is the
  concrete API server of the examples below.
\<close>

definition FakeReviewer_Create :: "go_error option \<Rightarrow> sar_spec \<Rightarrow> go_error + bool" where
  "FakeReviewer_Create err spec =
     (case err of
        Some e \<Rightarrow> Inl e
      | None \<Rightarrow>
          if Resource spec = ''users'' \<and> ResourceName spec = ''jjackson'' then Inr True
          else if Resource spec = ''groups'' \<and> ResourceName spec = ''group3'' then Inr True
          else if Resource spec = ''uids'' \<and> ResourceName spec = ''1-2-3-4'' then Inr True
          else if Resource spec = ''userextras'' \<and> Subresource spec = ''remoteaddr'' \<and>
                  ResourceName spec = ''1.2.3.4'' then Inr True
          else Inr False)"

definition fake_env :: env where
  "fake_env = base_env\<lparr>sar_create := (\<lambda>t. FakeReviewer_Create None)\<rparr>"

definition mmosley :: user_info where
  "mmosley = \<lparr>Name = ''mmosley'', UID = [], Groups = [''group1'', ''group2''],
     Extra = Some [(''remoteaddr'', [''1.2.3.4''])]\<rparr>"

definition jjackson_header :: header where
  "jjackson_header =
     [(''Accept'', [''*/*'']), (''Impersonate-User'', [''jjackson'']),
      (''Impersonate-Group'', [''group3'']), (''Impersonate-Uid'', [''1-2-3-4'']),
      (''Impersonate-Extra-Remoteaddr'', [''1.2.3.4''])]"

definition header_request :: "header \<Rightarrow> request" where
  "header_request h = \<lparr>Header = h, URL = \<lparr>Path = ''/'', RawQuery = []\<rparr>,
     ReqRemoteAddr = ''10.0.0.1:4242'', RequestURI = ''/'', Context = []\<rparr>"

fun authorized :: "(user_info option \<times> request) result \<times> trace \<Rightarrow> bool" where
  "authorized (Ok (Some u, r), t) = True"
| "authorized _ = False"

lemma authorizedE: "authorized out \<Longrightarrow> \<exists>u r t. out = (Ok (Some u, r), t)"
  by (cases out rule: authorized.cases) auto

lemma jjackson_run: "authorized (CheckAuthorizedForImpersonation fake_env (header_request jjackson_header) mmosley [])"
  by code_simp

lemma jjackson_name:
  "CheckAuthorizedForImpersonation fake_env (header_request jjackson_header) mmosley [] = (Ok (Some u, r), t)
   \<Longrightarrow> Name u = ''jjackson''"
proof -
  have "case CheckAuthorizedForImpersonation fake_env (header_request jjackson_header) mmosley [] of
      (Ok (Some u, _), _) \<Rightarrow> Name u = ''jjackson'' | _ \<Rightarrow> False" by code_simp
  then show "CheckAuthorizedForImpersonation fake_env (header_request jjackson_header) mmosley [] = (Ok (Some u, r), t)
   \<Longrightarrow> Name u = ''jjackson''" by simp
qed

lemma wf_jjackson_header: "wf_header jjackson_header"
  by code_simp

section \<open>Properties\<close>

lemma Check_Ok_reviews:
  assumes "wf_header (Header req)"
    and "CheckAuthorizedForImpersonation E req requester t = (Ok (Some u, req'), t')"
  shows "\<exists>new. t' = t @ new \<and>
     SarCall (rbac_spec ''users'' (Name u) requester) (Inr True) \<in> set new \<and>
     (\<forall>g \<in> set (Groups u). SarCall (rbac_spec ''groups'' g requester) (Inr True) \<in> set new) \<and>
     (UID u \<noteq> [] \<longrightarrow> SarCall (rbac_spec ''uids'' (UID u) requester) (Inr True) \<in> set new) \<and>
     (\<forall>k. \<forall>v \<in> set (mm_vals (extra_of u) k).
        SarCall (rbac_spec (''userextras/'' @ k) v requester) (Inr True) \<in> set new)"
proof -
  let ?h = "Header req"
  let ?new = "map (\<lambda>(r, n). SarCall (rbac_spec r n requester) (Inr True)) (header_needs ?h)"
  note u = Check_Ok_Some(1) [OF assms(2)]
  have reviewed: "SarCall (rbac_spec r n requester) (Inr True) \<in> set ?new"
    if "(r, n) \<in> set (header_needs ?h)" for r n using that by force
  have "t' = t @ ?new" by (rule Check_Ok(1) [OF assms(2)])
  moreover have "SarCall (rbac_spec ''users'' (Name u) requester) (Inr True) \<in> set ?new"
    unfolding u target_name [OF assms(1)]
    by (intro reviewed needs_user Check_Ok_Some(2) [OF assms(2)])
  moreover have "SarCall (rbac_spec ''groups'' g requester) (Inr True) \<in> set ?new"
    if "g \<in> set (Groups u)" for g
    using that unfolding u target_groups [OF assms(1)] by (intro reviewed needs_group)
  moreover have "SarCall (rbac_spec ''uids'' (UID u) requester) (Inr True) \<in> set ?new"
    if "UID u \<noteq> []"
    using that unfolding u target_uid [OF assms(1)] by (intro reviewed needs_uid)
  moreover have "SarCall (rbac_spec (''userextras/'' @ k) v requester) (Inr True) \<in> set ?new"
    if "v \<in> set (mm_vals (extra_of u) k)" for k v
    using that unfolding u target_extra [OF assms(1)]
    by (intro reviewed needs_extra) (auto split: if_splits)
  ultimately show ?thesis by blast
qed

text \<open>C11: soundness of the impersonation check. When the check returns a target user, the API
  server was asked, during this very check and on behalf of the requester, about every attribute
  of the target, and allowed each: the user name, every group, the uid if there is one, and every
  value of every extra field.\<close>

theorem sar_every_attribute_allowed:
  assumes "wf_header (Header req)"
    and "CheckAuthorizedForImpersonation E req requester t = (Ok (Some u, req'), t')"
  shows "\<exists>new. t' = t @ new \<and>
     SarCall (rbac_spec ''users'' (Name u) requester) (Inr True) \<in> set new \<and>
     (\<forall>g \<in> set (Groups u). SarCall (rbac_spec ''groups'' g requester) (Inr True) \<in> set new) \<and>
     (UID u \<noteq> [] \<longrightarrow> SarCall (rbac_spec ''uids'' (UID u) requester) (Inr True) \<in> set new) \<and>
     (\<forall>k. \<forall>v \<in> set (mm_vals (extra_of u) k).
        SarCall (rbac_spec (''userextras/'' @ k) v requester) (Inr True) \<in> set new)"
  by (rule Check_Ok_reviews [OF assms])

theorem sar_every_attribute_allowed_witness:
  "\<exists>u req' new. CheckAuthorizedForImpersonation fake_env (header_request jjackson_header) mmosley []
       = (Ok (Some u, req'), new) \<and>
     SarCall (rbac_spec ''users'' (Name u) mmosley) (Inr True) \<in> set new"
proof -
  obtain u req' t' where run: "CheckAuthorizedForImpersonation fake_env (header_request jjackson_header)
      mmosley [] = (Ok (Some u, req'), t')"
    using authorizedE [OF jjackson_run] by blast
  have "wf_header (Header (header_request jjackson_header))"
    by (simp add: header_request_def wf_jjackson_header)
  from sar_every_attribute_allowed [OF this run] run show ?thesis by auto
qed

lemma Check_Ok_target:
  assumes "wf_header (Header req)"
    and "CheckAuthorizedForImpersonation E req requester t = (Ok (Some u, req'), t')"
  shows "Name u = Get (Header req) ''Impersonate-User''
    \<and> Groups u = Values (Header req) ''Impersonate-Group''
    \<and> UID u = Get (Header req) ''Impersonate-Uid''
    \<and> (\<forall>k. mm_vals (extra_of u) k =
          (if ToLower k = k then Values (Header req) (''Impersonate-Extra-'' @ k) else []))"
  unfolding Check_Ok_Some(1) [OF assms(2)]
  using target_name [OF assms(1)] target_groups [OF assms(1)] target_uid [OF assms(1)]
    target_extra [OF assms(1)] by blast

text \<open>C12: the target user is exactly the one the headers describe: its name, groups and uid are
  the values of the corresponding headers and the values of each extra field those of its header;
  nothing else of the requester or of another header gets in.\<close>

theorem sar_target_is_requested:
  assumes "wf_header (Header req)"
    and "CheckAuthorizedForImpersonation E req requester t = (Ok (Some u, req'), t')"
  shows "Name u = Get (Header req) ''Impersonate-User''
    \<and> Groups u = Values (Header req) ''Impersonate-Group''
    \<and> UID u = Get (Header req) ''Impersonate-Uid''
    \<and> (\<forall>k. mm_vals (extra_of u) k =
          (if ToLower k = k then Values (Header req) (''Impersonate-Extra-'' @ k) else []))"
  by (rule Check_Ok_target [OF assms])

theorem sar_target_is_requested_witness:
  "\<exists>u req' t'. CheckAuthorizedForImpersonation fake_env (header_request jjackson_header) mmosley []
       = (Ok (Some u, req'), t') \<and> Name u = ''jjackson'' \<and> Groups u = [''group3''] \<and>
     UID u = ''1-2-3-4'' \<and> mm_vals (extra_of u) ''remoteaddr'' = [''1.2.3.4'']"
proof -
  obtain u req' t' where run: "CheckAuthorizedForImpersonation fake_env (header_request jjackson_header)
      mmosley [] = (Ok (Some u, req'), t')"
    using authorizedE [OF jjackson_run] by blast
  have h: "Header (header_request jjackson_header) = jjackson_header" by (simp add: header_request_def)
  have vals: "Get jjackson_header ''Impersonate-User'' = ''jjackson''"
    "Values jjackson_header ''Impersonate-Group'' = [''group3'']"
    "Get jjackson_header ''Impersonate-Uid'' = ''1-2-3-4''"
    "Values jjackson_header (''Impersonate-Extra-'' @ ''remoteaddr'') = [''1.2.3.4'']"
    "ToLower ''remoteaddr'' = ''remoteaddr''" by code_simp+
  from sar_target_is_requested [OF _ run, unfolded h] wf_jjackson_header vals run show ?thesis by auto
qed

lemma Check_Ok_stripped:
  assumes "wf_header (Header req)"
    and "CheckAuthorizedForImpersonation E req requester t = (Ok (x, req'), t')"
  shows "(\<forall>k \<in> key_set (Header req'). \<not> prefix ''impersonate-'' (ToLower k)) \<and>
    (\<forall>k. \<not> prefix ''impersonate-'' (ToLower k) \<longrightarrow> Values (Header req') k = Values (Header req) k) \<and>
    req' = req\<lparr>Header := Header req'\<rparr>"
proof (cases "filter is_impersonation (Header req) = []")
  case True
  with Check_Ok(3) [OF assms(2)] show ?thesis by (fastforce simp: filter_empty_conv)
next
  case False
  then obtain S where S: "set S = key_set (filter is_impersonation (Header req))"
    and req': "req' = req\<lparr>Header := copy_headers S (Header req)\<rparr>"
    using Check_Ok(4) [OF assms(2)] by blast
  have hd': "Header req' = copy_headers S (Header req)" by (simp add: req')
  have "\<not> prefix ''impersonate-'' (ToLower k)" if "k \<in> key_set (Header req')" for k
  proof -
    have "k \<in> key_set (Header req) - set S"
      using that copy_headers_keys [OF assms(1), of S] unfolding hd' by blast
    then show ?thesis by (auto simp: S image_iff)
  qed
  moreover have "Values (Header req') k = Values (Header req) k"
    if "\<not> prefix ''impersonate-'' (ToLower k)" for k
  proof -
    have "canonical k \<notin> set S"
    proof
      assume "canonical k \<in> set S"
      then have "prefix ''impersonate-'' (ToLower (canonical k))" by (auto simp: S)
      with that show False by simp
    qed
    then show ?thesis unfolding hd' Values_copy_headers [OF assms(1)] by simp
  qed
  moreover have "req' = req\<lparr>Header := Header req'\<rparr>" by (simp add: req')
  ultimately show ?thesis by blast
qed

text \<open>C13: on success no impersonation header of the client is left in the request, in whatever
  spelling, and every other header keeps its values; nothing else of the request changes.\<close>

theorem sar_strips_impersonation_headers:
  assumes "wf_header (Header req)"
    and "CheckAuthorizedForImpersonation E req requester t = (Ok (x, req'), t')"
  shows "(\<forall>k \<in> key_set (Header req'). \<not> prefix ''impersonate-'' (ToLower k)) \<and>
    (\<forall>k. \<not> prefix ''impersonate-'' (ToLower k) \<longrightarrow> Values (Header req') k = Values (Header req) k) \<and>
    req' = req\<lparr>Header := Header req'\<rparr>"
  by (rule Check_Ok_stripped [OF assms])

theorem sar_strips_impersonation_headers_witness:
  "\<exists>u req' t'. CheckAuthorizedForImpersonation fake_env (header_request jjackson_header) mmosley []
       = (Ok (Some u, req'), t') \<and>
     (\<forall>k \<in> key_set (Header req'). \<not> prefix ''impersonate-'' (ToLower k)) \<and>
     Values (Header req') ''Accept'' = [''*/*'']"
proof -
  obtain u req' t' where run: "CheckAuthorizedForImpersonation fake_env (header_request jjackson_header)
      mmosley [] = (Ok (Some u, req'), t')"
    using authorizedE [OF jjackson_run] by blast
  have h: "Header (header_request jjackson_header) = jjackson_header" by (simp add: header_request_def)
  have vals: "Values jjackson_header ''Accept'' = [''*/*'']"
    "\<not> prefix ''impersonate-'' (ToLower ''Accept'')" by code_simp+
  from sar_strips_impersonation_headers [OF _ run, unfolded h] wf_jjackson_header vals run
  show ?thesis by metis
qed


lemma sar_decision:
  assumes "\<And>t t' s. sar_create E t s = sar_create E t' s"
  shows "(\<exists>u req' t'. CheckAuthorizedForImpersonation E req requester t = (Ok (Some u, req'), t')) \<longleftrightarrow>
    filter is_impersonation (Header req) \<noteq> [] \<and>
    Get (Header req) ''Impersonate-User'' \<noteq> [] \<and>
    (\<forall>kv \<in> set (filter is_impersonation (Header req)). known_attribute kv) \<and>
    (\<forall>(r, n) \<in> set (header_needs (Header req)). sar_create E [] (rbac_spec r n requester) = Inr True)"
    (is "?ok \<longleftrightarrow> ?cond")
proof
  assume ?ok
  then obtain u req' t' where run: "CheckAuthorizedForImpersonation E req requester t = (Ok (Some u, req'), t')"
    by blast
  have "\<forall>(r, n) \<in> set (header_needs (Header req)). sar_create E [] (rbac_spec r n requester) = Inr True"
  proof (clarify)
    fix r n assume "(r, n) \<in> set (header_needs (Header req))"
    then obtain t1 where "sar_create E t1 (rbac_spec r n requester) = Inr True"
      using Check_Ok(7) [OF run] by blast
    then show "sar_create E [] (rbac_spec r n requester) = Inr True"
      by (rule trans [OF assms [of "[]" _ t1]])
  qed
  moreover have "filter is_impersonation (Header req) \<noteq> []"
    using Check_Ok(2) [OF run] by (auto split: if_splits)
  ultimately show ?cond using Check_Ok(5,6) [OF run] by blast
next
  assume cond: ?cond
  have "\<exists>st t'. check_headers (checkRbacImpersonationAuthorization E requester) (Name requester)
      (Get (Header req) ''impersonate-user'' \<noteq> []) (Header req) init_check t = (Ok st, t')"
  proof (rule rbac.check_headers_allowed)
    show "\<forall>(r, n) \<in> set (header_needs (Header req)).
        \<forall>t. fst (checkRbacImpersonationAuthorization E requester r n t) = Ok True"
    proof (clarify)
      fix r n t assume "(r, n) \<in> set (header_needs (Header req))"
      with cond have "sar_create E [] (rbac_spec r n requester) = Inr True" by blast
      then have "sar_create E t (rbac_spec r n requester) = Inr True"
        by (rule trans [OF assms [of t _ "[]"]])
      then show "fst (checkRbacImpersonationAuthorization E requester r n t) = Ok True" by simp
    qed
  qed (use cond in \<open>auto simp: Get_impersonate_user\<close>)
  then obtain st t' where run: "check_headers (checkRbacImpersonationAuthorization E requester)
      (Name requester) (Get (Header req) ''impersonate-user'' \<noteq> []) (Header req) init_check t = (Ok st, t')"
    by blast
  moreover have "HasImpersonation st" using rbac.check_headers_Ok [OF run] cond by blast
  ultimately show ?ok unfolding Check_Ok_iff by auto
qed

text \<open>C14: the decision. When the API server's answers do not change over time, the check returns
  a target exactly when the request carries impersonation headers, names a user, carries no header
  the check does not know, and every review its headers need is allowed.\<close>

theorem sar_allowed_iff:
  assumes "\<And>t t' s. sar_create E t s = sar_create E t' s"
  shows "(\<exists>u req' t'. CheckAuthorizedForImpersonation E req requester t = (Ok (Some u, req'), t')) \<longleftrightarrow>
    filter is_impersonation (Header req) \<noteq> [] \<and>
    Get (Header req) ''Impersonate-User'' \<noteq> [] \<and>
    (\<forall>kv \<in> set (filter is_impersonation (Header req)). known_attribute kv) \<and>
    (\<forall>(r, n) \<in> set (header_needs (Header req)). sar_create E [] (rbac_spec r n requester) = Inr True)"
  using assms by (rule sar_decision)

theorem sar_allowed_iff_witness:
  "\<exists>u req' t'. CheckAuthorizedForImpersonation fake_env (header_request jjackson_header) mmosley []
     = (Ok (Some u, req'), t')"
proof -
  have static: "\<And>t t' s. sar_create fake_env t s = sar_create fake_env t' s"
    by (simp add: fake_env_def)
  have "filter is_impersonation (Header (header_request jjackson_header)) \<noteq> []"
    "Get (Header (header_request jjackson_header)) ''Impersonate-User'' \<noteq> []"
    "\<forall>kv \<in> set (filter is_impersonation (Header (header_request jjackson_header))). known_attribute kv"
    "\<forall>(r, n) \<in> set (header_needs (Header (header_request jjackson_header))).
       sar_create fake_env [] (rbac_spec r n mmosley) = Inr True"
    by code_simp+
  with sar_allowed_iff [OF static, of "header_request jjackson_header" mmosley "[]"] show ?thesis
    by blast
qed

text \<open>C15: Go visits a map in an arbitrary order, and the result does not depend on it: on any
  other order of the same header the check also succeeds, with a target of the same name, uid
  and groups and the same values of every extra field.\<close>

theorem sar_order_irrelevant:
  assumes "\<And>t t' s. sar_create E t s = sar_create E t' s"
    and "wf_header (Header req)" and "wf_header h'" and "set h' = set (Header req)"
    and "CheckAuthorizedForImpersonation E req requester t = (Ok (Some u, req'), t')"
  shows "\<exists>u2 req2 t2. CheckAuthorizedForImpersonation E (req\<lparr>Header := h'\<rparr>) requester t
      = (Ok (Some u2, req2), t2) \<and> Name u2 = Name u \<and> UID u2 = UID u \<and> Groups u2 = Groups u \<and>
      (\<forall>k. mm_vals (extra_of u2) k = mm_vals (extra_of u) k)"
proof -
  have same: "Values h' k = Values (Header req) k" for k
    using assms(2-4) wf_header_same_set wf_header_wf_map by metis
  then have get: "Get h' k = Get (Header req) k" for k by (simp add: Get_Values)
  have "set (filter is_impersonation h') = set (filter is_impersonation (Header req))"
    "set (header_needs h') = set (header_needs (Header req))"
    using assms(4) by (simp_all add: header_needs_def)
  moreover have "\<exists>u req' t'. CheckAuthorizedForImpersonation E req requester t = (Ok (Some u, req'), t')"
    using assms(5) by blast
  ultimately have "\<exists>u req' t'. CheckAuthorizedForImpersonation E (req\<lparr>Header := h'\<rparr>) requester t
      = (Ok (Some u, req'), t')"
    using get unfolding sar_decision [OF assms(1)] by (simp add: filter_empty_conv) blast
  then obtain u2 req2 t2 where run: "CheckAuthorizedForImpersonation E (req\<lparr>Header := h'\<rparr>) requester t
      = (Ok (Some u2, req2), t2)" by blast
  note old = Check_Ok_Some(1) [OF assms(5)] and new = Check_Ok_Some(1) [OF run]
  have "Name u2 = Name u \<and> UID u2 = UID u \<and> Groups u2 = Groups u \<and>
      (\<forall>k. mm_vals (extra_of u2) k = mm_vals (extra_of u) k)"
    using assms(2,3)
    by (simp add: old new target_name target_uid target_groups target_extra same get)
  with run show ?thesis by blast
qed


theorem sar_order_irrelevant_witness:
  "\<exists>u2 r2 t2. CheckAuthorizedForImpersonation fake_env (header_request (rev jjackson_header)) mmosley []
      = (Ok (Some u2, r2), t2) \<and> Name u2 = ''jjackson''"
proof -
  have static: "\<And>t t' s. sar_create fake_env t s = sar_create fake_env t' s"
    by (simp add: fake_env_def)
  have h: "Header (header_request jjackson_header) = jjackson_header"
    "(header_request jjackson_header)\<lparr>Header := rev jjackson_header\<rparr> = header_request (rev jjackson_header)"
    by (simp_all add: header_request_def)
  have wf: "wf_header (rev jjackson_header)" by code_simp
  obtain u req' t' where run: "CheckAuthorizedForImpersonation fake_env (header_request jjackson_header)
      mmosley [] = (Ok (Some u, req'), t')"
    using authorizedE [OF jjackson_run] by blast
  have "Name u = ''jjackson''"
    using run jjackson_name by simp
  with sar_order_irrelevant [OF static _ wf _ run, unfolded h] wf_jjackson_header show ?thesis
    by auto
qed

text \<open>a request that carries an impersonation header but names no user is refused before any
  review is made.\<close>

lemma sar_no_user_refused:
  assumes "filter is_impersonation (Header req) \<noteq> []"
    and "Get (Header req) ''Impersonate-User'' = []"
  shows "CheckAuthorizedForImpersonation E req requester t = (Err ErrNoImpersonationUserFound, t)"
  using assms rbac.check_headers_no_user [of "Header req"]
  by (simp add: CheckAuthorizedForImpersonation_def Get_impersonate_user)

text \<open>The check itself never panics on the header of an incoming request.\<close>

lemma sar_no_panic:
  "wf_header (Header req) \<Longrightarrow> fst (CheckAuthorizedForImpersonation E req requester t) \<noteq> Panic"
  using rbac.check_headers_no_panic [of "Header req"]
  by (auto simp: CheckAuthorizedForImpersonation_def Let_def wf_header_def list_all_iff
      split: prod.splits)

section \<open>Errors of the check\<close>

definition not_allowed :: string where
  "not_allowed = ''not allowed to impersonate''"

lemma denied_msg_not_allowed: "sublist not_allowed (Error (denied_msg rn what n))"
proof -
  have "Error (denied_msg rn what n) = (rn @ '' is '') @ not_allowed @ ('' '' @ what @ '' '' @ quoted n)"
    by (simp add: denied_msg_def not_allowed_def)
  then show ?thesis by (metis sublist_appendI)
qed

lemma denied_extra_not_allowed: "sublist not_allowed (Error (denied_extra rn k n))"
proof -
  have "Error (denied_extra rn k n) = (rn @ '' is '') @ not_allowed @ ('' extra info '' @ quoted k @ ''='' @ quoted n)"
    by (simp add: denied_extra_def not_allowed_def)
  then show ?thesis by (metis sublist_appendI)
qed

end
