(* ===== verification/Handlers.thy ===== *)
theory Handlers
  imports Proxy_State Subject_Access_Review
begin

text \<open>
  \<open>pkg/proxy/handlers.go\<close>: the chain of handlers a request passes before it is forwarded, and the
  error handler.  The extra fields of a user are a Go map that the impersonation handler changes
  in place; the model writes the changed map back to every place that shares it: the inbound
  user of the configuration and the user kept in the context when the user is not replaced, the
  target user when it is.  A nil map is replaced by a new one that nobody else sees.
\<close>

section \<open>Errors\<close>

definition unauthenticated :: handler where
  "unauthenticated r t = (HttpError 401 ''Unauthorized'', t)"

definition newErrorHandler :: "env \<Rightarrow> ('ss, 'ta) proxy \<Rightarrow> error_handler" where
  "newErrorHandler E p r err t =
     (case err of
        None \<Rightarrow> (HttpError 500 [], t)
      | Some e \<Rightarrow>
          (let t' = LogFailedRequest E r t in
           case e of
             ErrUnauthorized \<Rightarrow> NewUnauthenticatedHandler E (Some (proxyAuditor p)) unauthenticated r t'
           | ErrNoName \<Rightarrow> (HttpError 403 ''Username claim not available in OIDC Issuer response'', t')
           | ErrNoImpersonationConfig \<Rightarrow> (HttpError 500 [], t')
           | ErrNoImpersonationUserFound \<Rightarrow> (HttpError 500 (Error ErrNoImpersonationUserFound), t')
           | ErrMsg m \<Rightarrow>
               if Contains m ''not allowed to impersonate'' then (HttpError 403 m, t')
               else (HttpError 500 [], t')))"

section \<open>Token review\<close>

definition reviewToken :: "env \<Rightarrow> ('ss, 'ta) proxy \<Rightarrow> request \<Rightarrow> trace \<Rightarrow> bool result \<times> trace" where
  "reviewToken E p req t =
     (let (req', remoteAddr) = RemoteAddr E req in
      case Review E (tokenReviewer p) req' t of
        (Err e, t') \<Rightarrow> (Ok False, t')
      | (Ok ok, t') \<Rightarrow> (if \<not> ok then (Ok False, t') else (Ok True, t'))
      | (Panic, t') \<Rightarrow> (Panic, t'))"

definition withTokenReview :: "env \<Rightarrow> ('ss, 'ta) proxy \<Rightarrow> handler \<Rightarrow> handler" where
  "withTokenReview E p h req t =
     (if \<not> TokenReviewEnabled (proxyConfig p) then newErrorHandler E p req (Some ErrUnauthorized) t
      else (case reviewToken E p req t of
          (Ok True, t') \<Rightarrow> h (WithNoImpersonation req) t'
        | (Ok False, t') \<Rightarrow> newErrorHandler E p req (Some ErrUnauthorized) t'
        | (_, t') \<Rightarrow> (Aborted, t')))"

section \<open>Authentication\<close>

definition withAuthenticateRequest :: "env \<Rightarrow> ('ss, 'ta) proxy \<Rightarrow> handler \<Rightarrow> handler" where
  "withAuthenticateRequest E p h req t =
     (let a = bearer_authenticate E t req;
          t' = t @ [AuthnCall req a];
          req' = req\<lparr>Header := AuthHeader a\<rparr>
      in case AuthErr a of
           Some err \<Rightarrow> withTokenReview E p h req' t'
         | None \<Rightarrow>
             if \<not> AuthOk a then newErrorHandler E p req' (Some ErrUnauthorized) t'
             else (let (req2, remoteAddr) = RemoteAddr E req' in
               case AuthInfo a of
                 None \<Rightarrow> (Aborted, t')
               | Some u \<Rightarrow> h (WithContext req2 (WithUser (Context req2) u)) t'))"

section \<open>Impersonation\<close>

definition hasImpersonation :: "header \<Rightarrow> bool" where
  "hasImpersonation h = list_ex (\<lambda>(k, vs). prefix ''impersonate-'' (ToLower k)) h"

definition ensure_authenticated :: "string list \<Rightarrow> string list" where
  "ensure_authenticated groups =
     (if AllAuthenticated \<in> set groups then groups else groups @ [AllAuthenticated])"

definition add_client_ip :: "config \<Rightarrow> string \<Rightarrow> smap \<Rightarrow> smap" where
  "add_client_ip c remoteAddr extra =
     (if ExtraUserHeadersClientIPEnabled c then mm_append UserHeaderClientIPKey remoteAddr extra else extra)"

definition add_user_headers :: "config \<Rightarrow> smap \<Rightarrow> smap" where
  "add_user_headers c extra =
     foldl (\<lambda>extra (k, vs). foldl (\<lambda>extra v. mm_append k v extra) extra vs) extra (ExtraUserHeaders c)"

text \<open>The original user's information, recorded as extra fields of the target.\<close>

definition add_original_user :: "user_info \<Rightarrow> smap \<Rightarrow> smap result" where
  "add_original_user u extra =
     (let extra1 = AList.update ''originaluser.jetstack.io-user'' [Name u] extra;
          extra2 = (if length (Groups u) > 0
                    then AList.update ''originaluser.jetstack.io-groups'' (Groups u) extra1 else extra1);
          extra3 = (if UID u \<noteq> [] then AList.update ''originaluser.jetstack.io-uid'' [UID u] extra2
                    else extra2)
      in if extra_of u \<noteq> [] then
           map_result (\<lambda>jsonExtras. AList.update ''originaluser.jetstack.io-extra'' [jsonExtras] extra3)
             (Marshal (extra_of u))
         else Ok extra3)"

text \<open>The extra fields of the request to come, from those of the user it is made for.\<close>

definition final_extra :: "config \<Rightarrow> string \<Rightarrow> user_info \<Rightarrow> user_info option \<Rightarrow> smap result" where
  "final_extra c remoteAddr userForContext target =
     (let extra = add_user_headers c (add_client_ip c remoteAddr
                    (extra_of (case target of None \<Rightarrow> userForContext | Some u \<Rightarrow> u)))
      in case target of None \<Rightarrow> Ok extra | Some _ \<Rightarrow> add_original_user userForContext extra)"

definition share_extra :: "smap \<Rightarrow> user_info \<Rightarrow> user_info" where
  "share_extra extra u = (case Extra u of None \<Rightarrow> u | Some _ \<Rightarrow> u\<lparr>Extra := Some extra\<rparr>)"

definition impersonate_as :: "env \<Rightarrow> ('ss, 'ta) proxy \<Rightarrow> handler \<Rightarrow> string \<Rightarrow> user_info \<Rightarrow>
    user_info option \<Rightarrow> handler" where
  "impersonate_as E p h remoteAddr userForContext target req t =
     (case final_extra (proxyConfig p) remoteAddr userForContext target of
        Err e \<Rightarrow> newErrorHandler E p req (Some e) t
      | Panic \<Rightarrow> (Aborted, t)
      | Ok extra \<Rightarrow>
          (let user = (case target of None \<Rightarrow> userForContext | Some u \<Rightarrow> u);
               inbound = (case target of None \<Rightarrow> share_extra extra userForContext | Some _ \<Rightarrow> userForContext);
               conf = \<lparr>Config = \<lparr>ImpUserName = Name user, ImpUID = [],
                                 ImpGroups = ensure_authenticated (Groups user), ImpExtra = extra\<rparr>,
                       InboundUser = inbound, ImpersonatedUser = map_option (share_extra extra) target\<rparr>;
               req' = WithContext req (WithUser (Context req) inbound)
           in h (WithImpersonationConfig req' conf) t))"

definition withImpersonateRequest :: "env \<Rightarrow> ('ss, 'ta) proxy \<Rightarrow> handler \<Rightarrow> handler" where
  "withImpersonateRequest E p h req t =
     (if NoImpersonation req then h req t
      else (let (req', remoteAddr) = RemoteAddr E req in
        if DisableImpersonation (proxyConfig p) then h (WithNoImpersonation req') t
        else (case UserFrom (Context req') of
            None \<Rightarrow> newErrorHandler E p req' (Some ErrNoName) t
          | Some user \<Rightarrow>
              if Name user = [] then newErrorHandler E p req' (Some ErrNoName) t
              else if hasImpersonation (Header req') then
                (case CheckAuthorizedForImpersonation E req' user t of
                   (Err err, t') \<Rightarrow> newErrorHandler E p req' (Some err) t'
                 | (Panic, t') \<Rightarrow> (Aborted, t')
                 | (Ok (target, req2), t') \<Rightarrow> impersonate_as E p h remoteAddr user target req2 t')
              else impersonate_as E p h remoteAddr user None req' t)))"

section \<open>The chain\<close>

definition withHandlers :: "env \<Rightarrow> ('ss, 'ta) proxy \<Rightarrow> handler \<Rightarrow> handler \<times> ('ss, 'ta) proxy" where
  "withHandlers E p h =
     (withAuthenticateRequest E p (withImpersonateRequest E p (WithRequest E h)),
      p\<lparr>proxyHooks := AddPreShutdownHook ''AuditBackend'' (Shutdown (proxyAuditor p)) (proxyHooks p)\<rparr>)"

end
