(* ===== verification/Reverse_Proxy.thy ===== *)
theory Reverse_Proxy
  imports Proxy_State
begin

text \<open>
  What the source uses of \<open>net/http/httputil\<close>: the handler of \<open>NewSingleHostReverseProxy\<close> with
  the proxy as its transport and the proxy's error handler.  Before the round trip it joins the
  paths, drops the hop-by-hop fields and those the client's Connection field names, and records
  the client's address.  The scheme and host that every outgoing request gets, the body and the
  streaming of the response are not part of the model's requests.
\<close>

section \<open>Tokens of field values\<close>

definition trim_by :: "(char \<Rightarrow> bool) \<Rightarrow> string \<Rightarrow> string" where
  "trim_by P s = rev (dropWhile P (rev (dropWhile P s)))"

definition trimOWS :: "string \<Rightarrow> string" where
  "trimOWS s = trim_by (\<lambda>c. c = CHR '' '' \<or> c = CHR 0x09) s"

definition TrimString :: "string \<Rightarrow> string" where
  "TrimString s = trim_by (\<lambda>c. c = CHR '' '' \<or> c = CHR 0x09 \<or> c = CHR 0x0A \<or> c = CHR 0x0D) s"

definition HeaderValuesContainsToken :: "string list \<Rightarrow> string \<Rightarrow> bool" where
  "HeaderValuesContainsToken vs token =
     list_ex (\<lambda>v. list_ex (\<lambda>w. ToLower (trimOWS w) = ToLower token) (split_on (CHR '','') v)) vs"

definition IsPrint :: "string \<Rightarrow> bool" where
  "IsPrint s = list_all (\<lambda>c. 32 \<le> (of_char c :: nat) \<and> (of_char c :: nat) \<le> 126) s"

definition upgradeType :: "header \<Rightarrow> string" where
  "upgradeType h =
     (if HeaderValuesContainsToken (mm_vals h ''Connection'') ''Upgrade'' then Get h ''Upgrade'' else [])"

definition hopHeaders :: "string list" where
  "hopHeaders = [''Connection'', ''Proxy-Connection'', ''Keep-Alive'', ''Proxy-Authenticate'',
     ''Proxy-Authorization'', ''Te'', ''Trailer'', ''Transfer-Encoding'', ''Upgrade'']"

definition connection_tokens :: "header \<Rightarrow> string list" where
  "connection_tokens h =
     filter (\<lambda>w. w \<noteq> []) (map TrimString (concat (map (split_on (CHR '','')) (mm_vals h ''Connection''))))"

definition removeHopByHopHeaders :: "header \<Rightarrow> header" where
  "removeHopByHopHeaders h = foldl Del (foldl Del h (connection_tokens h)) hopHeaders"

section \<open>The client's address\<close>

definition last_index :: "char \<Rightarrow> string \<Rightarrow> nat option" where
  "last_index c s =
     (if c \<in> set s then Some (length s - 1 - length (takeWhile (\<lambda>x. x \<noteq> c) (rev s))) else None)"

text \<open>\<open>net.SplitHostPort\<close>, of which only the host and whether it fails matter.\<close>

definition SplitHostPort :: "string \<Rightarrow> string option" where
  "SplitHostPort hostport =
     (case last_index (CHR '':'') hostport of
        None \<Rightarrow> None
      | Some i \<Rightarrow>
          if hostport \<noteq> [] \<and> hd hostport = CHR ''['' then
            (let e = length (takeWhile (\<lambda>x. x \<noteq> CHR '']'') hostport) in
             if e < length hostport \<and> e + 1 = i
                \<and> CHR ''['' \<notin> set (drop 1 hostport) \<and> CHR '']'' \<notin> set (drop (e + 1) hostport)
             then Some (drop 1 (take e hostport)) else None)
          else (let host = take i hostport in
             if CHR '':'' \<in> set host \<or> CHR ''['' \<in> set hostport \<or> CHR '']'' \<in> set hostport
             then None else Some host))"

definition add_forwarded_for :: "string \<Rightarrow> header \<Rightarrow> header" where
  "add_forwarded_for remoteAddr h =
     (case SplitHostPort remoteAddr of
        None \<Rightarrow> h
      | Some clientIP \<Rightarrow>
          SetHeader h ''X-Forwarded-For''
            (let prior = mm_vals h ''X-Forwarded-For'' in
             if prior \<noteq> [] then join '', '' prior @ '', '' @ clientIP else clientIP))"

section \<open>The outgoing request\<close>

definition singleJoiningSlash :: "string \<Rightarrow> string \<Rightarrow> string" where
  "singleJoiningSlash a b =
     (let aslash = suffix ''/'' a; bslash = prefix ''/'' b in
      if aslash \<and> bslash then a @ tl b
      else if \<not> aslash \<and> \<not> bslash then a @ ''/'' @ b
      else a @ b)"

definition director :: "url \<Rightarrow> request \<Rightarrow> request" where
  "director target req =
     req\<lparr>URL := \<lparr>Path = singleJoiningSlash (Path target) (Path (URL req)),
                RawQuery = (if RawQuery target = [] \<or> RawQuery (URL req) = []
                            then RawQuery target @ RawQuery (URL req)
                            else RawQuery target @ ''&'' @ RawQuery (URL req))\<rparr>\<rparr>"

definition keep_upgrade :: "header \<Rightarrow> header \<Rightarrow> header" where
  "keep_upgrade h out =
     (let out1 = (if HeaderValuesContainsToken (mm_vals h ''Te'') ''trailers''
                  then SetHeader out ''Te'' ''trailers'' else out)
      in if upgradeType h \<noteq> [] then SetHeader (SetHeader out1 ''Connection'' ''Upgrade'') ''Upgrade'' (upgradeType h)
         else out1)"

definition outgoing_header :: "string \<Rightarrow> header \<Rightarrow> header" where
  "outgoing_header remoteAddr h =
     (let h1 = add_forwarded_for remoteAddr (keep_upgrade h (removeHopByHopHeaders h)) in
      if ''User-Agent'' \<in> key_set h1 then h1 else SetHeader h1 ''User-Agent'' [])"

type_synonym round_tripper = "request \<Rightarrow> trace \<Rightarrow> response result \<times> trace"

definition reverse_proxy :: "url \<Rightarrow> round_tripper \<Rightarrow> error_handler \<Rightarrow> handler" where
  "reverse_proxy target rt errh req t =
     (let outreq = director target req in
      if \<not> IsPrint (upgradeType (Header req)) then
        errh outreq
          (Some (ErrMsg (''client tried to switch to invalid protocol '' @ go_quote (upgradeType (Header req))))) t
      else
        (let outreq' = outreq\<lparr>Header := outgoing_header (ReqRemoteAddr req) (Header req)\<rparr> in
         case rt outreq' t of
           (Ok resp, t') \<Rightarrow> (Upstream resp, t')
         | (Err err, t') \<Rightarrow> errh outreq' (Some err) t'
         | (Panic, t') \<Rightarrow> (Aborted, t')))"

end
