(* ===== verification/Options.thy ===== *)
theory Options
  imports Prelude
begin

text \<open>
  \<open>cmd/app/options\<close>: the options of the command, their flags with the defaults, and their
  validation.  Parsing the command line belongs to the flag library: what it leaves is the
  options records and the set of flags that were given.  The options of the API server library
  (serving, audit, client) are parameters, of which the source uses the bind address, the port
  and the errors of their own validation.  Durations are in nanoseconds.
\<close>

section \<open>Options and flags\<close>

datatype flag_default =
    FString string | FBool bool | FInt int | FDuration int | FStringSlice "string list"
  | FStringMap | FStringToStringSlice

type_synonym flag_set = "(string \<times> flag_default) list"

record oidc_options =
  OidcCAFile :: string
  ClientID :: string
  IssuerURL :: string
  UsernameClaim :: string
  UsernamePrefix :: string
  GroupsClaim :: string
  GroupsPrefix :: string
  SigningAlgs :: "string list"
  RequiredClaims :: "(string \<times> string) list"

definition oidc_flags :: flag_set where
  "oidc_flags =
     [(''oidc-issuer-url'', FString []), (''oidc-client-id'', FString []), (''oidc-ca-file'', FString []),
      (''oidc-username-claim'', FString ''sub''), (''oidc-username-prefix'', FString []),
      (''oidc-groups-claim'', FString []), (''oidc-groups-prefix'', FString []),
      (''oidc-signing-algs'', FStringSlice [''RS256'']), (''oidc-required-claim'', FStringMap)]"

definition NewOIDCAuthenticationOptions :: oidc_options where
  "NewOIDCAuthenticationOptions =
     \<lparr>OidcCAFile = [], ClientID = [], IssuerURL = [], UsernameClaim = ''sub'', UsernamePrefix = [],
      GroupsClaim = [], GroupsPrefix = [], SigningAlgs = [''RS256''], RequiredClaims = []\<rparr>"

record app_options =
  SuffixMappingFile :: string
  AppDisableImpersonation :: bool
  ReadinessProbePort :: int
  AppFlushInterval :: int
  EnableClientIPExtraUserHeader :: bool
  AppExtraUserHeaders :: smap
  PassthroughAudiences :: "string list"
  PassthroughEnabled :: bool

definition token_passthrough_flags :: flag_set where
  "token_passthrough_flags =
     [(''token-passthrough-audiences'', FStringSlice []), (''token-passthrough'', FBool False)]"

definition extra_header_flags :: flag_set where
  "extra_header_flags =
     [(''extra-user-header-client-ip'', FBool False), (''extra-user-headers'', FStringToStringSlice)]"

definition app_flags :: flag_set where
  "app_flags =
     [(''ns-mapping-file'', FString []), (''disable-impersonation'', FBool False),
      (''readiness-probe-port'', FInt 8080), (''flush-interval'', FDuration (50 * 1000000))]
     @ token_passthrough_flags @ extra_header_flags"

definition NewKubeOIDCProxyOptions :: app_options where
  "NewKubeOIDCProxyOptions =
     \<lparr>SuffixMappingFile = [], AppDisableImpersonation = False, ReadinessProbePort = 8080,
      AppFlushInterval = 50 * 1000000, EnableClientIPExtraUserHeader = False,
      AppExtraUserHeaders = [], PassthroughAudiences = [], PassthroughEnabled = False\<rparr>"

record serving_options =
  BindAddress :: string
  BindPort :: int
  ServingRequired :: bool
  PairName :: string
  CertDirectory :: string

definition AppName :: string where
  "AppName = ''kube-oidc-proxy''"

definition NewSecureServingOptions :: serving_options where
  "NewSecureServingOptions =
     \<lparr>BindAddress = ''0.0.0.0'', BindPort = 6443, ServingRequired = True, PairName = AppName,
      CertDirectory = ''/var/run/kubernetes''\<rparr>"

record options =
  App :: app_options
  OIDCAuthentication :: oidc_options
  SecureServingOpts :: serving_options

definition NewOptions :: options where
  "NewOptions =
     \<lparr>App = NewKubeOIDCProxyOptions, OIDCAuthentication = NewOIDCAuthenticationOptions,
      SecureServingOpts = NewSecureServingOptions\<rparr>"

section \<open>The client's flags\<close>

definition clientOptionFlags :: "string list" where
  "clientOptionFlags =
     [''certificate-authority'', ''client-certificate'', ''client-key'', ''cluster'',
      ''context'', ''insecure-skip-tls-verify'', ''kubeconfig'', ''namespace'',
      ''request-timeout'', ''server'', ''token'', ''user'']"

text \<open>A command's flags: whether a flag of that name exists, and if so whether it was given.\<close>

type_synonym flag_state = "string \<rightharpoonup> bool"

definition ClientFlagsChanged :: "flag_state \<Rightarrow> bool" where
  "ClientFlagsChanged flag = list_ex (\<lambda>f. case flag f of None \<Rightarrow> False | Some changed \<Rightarrow> changed) clientOptionFlags"

section \<open>Validation\<close>

definition ValidateOIDC :: "oidc_options \<Rightarrow> go_error option" where
  "ValidateOIDC o' =
     (if (length (IssuerURL o') > 0) \<noteq> (length (ClientID o') > 0)
      then Some (ErrMsg ''oidc-issuer-url and oidc-client-id should be specified together'')
      else None)"

datatype validation = Exited | Validated "go_error option"

definition port_error :: go_error where
  "port_error = ErrMsg ''unable to securely serve on port 8080 (used by readiness probe)''"

definition extra_headers_error :: go_error where
  "extra_headers_error = ErrMsg ''cannot add extra user headers when impersonation disabled''"

definition validation_errors :: "go_error list \<Rightarrow> go_error list \<Rightarrow> options \<Rightarrow> go_error list" where
  "validation_errors serving_errs audit_errs opts =
     (case ValidateOIDC (OIDCAuthentication opts) of None \<Rightarrow> [] | Some e \<Rightarrow> [e])
     @ serving_errs
     @ (if BindPort (SecureServingOpts opts) = ReadinessProbePort (App opts) then [port_error] else [])
     @ audit_errs
     @ (if AppDisableImpersonation (App opts) \<and>
           (EnableClientIPExtraUserHeader (App opts) \<or> length (AppExtraUserHeaders (App opts)) > 0)
        then [extra_headers_error] else [])"

text \<open>\<open>Validate\<close>: the version flag prints the version and ends the process.\<close>

definition Validate :: "(go_error list \<Rightarrow> go_error option) \<Rightarrow> bool \<Rightarrow> go_error list \<Rightarrow> go_error list \<Rightarrow>
    options \<Rightarrow> validation" where
  "Validate aggregate version_flag serving_errs audit_errs opts =
     (if version_flag then Exited
      else (let errs = validation_errors serving_errs audit_errs opts in
        Validated (if length errs > 0 then aggregate errs else None)))"

section \<open>Properties\<close>

text \<open>C34: the options pass validation exactly when none of the checks fails: the issuer and the
  client are given together, the two ports differ, no extra user headers are asked for without
  impersonation, and the library has no complaint; the library's aggregation makes an error of
  every nonempty list of errors.\<close>

theorem validate_iff:
  assumes "\<And>es. es \<noteq> [] \<Longrightarrow> aggregate es \<noteq> None"
  shows "Validate aggregate False serving_errs audit_errs opts = Validated None \<longleftrightarrow>
    ((IssuerURL (OIDCAuthentication opts) = []) = (ClientID (OIDCAuthentication opts) = []) \<and>
     BindPort (SecureServingOpts opts) \<noteq> ReadinessProbePort (App opts) \<and>
     (AppDisableImpersonation (App opts) \<longrightarrow>
        \<not> EnableClientIPExtraUserHeader (App opts) \<and> AppExtraUserHeaders (App opts) = []) \<and>
     serving_errs = [] \<and> audit_errs = [])"
proof -
  have "Validate aggregate False serving_errs audit_errs opts = Validated None \<longleftrightarrow>
      validation_errors serving_errs audit_errs opts = []"
    using assms by (cases "validation_errors serving_errs audit_errs opts") (auto simp: Validate_def Let_def)
  then show ?thesis by (auto simp: validation_errors_def ValidateOIDC_def)
qed

theorem validate_iff_witness:
  "Validate (\<lambda>es. case es of [] \<Rightarrow> None | e # _ \<Rightarrow> Some e) False [] [] NewOptions = Validated None"
proof -
  have "es \<noteq> [] \<Longrightarrow> (case es of [] \<Rightarrow> None | e # _ \<Rightarrow> Some e) \<noteq> None" for es :: "go_error list"
    by (cases es) auto
  from validate_iff [OF this] show ?thesis
    by (simp add: NewOptions_def NewKubeOIDCProxyOptions_def NewOIDCAuthenticationOptions_def
        NewSecureServingOptions_def)
qed

text \<open>The source registers no flag name twice.\<close>

lemma distinct_flags: "distinct (keys_of (app_flags @ oidc_flags) @ clientOptionFlags)"
  by code_simp

end
