(* ===== verification/Proxy.thy ===== *)
theory Proxy
  imports Handlers Reverse_Proxy Options
begin

text \<open>
  \<open>pkg/proxy/proxy.go\<close>: building the proxy, starting it, and the last round trip, which decides
  how a request goes upstream.  The record \<open>platform\<close> holds what starting the proxy takes from
  outside: files, the OIDC authenticator, the audit options, the client configuration, URL
  parsing and the TLS server.  Once started, the proxy is the handler \<open>served\<close>.
\<close>

section \<open>Construction\<close>

record jwt_config =
  IssuerUrl :: string
  IssuerAudiences :: "string list"
  CertificateAuthority :: string
  UsernameMapping :: "string \<times> string"
  GroupsMapping :: "string \<times> string"

record authenticator_options =
  CAContentProvider :: string
  SupportedSigningAlgs :: "string list"
  JWTAuthenticator :: jwt_config

record ('ss, 'ta) platform =
  read_bytes :: "string \<Rightarrow> go_error + string"
  oidc_new :: "authenticator_options \<Rightarrow> go_error + 'ta"
  audit_apply :: "'ss server_config \<Rightarrow> go_error + 'ss server_config"
  audit_complete :: "'ss server_config \<Rightarrow> 'ss server_config"
  tls_config_for :: "rest_config \<Rightarrow> go_error option"
  transport_config :: "rest_config \<Rightarrow> go_error option"
  http_wrappers :: "rest_config \<Rightarrow> go_error option"
  parse_url :: "string \<Rightarrow> go_error + url"
  serve_error :: "'ss \<Rightarrow> go_error option"

text \<open>A CA file that cannot be read counts as empty.\<close>

definition CurrentCABundleContent :: "(string \<Rightarrow> go_error + string) \<Rightarrow> string \<Rightarrow> string" where
  "CurrentCABundleContent read caFile = (case read caFile of Inl _ \<Rightarrow> [] | Inr res \<Rightarrow> res)"

definition authenticator_for :: "(string \<Rightarrow> go_error + string) \<Rightarrow> oidc_options \<Rightarrow> authenticator_options" where
  "authenticator_for read o' =
     \<lparr>CAContentProvider = OidcCAFile o', SupportedSigningAlgs = SigningAlgs o',
      JWTAuthenticator =
        \<lparr>IssuerUrl = IssuerURL o', IssuerAudiences = [ClientID o'],
         CertificateAuthority = CurrentCABundleContent read (OidcCAFile o'),
         UsernameMapping = (UsernameClaim o', UsernamePrefix o'),
         GroupsMapping = (GroupsClaim o', GroupsPrefix o')\<rparr>\<rparr>"

definition New :: "('ss, 'ta) platform \<Rightarrow> rest_config \<Rightarrow> oidc_options \<Rightarrow> token_reviewer option \<Rightarrow> 'ss \<Rightarrow>
    config \<Rightarrow> ('ss, 'ta) proxy result" where
  "New S rest oidcOptions reviewer ssinfo c =
     (case oidc_new S (authenticator_for (read_bytes S) oidcOptions) of
        Inl e \<Rightarrow> Err e
      | Inr auther \<Rightarrow>
          (case NewAudit (audit_apply S) (audit_complete S) (ExternalAddress c) ssinfo of
             Err e \<Rightarrow> Err e
           | Panic \<Rightarrow> Panic
           | Ok auditor \<Rightarrow>
               (case NewCustomNamespaceRoundTripper (read_bytes S) (ConfigNSMappingFile c) of
                  Err e \<Rightarrow> Err e
                | Panic \<Rightarrow> Panic
                | Ok ns \<Rightarrow>
                    Ok \<lparr>oidcRequestAuther = auther, tokenAuther = auther, tokenReviewer = reviewer,
                        secureServingInfo = ssinfo, proxyAuditor = auditor, restConfig = rest,
                        clientTransport = None, noAuthClientTransport = None,
                        namespaceTransport = Some ns, proxyConfig = c, proxyHooks = NewHooks\<rparr>)))"

section \<open>Starting\<close>

definition roundTripperForRestConfig :: "('ss, 'ta) platform \<Rightarrow> rest_config \<Rightarrow> transport result" where
  "roundTripperForRestConfig S cfg =
     (case tls_config_for S cfg of
        Some e \<Rightarrow> Err e
      | None \<Rightarrow>
          (case transport_config S cfg of
             Some e \<Rightarrow> Err e
           | None \<Rightarrow>
               (case http_wrappers S cfg of Some e \<Rightarrow> Err e | None \<Rightarrow> Ok (RestTransport cfg))))"

definition set_namespace_transport :: "transport \<Rightarrow> ('ss, 'ta) proxy \<Rightarrow> ('ss, 'ta) proxy" where
  "set_namespace_transport tr p =
     p\<lparr>namespaceTransport := map_option (\<lambda>n. n\<lparr>Transport := tr\<rparr>) (namespaceTransport p)\<rparr>"

text \<open>The configuration of the client without credentials.\<close>

definition no_auth_config :: "rest_config \<Rightarrow> rest_config" where
  "no_auth_config cfg =
     \<lparr>APIPath = APIPath cfg, Host = Host cfg, Timeout = Timeout cfg,
      CAFile = CAFile cfg, CAData = CAData cfg, Credentials = []\<rparr>"

definition set_transports :: "('ss, 'ta) platform \<Rightarrow> ('ss, 'ta) proxy \<Rightarrow> ('ss, 'ta) proxy result" where
  "set_transports S p =
     (case roundTripperForRestConfig S (restConfig p) of
        Err e \<Rightarrow> Err e
      | Panic \<Rightarrow> Panic
      | Ok clientRT \<Rightarrow>
          (let p1 = set_namespace_transport clientRT (p\<lparr>clientTransport := Some clientRT\<rparr>) in
           if DisableImpersonation (proxyConfig p) \<or> TokenReviewEnabled (proxyConfig p) then
             (case roundTripperForRestConfig S (no_auth_config (restConfig p)) of
                Err e \<Rightarrow> Err e
              | Panic \<Rightarrow> Panic
              | Ok noAuthRT \<Rightarrow>
                  Ok (set_namespace_transport noAuthRT (p1\<lparr>noAuthClientTransport := Some noAuthRT\<rparr>)))
           else Ok p1))"

section \<open>The last round trip\<close>

definition RoundTrip :: "env \<Rightarrow> ('ss, 'ta) proxy \<Rightarrow> round_tripper" where
  "RoundTrip E p req t =
     (if NoImpersonation req then
        (let req' = req\<lparr>Header := Add (Header req) ''Authorization'' (BearerToken req)\<rparr> in
         case noAuthClientTransport p of
           None \<Rightarrow> (Panic, t)
         | Some tr \<Rightarrow> send_via E tr req' t)
      else (case ImpersonationConfig req of
          None \<Rightarrow> (Err ErrNoImpersonationConfig, t)
        | Some conf \<Rightarrow>
            (let t' = LogSuccessfulRequest E req (InboundUser conf) (ImpersonatedUser conf) t;
                 req' = impersonate E (Config conf) req
             in case namespaceTransport p of
                  Some ns \<Rightarrow> NamespaceRoundTrip E ns req' t'
                | None \<Rightarrow>
                    (case clientTransport p of
                       None \<Rightarrow> (Panic, t')
                     | Some tr \<Rightarrow> send_via E tr req' t'))))"

section \<open>Running\<close>

text \<open>\<open>serve\<close>: the handler chain around the reverse proxy; the audit backend must start.\<close>

definition serve :: "env \<Rightarrow> ('ss, 'ta) platform \<Rightarrow> ('ss, 'ta) proxy \<Rightarrow> handler \<Rightarrow> trace \<Rightarrow>
    (handler \<times> ('ss, 'ta) proxy) result \<times> trace" where
  "serve E S p h t =
     (let (h', p') = withHandlers E p h in
      case RunAudit (proxyAuditor p') t of
        (Some e, t') \<Rightarrow> (Err e, t')
      | (None, t') \<Rightarrow>
          (case serve_error S (secureServingInfo p') of
             Some e \<Rightarrow> (Err e, t') | None \<Rightarrow> (Ok (h', p'), t')))"

definition Run :: "env \<Rightarrow> ('ss, 'ta) platform \<Rightarrow> ('ss, 'ta) proxy \<Rightarrow> trace \<Rightarrow>
    (handler \<times> ('ss, 'ta) proxy) result \<times> trace" where
  "Run E S p t =
     (case set_transports S p of
        Err e \<Rightarrow> (Err e, t)
      | Panic \<Rightarrow> (Panic, t)
      | Ok p' \<Rightarrow>
          (case parse_url S (Host (restConfig p')) of
             Inl e \<Rightarrow> (Err (ErrMsg (''failed to parse url: '' @ Error e)), t)
           | Inr target \<Rightarrow>
               serve E S p' (reverse_proxy target (RoundTrip E p') (newErrorHandler E p')) t))"

definition served :: "env \<Rightarrow> ('ss, 'ta) proxy \<Rightarrow> url \<Rightarrow> handler" where
  "served E p target =
     withAuthenticateRequest E p (withImpersonateRequest E p (WithRequest E
       (reverse_proxy target (RoundTrip E p) (newErrorHandler E p))))"

definition OIDCTokenAuthenticator :: "('ss, 'ta) proxy \<Rightarrow> 'ta" where
  "OIDCTokenAuthenticator p = tokenAuther p"

definition RunHooks :: "(go_error list \<Rightarrow> go_error option) \<Rightarrow> ('ss, 'ta) proxy \<Rightarrow> trace \<Rightarrow>
    go_error option \<times> trace" where
  "RunHooks aggregate p t = RunPreShutdownHooks aggregate (proxyHooks p) t"

lemma Run_served:
  assumes "Run E S p t = (Ok (h, p'), t')"
  shows "\<exists>p1 target. set_transports S p = Ok p1 \<and> parse_url S (Host (restConfig p1)) = Inr target \<and>
    h = served E p1 target \<and> p' = snd (withHandlers E p1 h)"
  using assms
  by (auto simp: Run_def serve_def withHandlers_def served_def Let_def
      split: result.splits sum.splits prod.splits option.splits)

end
