(* ===== verification/Gate.thy ===== *)
theory Gate
  imports Proxy
begin

text \<open>
  The contract of the handler chain.  \<open>admission\<close> is the policy the chain implements: which
  requests go on and in what shape, and which are refused.  The refinement lemmas show that the
  handlers carry out exactly this policy around any handler that follows, so what holds of the
  policy holds of the chain; the properties follow the admitted request through the audit
  filters, the reverse proxy and the last round trip to what is sent upstream.
\<close>

section \<open>The policy\<close>

datatype verdict = Refused go_error request | Crashed | Forwarded request

fun carry_out :: "env \<Rightarrow> ('ss, 'ta) proxy \<Rightarrow> handler \<Rightarrow> verdict \<times> trace \<Rightarrow> reply \<times> trace" where
  "carry_out E p h (Refused e r, t) = newErrorHandler E p r (Some e) t"
| "carry_out E p h (Crashed, t) = (Aborted, t)"
| "carry_out E p h (Forwarded r, t) = h r t"

definition authentication :: "env \<Rightarrow> ('ss, 'ta) proxy \<Rightarrow> request \<Rightarrow> trace \<Rightarrow> verdict \<times> trace" where
  "authentication E p req t =
     (let a = bearer_authenticate E t req; t' = t @ [AuthnCall req a]; r = req\<lparr>Header := AuthHeader a\<rparr> in
      if AuthErr a = None then
        (if AuthOk a then
           (case AuthInfo a of
              None \<Rightarrow> Crashed
            | Some u \<Rightarrow> (let r' = fst (RemoteAddr E r) in Forwarded (WithContext r' (WithUser (Context r') u))))
         else Refused ErrUnauthorized r, t')
      else if TokenReviewEnabled (proxyConfig p) then
        (case Review E (tokenReviewer p) (fst (RemoteAddr E r)) t' of
           (Ok True, t2) \<Rightarrow> (Forwarded (WithNoImpersonation r), t2)
         | (Panic, t2) \<Rightarrow> (Crashed, t2)
         | (_, t2) \<Rightarrow> (Refused ErrUnauthorized r, t2))
      else (Refused ErrUnauthorized r, t'))"

definition forwarded_as :: "('ss, 'ta) proxy \<Rightarrow> string \<Rightarrow> user_info \<Rightarrow> user_info option \<Rightarrow> request \<Rightarrow> verdict" where
  "forwarded_as p remoteAddr u target r =
     (case final_extra (proxyConfig p) remoteAddr u target of
        Err e \<Rightarrow> Refused e r
      | Panic \<Rightarrow> Crashed
      | Ok extra \<Rightarrow>
          (let w = (case target of None \<Rightarrow> u | Some x \<Rightarrow> x);
               inbound = (case target of None \<Rightarrow> share_extra extra u | Some _ \<Rightarrow> u)
           in Forwarded (WithImpersonationConfig (WithContext r (WithUser (Context r) inbound))
                \<lparr>Config = \<lparr>ImpUserName = Name w, ImpUID = [], ImpGroups = ensure_authenticated (Groups w),
                           ImpExtra = extra\<rparr>,
                 InboundUser = inbound, ImpersonatedUser = map_option (share_extra extra) target\<rparr>)))"

definition impersonation :: "env \<Rightarrow> ('ss, 'ta) proxy \<Rightarrow> request \<Rightarrow> trace \<Rightarrow> verdict \<times> trace" where
  "impersonation E p req t =
     (if NoImpersonation req then (Forwarded req, t)
      else (let (r, addr) = RemoteAddr E req in
        if DisableImpersonation (proxyConfig p) then (Forwarded (WithNoImpersonation r), t)
        else (case UserFrom (Context r) of
            None \<Rightarrow> (Refused ErrNoName r, t)
          | Some u \<Rightarrow>
              if Name u = [] then (Refused ErrNoName r, t)
              else if hasImpersonation (Header r) then
                (case CheckAuthorizedForImpersonation E r u t of
                   (Err e, t') \<Rightarrow> (Refused e r, t')
                 | (Panic, t') \<Rightarrow> (Crashed, t')
                 | (Ok (target, r'), t') \<Rightarrow> (forwarded_as p addr u target r', t'))
              else (forwarded_as p addr u None r, t))))"

definition admission :: "env \<Rightarrow> ('ss, 'ta) proxy \<Rightarrow> request \<Rightarrow> trace \<Rightarrow> verdict \<times> trace" where
  "admission E p req t =
     (case authentication E p req t of
        (Forwarded r, t') \<Rightarrow> impersonation E p r t' | other \<Rightarrow> other)"

section \<open>The handlers implement it\<close>

lemma withTokenReview_policy:
  assumes "AuthErr (bearer_authenticate E t req) \<noteq> None"
  shows "withTokenReview E p h (req\<lparr>Header := AuthHeader (bearer_authenticate E t req)\<rparr>)
      (t @ [AuthnCall req (bearer_authenticate E t req)]) = carry_out E p h (authentication E p req t)"
  using assms
  by (auto simp: withTokenReview_def reviewToken_def authentication_def Let_def case_prod_unfold
      split: result.split bool.split prod.split)

lemma withAuthenticateRequest_policy:
  "withAuthenticateRequest E p h req t = carry_out E p h (authentication E p req t)"
proof (cases "AuthErr (bearer_authenticate E t req)")
  case None
  then show ?thesis
    by (auto simp: withAuthenticateRequest_def authentication_def Let_def case_prod_unfold split: option.split)
next
  case (Some e)
  then show ?thesis
    using withTokenReview_policy [of E t req p h] by (simp add: withAuthenticateRequest_def Let_def)
qed

lemma impersonate_as_policy:
  "impersonate_as E p h addr u target r t = carry_out E p h (forwarded_as p addr u target r, t)"
  by (simp add: impersonate_as_def forwarded_as_def Let_def split: result.split)

lemma withImpersonateRequest_policy:
  "withImpersonateRequest E p h req t = carry_out E p h (impersonation E p req t)"
  by (auto simp: withImpersonateRequest_def impersonation_def impersonate_as_policy Let_def
      split: prod.split option.split result.split)

lemma chain_policy:
  "withAuthenticateRequest E p (withImpersonateRequest E p h) req t = carry_out E p h (admission E p req t)"
  by (auto simp: withAuthenticateRequest_policy withImpersonateRequest_policy admission_def
      split: prod.split verdict.split)

section \<open>What an admitted request is like\<close>

text \<open>The server hands over a request whose context has none of the proxy's own entries.\<close>

definition fresh :: "request \<Rightarrow> bool" where
  "fresh req \<longleftrightarrow> (\<forall>k. Value (Context req) (ProxyKey k) = None)"

lemma fresh_flags:
  "fresh req \<Longrightarrow> \<not> NoImpersonation req" "fresh req \<Longrightarrow> ImpersonationConfig req = None"
  "fresh req \<Longrightarrow> BearerToken req = []"
  by (simp_all add: fresh_def ctx_defs)

lemma header_update_reads [simp]:
  "NoImpersonation (r\<lparr>Header := h\<rparr>) = NoImpersonation r"
  "ImpersonationConfig (r\<lparr>Header := h\<rparr>) = ImpersonationConfig r"
  "BearerToken (r\<lparr>Header := h\<rparr>) = BearerToken r"
  by (simp_all add: ctx_defs)

definition oidc_user :: "env \<Rightarrow> request \<Rightarrow> trace \<Rightarrow> user_info option" where
  "oidc_user E req t =
     (let a = bearer_authenticate E t req in
      if AuthErr a = None \<and> AuthOk a then AuthInfo a else None)"

definition reviewed :: "('ss, 'ta) proxy \<Rightarrow> header \<Rightarrow> trace \<Rightarrow> bool" where
  "reviewed p h t \<longleftrightarrow> (\<exists>tr token st. tokenReviewer p = Some tr \<and>
     (\<forall>r. Header r = h \<longrightarrow> ParseTokenFromRequest (Some r) = (token, True)) \<and>
     ReviewError st = [] \<and> IsAuthenticated st \<and>
     ReviewCall \<lparr>Token = token, Audiences = audiences tr\<rparr> (Inr st) \<in> set t)"

lemma ParseToken_header:
  "Header r = Header r' \<Longrightarrow> ParseTokenFromRequest (Some r) = ParseTokenFromRequest (Some r')"
  by (simp add: ParseTokenFromRequest_def)

lemma Review_True:
  assumes "Review E tr req t = (Ok True, t')"
  shows "\<exists>tr' token st. tr = Some tr' \<and> ParseTokenFromRequest (Some req) = (token, True) \<and>
    ReviewError st = [] \<and> IsAuthenticated st \<and>
    review_create E t \<lparr>Token = token, Audiences = audiences tr'\<rparr> = Inr st \<and>
    t' = t @ [ReviewCall \<lparr>Token = token, Audiences = audiences tr'\<rparr> (Inr st)]"
  using assms
  by (auto simp: Review_def buildReview_def Let_def split: prod.splits if_splits sum.splits option.splits)

lemma Review_true:
  assumes "Review E tr req t = (Ok True, t')" and "tr = tokenReviewer p"
  shows "\<exists>es. t' = t @ es \<and> reviewed p (Header req) es"
proof -
  from Review_True [OF assms(1)] obtain tr' token st where *: "tr = Some tr'"
    "ParseTokenFromRequest (Some req) = (token, True)" "ReviewError st = []" "IsAuthenticated st"
    "t' = t @ [ReviewCall \<lparr>Token = token, Audiences = audiences tr'\<rparr> (Inr st)]" by blast
  moreover have "ParseTokenFromRequest (Some r) = (token, True)" if "Header r = Header req" for r
    using that *(2) ParseToken_header by metis
  ultimately have "reviewed p (Header req) [ReviewCall \<lparr>Token = token, Audiences = audiences tr'\<rparr> (Inr st)]"
    using assms(2) unfolding reviewed_def by (metis list.set_intros(1))
  with *(5) show ?thesis by blast
qed

lemma Review_extends: "Review E tr req t = (r, t') \<Longrightarrow> \<exists>es. t' = t @ es"
  by (auto simp: Review_def Let_def split: prod.splits if_splits sum.splits option.splits)

lemma authentication_Forwarded:
  assumes "authentication E p req t = (Forwarded r, t')" and "fresh req"
  shows "Header r = AuthHeader (bearer_authenticate E t req) \<and> URL r = URL req \<and>
    ReqRemoteAddr r = ReqRemoteAddr req \<and> RequestURI r = RequestURI req \<and>
    ImpersonationConfig r = None \<and> BearerToken r = [] \<and>
    (\<exists>es. t' = t @ es \<and> sent_of es = [] \<and> (NoImpersonation r \<longrightarrow> reviewed p (Header r) es)) \<and>
    (if NoImpersonation r
     then AuthErr (bearer_authenticate E t req) \<noteq> None \<and> TokenReviewEnabled (proxyConfig p)
     else oidc_user E req t = UserFrom (Context r) \<and> UserFrom (Context r) \<noteq> None)"
proof -
  let ?a = "bearer_authenticate E t req"
  let ?r = "req\<lparr>Header := AuthHeader ?a\<rparr>"
  note flags = fresh_flags [OF assms(2)]
  show ?thesis
  proof (cases "AuthErr ?a")
    case None
    with assms(1) flags show ?thesis
      by (auto simp: authentication_def oidc_user_def Let_def split: if_splits option.splits)
  next
    case (Some e)
    with assms(1) have on: "TokenReviewEnabled (proxyConfig p)" and r: "r = WithNoImpersonation ?r"
      and ok: "Review E (tokenReviewer p) (fst (RemoteAddr E ?r)) (t @ [AuthnCall req ?a]) = (Ok True, t')"
      by (auto simp: authentication_def Let_def split: if_splits result.splits prod.splits bool.splits)
    obtain es where es: "t' = (t @ [AuthnCall req ?a]) @ es" "reviewed p (Header r) es" "sent_of es = []"
      using Review_true [OF ok refl] Review_True [OF ok] r by auto
    have "reviewed p (Header r) (AuthnCall req ?a # es)"
      using es(2) unfolding reviewed_def by (metis list.set_intros(2))
    with es have "\<exists>es. t' = t @ es \<and> sent_of es = [] \<and> reviewed p (Header r) es"
      by (intro exI [of _ "AuthnCall req ?a # es"]) simp
    with on r Some flags show ?thesis by (auto simp: ctx_defs)
  qed
qed


lemma hasImpersonation_iff: "hasImpersonation h \<longleftrightarrow> filter is_impersonation h \<noteq> []"
  by (induction h) (auto simp: hasImpersonation_def)

lemma Review_no_sent: "Review E tr req t = (r, t') \<Longrightarrow> \<exists>es. t' = t @ es \<and> sent_of es = []"
  by (auto simp: Review_def Let_def split: prod.splits if_splits sum.splits option.splits)

lemma sent_of_sar: "sent_of (map (\<lambda>(r, n). SarCall (f r n) (g r n)) rns) = []"
  by (induction rns) auto

text \<open>Whom the request is made as: the authenticated user, or a target the API server allowed.\<close>

definition may_act_as :: "header \<Rightarrow> user_info \<Rightarrow> user_info \<Rightarrow> trace \<Rightarrow> bool" where
  "may_act_as h u w es \<longleftrightarrow>
     (if filter is_impersonation h = [] then w = u
      else Name w = Get h ''Impersonate-User'' \<and> Groups w = Values h ''Impersonate-Group'' \<and>
        SarCall (rbac_spec ''users'' (Name w) u) (Inr True) \<in> set es \<and>
        (\<forall>g \<in> set (Groups w). SarCall (rbac_spec ''groups'' g u) (Inr True) \<in> set es) \<and>
        (\<forall>k. \<forall>v \<in> set (mm_vals (extra_of w) k).
           SarCall (rbac_spec (''userextras/'' @ k) v u) (Inr True) \<in> set es))"

lemma forwarded_as_Forwarded:
  assumes "forwarded_as p addr u target r0 = Forwarded r"
  shows "\<exists>extra conf. final_extra (proxyConfig p) addr u target = Ok extra \<and>
    ImpersonationConfig r = Some conf \<and>
    Config conf = (let w = (case target of None \<Rightarrow> u | Some x \<Rightarrow> x) in
      \<lparr>ImpUserName = Name w, ImpUID = [], ImpGroups = ensure_authenticated (Groups w), ImpExtra = extra\<rparr>) \<and>
    Header r = Header r0 \<and> URL r = URL r0 \<and> ReqRemoteAddr r = ReqRemoteAddr r0 \<and>
    NoImpersonation r = NoImpersonation r0"
  using assms by (auto simp: forwarded_as_def Let_def split: result.splits option.splits)

text \<open>A request prepared to be made as \<open>w\<close> for the user \<open>u\<close>, who asked in the header \<open>h\<close>.\<close>

definition prepared :: "config \<Rightarrow> string \<Rightarrow> header \<Rightarrow> user_info \<Rightarrow> user_info \<Rightarrow> request \<Rightarrow> bool" where
  "prepared c addr h u w r \<longleftrightarrow>
     (\<exists>target extra conf. w = (case target of None \<Rightarrow> u | Some x \<Rightarrow> x) \<and>
       (target = None \<longleftrightarrow> filter is_impersonation h = []) \<and>
       final_extra c addr u target = Ok extra \<and>
       ImpersonationConfig r = Some conf \<and>
       Config conf = \<lparr>ImpUserName = Name w, ImpUID = [], ImpGroups = ensure_authenticated (Groups w),
                      ImpExtra = extra\<rparr>) \<and>
     (\<forall>k \<in> key_set (Header r). \<not> prefix ''impersonate-'' (ToLower k)) \<and>
     (\<forall>k. \<not> prefix ''impersonate-'' (ToLower k) \<longrightarrow> Values (Header r) k = Values h k)"

lemma prepared_None:
  assumes "forwarded_as p addr u None r1 = Forwarded r" and "filter is_impersonation (Header r1) = []"
  shows "prepared (proxyConfig p) addr (Header r1) u u r"
  using forwarded_as_Forwarded [OF assms(1)] assms(2)
  by (fastforce simp: prepared_def filter_empty_conv Let_def)

lemma prepared_Some:
  assumes "forwarded_as p addr u (Some w) r2 = Forwarded r" and "filter is_impersonation h \<noteq> []"
    and "\<forall>k \<in> key_set (Header r2). \<not> prefix ''impersonate-'' (ToLower k)"
    and "\<forall>k. \<not> prefix ''impersonate-'' (ToLower k) \<longrightarrow> Values (Header r2) k = Values h k"
  shows "prepared (proxyConfig p) addr h u w r"
proof -
  from forwarded_as_Forwarded [OF assms(1)] obtain extra conf where
    "final_extra (proxyConfig p) addr u (Some w) = Ok extra" "ImpersonationConfig r = Some conf"
    "Config conf = \<lparr>ImpUserName = Name w, ImpUID = [], ImpGroups = ensure_authenticated (Groups w), ImpExtra = extra\<rparr>"
    "Header r = Header r2" by (auto simp: Let_def)
  then show ?thesis
    unfolding prepared_def using assms(2-4) by (intro conjI exI [of _ "Some w"] exI [of _ extra] exI [of _ conf]) simp_all
qed

lemma impersonation_Forwarded:
  assumes "impersonation E p req t = (Forwarded r, t')" and "wf_header (Header req)"
  shows "\<exists>es. t' = t @ es \<and> sent_of es = [] \<and> URL r = URL req \<and> ReqRemoteAddr r = ReqRemoteAddr req \<and>
    (if NoImpersonation r
     then (NoImpersonation req \<and> r = req \<or>
           DisableImpersonation (proxyConfig p) \<and> Header r = Header req \<and> BearerToken r = BearerToken req)
     else (\<exists>u w. \<not> DisableImpersonation (proxyConfig p) \<and> UserFrom (Context req) = Some u \<and> Name u \<noteq> [] \<and>
       may_act_as (Header req) u w es \<and>
       prepared (proxyConfig p) (snd (RemoteAddr E req)) (Header req) u w r))"
proof (cases "NoImpersonation req \<or> DisableImpersonation (proxyConfig p)")
  case True
  with assms(1) show ?thesis
    by (auto simp: impersonation_def Let_def case_prod_unfold split: if_splits)
next
  case False
  obtain r1 addr where r1: "RemoteAddr E req = (r1, addr)" by fastforce
  then have frame: "Header r1 = Header req" "URL r1 = URL req" "ReqRemoteAddr r1 = ReqRemoteAddr req"
    "UserFrom (Context r1) = UserFrom (Context req)" "NoImpersonation r1 = NoImpersonation req"
    using RemoteAddr_frame [of E req] by (simp_all del: RemoteAddr_frame)
  from False assms(1) r1 obtain u where u: "UserFrom (Context req) = Some u" "Name u \<noteq> []"
    by (auto simp: impersonation_def frame split: option.splits if_splits)
  show ?thesis
  proof (cases "hasImpersonation (Header req)")
    case no: False
    with False assms(1) r1 u have fw: "forwarded_as p addr u None r1 = Forwarded r" and t: "t' = t"
      by (auto simp: impersonation_def frame)
    have none: "filter is_impersonation (Header r1) = []" using no by (simp add: frame hasImpersonation_iff)
    with forwarded_as_Forwarded [OF fw] prepared_None [OF fw] False u frame t r1 show ?thesis
      by (auto simp: may_act_as_def)
  next
    case yes: True
    with False assms(1) r1 u obtain target r2 where
      chk: "CheckAuthorizedForImpersonation E r1 u t = (Ok (target, r2), t')"
      and fw: "forwarded_as p addr u target r2 = Forwarded r"
      by (auto simp: impersonation_def frame split: prod.splits result.splits)
    have wf: "wf_header (Header r1)" and ne: "filter is_impersonation (Header r1) \<noteq> []"
      using assms(2) yes by (simp_all add: frame hasImpersonation_iff)
    from Check_Ok(2) [OF chk] ne obtain w where w: "target = Some w" by simp
    obtain es where es: "t' = t @ es" "sent_of es = []"
      by (rule that [OF Check_Ok(1) [OF chk] sent_of_sar])
    note chk' = chk [unfolded w]
    have act: "may_act_as (Header req) u w es"
      using Check_Ok_reviews [OF wf chk'] Check_Ok_target [OF wf chk'] es(1) ne
      unfolding may_act_as_def frame by auto
    note stripped = Check_Ok_stripped [OF wf chk]
    then have r2: "r2 = r1\<lparr>Header := Header r2\<rparr>" by blast
    then have "URL r2 = URL r1 \<and> ReqRemoteAddr r2 = ReqRemoteAddr r1 \<and> NoImpersonation r2 = NoImpersonation r1"
      by (metis header_update_reads(1) request.select_convs(2,3) request.surjective request.update_convs(1))
    moreover have "prepared (proxyConfig p) addr (Header req) u w r"
      using prepared_Some [OF fw [unfolded w]] ne stripped unfolding frame by blast
    ultimately have "URL r = URL req \<and> ReqRemoteAddr r = ReqRemoteAddr req \<and> \<not> NoImpersonation r \<and>
        prepared (proxyConfig p) (snd (RemoteAddr E req)) (Header req) u w r"
      using forwarded_as_Forwarded [OF fw] False frame r1 by auto
    with es act u False show ?thesis by (intro exI [of _ es]) auto
  qed
qed

text \<open>The header of an admitted request is well-formed.\<close>

lemma impersonation_wf:
  assumes "impersonation E p req t = (Forwarded r, t')" and "wf_header (Header req)"
  shows "wf_header (Header r)"
proof -
  obtain r1 addr where r1: "RemoteAddr E req = (r1, addr)" by fastforce
  then have frame: "Header r1 = Header req" using RemoteAddr_frame [of E req] by (simp del: RemoteAddr_frame)
  have fw: "Header r2 = Header r" if "forwarded_as p addr u target r2 = Forwarded r" for u target r2
    using forwarded_as_Forwarded [OF that] by auto
  have check: "wf_header (Header r2)" if "CheckAuthorizedForImpersonation E r1 u t = (Ok (x, r2), t1)" for u x r2 t1
    using that wf_header_copy assms(2) by (auto simp: Check_Ok_iff frame split: if_splits)
  show ?thesis
    using assms r1 frame fw check
    by (auto simp: impersonation_def split: if_splits option.splits prod.splits result.splits) metis+
qed

lemma admission_wf:
  assumes "admission E p req t = (Forwarded r, t1)" and "fresh req"
    and "wf_header (AuthHeader (bearer_authenticate E t req))"
  shows "wf_header (Header r)"
proof -
  from assms(1) obtain r0 t0 where auth: "authentication E p req t = (Forwarded r0, t0)"
    and imp: "impersonation E p r0 t0 = (Forwarded r, t1)"
    by (auto simp: admission_def split: prod.splits verdict.splits)
  show ?thesis
    using impersonation_wf [OF imp] authentication_Forwarded [OF auth assms(2)] assms(3) by simp
qed

end
