(* ===== verification/Forwarding.thy ===== *)
theory Forwarding
  imports Gate
begin

text \<open>
  From the end of the handler chain to the network: nothing is sent before the chain has admitted
  the request, the audit filters pass it on, the reverse proxy prepares it and the last round trip
  sends it, at most once.  The relation \<open>goes_out\<close> says how an admitted request is sent.
\<close>

section \<open>Until the end of the chain nothing is sent\<close>

definition unsent :: "trace \<Rightarrow> trace \<Rightarrow> bool" where
  "unsent t t' \<longleftrightarrow> (\<exists>es. t' = t @ es \<and> sent_of es = [])"

lemma unsent_refl [simp]: "unsent t t"
  by (simp add: unsent_def)

lemma unsent_trans: "unsent a b \<Longrightarrow> unsent b c \<Longrightarrow> unsent a c"
  by (auto simp: unsent_def)

lemma unsent_snoc: "\<not> is_sent e \<Longrightarrow> unsent t (t @ [e])"
  by (cases e) (auto simp: unsent_def)

lemma unsent_audit: "audit_only es \<Longrightarrow> unsent t (t @ es)"
proof -
  have "sent_of es = []" if "audit_only es" using that
    by (induction es) (auto simp: audit_only_def)
  then show "audit_only es \<Longrightarrow> unsent t (t @ es)" by (auto simp: unsent_def)
qed

lemma unsent_review: "Review E tr req t = (r, t') \<Longrightarrow> unsent t t'"
  using Review_no_sent by (auto simp: unsent_def)

lemma unsent_sar: "checkRbacImpersonationAuthorization E u res n t = (r, t') \<Longrightarrow> unsent t t'"
  by (auto simp: checkRbacImpersonationAuthorization_def Let_def intro: unsent_snoc)

lemma unsent_each:
  assumes "\<And>res n t r t'. check res n t = (r, t') \<Longrightarrow> unsent t t'"
  shows "check_each check denied res upd vs u t = (r, t') \<Longrightarrow> unsent t t'"
proof (induction vs arbitrary: u t)
  case (Cons v vs)
  obtain c t1 where c: "check res v t = (c, t1)" by fastforce
  with assms have "unsent t t1" by blast
  with Cons c show ?case
    by (cases c) (auto split: bool.splits intro: unsent_trans)
qed simp

lemma unsent_attribute:
  assumes "\<And>res n t r t'. check res n t = (r, t') \<Longrightarrow> unsent t t'"
  shows "check_attribute check rn k vs u t = (r, t') \<Longrightarrow> unsent t t'"
  using unsent_each [OF assms]
  by (auto simp: check_attribute_def Let_def simp del: check_each.simps split: list.splits if_splits)

lemma unsent_headers:
  assumes "\<And>res n t r t'. check res n t = (r, t') \<Longrightarrow> unsent t t'"
  shows "check_headers check rn hasU h st t = (r, t') \<Longrightarrow> unsent t t'"
proof (induction h arbitrary: st t)
  case (Cons kv h)
  obtain r1 t1 where r1: "check_header check rn hasU kv st t = (r1, t1)" by fastforce
  then have "unsent t t1"
    using unsent_attribute [OF assms]
    by (auto simp: check_header_def Let_def split: prod.splits if_splits)
  with Cons r1 show ?case by (cases r1) (auto intro: unsent_trans)
qed simp

lemma unsent_check: "CheckAuthorizedForImpersonation E req u t = (r, t') \<Longrightarrow> unsent t t'"
  using unsent_headers [OF unsent_sar]
  by (auto simp: CheckAuthorizedForImpersonation_def Let_def split: prod.splits)

lemma unsent_before: "unsent (t @ [AuthnCall r a]) t' \<Longrightarrow> unsent t t'"
  by (auto simp: unsent_def)

lemma unsent_authentication: "authentication E p req t = (v, t') \<Longrightarrow> unsent t t'"
  by (auto simp: authentication_def Let_def unsent_snoc
      split: if_splits result.splits prod.splits bool.splits dest!: unsent_review unsent_before)

lemma unsent_impersonation: "impersonation E p req t = (v, t') \<Longrightarrow> unsent t t'"
  by (auto simp: impersonation_def Let_def
      split: if_splits result.splits prod.splits option.splits dest: unsent_check)

lemma unsent_admission: "admission E p req t = (v, t') \<Longrightarrow> unsent t t'"
  by (auto simp: admission_def split: prod.splits verdict.splits
      dest: unsent_authentication unsent_impersonation intro: unsent_trans)

lemma error_reply:
  assumes "transparent_env E" and "newErrorHandler E p r (Some e) t = (rep, t')"
  shows "(\<exists>code body. rep = HttpError code body) \<and> unsent t t' \<and>
    (\<exists>es. t' = t @ AccessLog (failure_line (now E t) r) # es)"
proof (cases "e = ErrUnauthorized")
  case False
  with assms(2) show ?thesis
    by (cases e) (auto simp: newErrorHandler_def LogFailedRequest_def Let_def intro: unsent_snoc split: if_splits)
next
  case True
  let ?t1 = "t @ [AccessLog (failure_line (now E t) r)]"
  from True assms(2) have w: "WithUnauthorized E unauthenticated r ?t1 = (rep, t')"
    by (simp add: newErrorHandler_def LogFailedRequest_def NewUnauthenticatedHandler_def)
  have "unsent t ?t1" by (simp add: unsent_snoc)
  from WithUnauthorized_transparent [OF assms(1)] show ?thesis
  proof (cases rule: transparent_cases [where h = unauthenticated and r = r and t = ?t1])
    case (answered code body es)
    with w \<open>unsent t ?t1\<close> unsent_audit [of es ?t1] show ?thesis by (auto intro: unsent_trans)
  next
    case (passed c es es' rep1 t1)
    then have "rep = HttpError 401 ''Unauthorized''" "t' = ?t1 @ (es @ es')"
      using w by (auto simp: unauthenticated_def)
    with passed \<open>unsent t ?t1\<close> unsent_audit [of "es @ es'" ?t1] show ?thesis by (auto intro: unsent_trans)
  qed
qed

lemma error_unsent: "transparent_env E \<Longrightarrow> newErrorHandler E p r (Some e) t = (rep, t') \<Longrightarrow> unsent t t'"
  using error_reply by blast

section \<open>From the chain to the network\<close>

lemma key_set_SetHeader [simp]: "key_set (SetHeader h k v) = insert (canonical k) (key_set h)"
  by (simp add: SetHeader_def dom_update)

lemma key_set_Del: "key_set (Del h k) \<subseteq> key_set h"
  by (auto simp: Del_def AList.delete_eq)

lemma key_set_Dels: "key_set (foldl Del h ks) \<subseteq> key_set h"
proof (induction ks arbitrary: h)
  case (Cons k ks)
  have "key_set (foldl Del (Del h k) ks) \<subseteq> key_set (Del h k)" by (rule Cons)
  with key_set_Del [of h k] show ?case by simp
qed simp

definition own_fields :: "string list" where
  "own_fields = [''Te'', ''Connection'', ''Upgrade'', ''X-Forwarded-For'', ''User-Agent'']"

lemma own_fields_mem:
  "canonical ''Te'' \<in> set own_fields" "canonical ''Connection'' \<in> set own_fields"
  "canonical ''Upgrade'' \<in> set own_fields" "canonical ''X-Forwarded-For'' \<in> set own_fields"
  "canonical ''User-Agent'' \<in> set own_fields"
  by code_simp+

lemma keep_upgrade_keys: "key_set (keep_upgrade h x) \<subseteq> key_set x \<union> set own_fields"
  using own_fields_mem by (auto simp: keep_upgrade_def Let_def)

lemma add_forwarded_for_keys: "key_set (add_forwarded_for a x) \<subseteq> key_set x \<union> set own_fields"
  using own_fields_mem by (auto simp: add_forwarded_for_def Let_def split: option.splits)

lemma outgoing_header_keys: "key_set (outgoing_header a h) \<subseteq> key_set h \<union> set own_fields"
proof -
  let ?r = "removeHopByHopHeaders h"
  have "key_set ?r \<subseteq> key_set h"
    unfolding removeHopByHopHeaders_def by (rule subset_trans [OF key_set_Dels key_set_Dels])
  then have "key_set (keep_upgrade h ?r) \<subseteq> key_set h \<union> set own_fields"
    by (rule subset_trans [OF keep_upgrade_keys Un_mono [OF _ subset_refl]])
  then have "key_set (add_forwarded_for a (keep_upgrade h ?r)) \<subseteq> key_set h \<union> set own_fields"
    by (rule subset_trans [OF add_forwarded_for_keys Un_least [OF _ Un_upper2]])
  then show ?thesis
    using own_fields_mem(5) unfolding outgoing_header_def Let_def by (simp split: if_split)
qed

lemma outgoing_header_wf:
  assumes "wf_header h"
  shows "wf_header (outgoing_header a h)"
proof -
  have names: "list_all valid_header_byte ''Te''" "list_all valid_header_byte ''Connection''"
    "list_all valid_header_byte ''Upgrade''" "list_all valid_header_byte ''X-Forwarded-For''"
    "list_all valid_header_byte ''User-Agent''" by code_simp+
  note sets = wf_header_SetHeader [OF _ names(1)] wf_header_SetHeader [OF _ names(2)]
    wf_header_SetHeader [OF _ names(3)] wf_header_SetHeader [OF _ names(4)] wf_header_SetHeader [OF _ names(5)]
  have "wf_header (foldl Del x ks)" if "wf_header x" for x ks
    using that by (rule wf_header_foldl [rotated]) auto
  then have "wf_header (removeHopByHopHeaders h)" using assms by (simp add: removeHopByHopHeaders_def)
  then have "wf_header (keep_upgrade h (removeHopByHopHeaders h))"
    by (simp add: keep_upgrade_def Let_def sets)
  then have "wf_header (add_forwarded_for a (keep_upgrade h (removeHopByHopHeaders h)))"
    by (simp add: add_forwarded_for_def Let_def sets split: option.split)
  then show ?thesis by (simp add: outgoing_header_def Let_def sets)
qed

definition sends_only :: "(transport \<times> request \<Rightarrow> bool) \<Rightarrow> trace \<Rightarrow> trace \<Rightarrow> bool" where
  "sends_only P t t' \<longleftrightarrow> (\<exists>es. t' = t @ es \<and> length (sent_of es) \<le> 1 \<and> (\<forall>x \<in> set (sent_of es). P x))"

lemma sends_only_unsent: "unsent t t' \<Longrightarrow> sends_only P t t'"
  by (auto simp: sends_only_def unsent_def)

lemma sends_only_before: "unsent a b \<Longrightarrow> sends_only P b c \<Longrightarrow> sends_only P a c"
  by (auto simp: sends_only_def unsent_def)

lemma sends_only_after: "sends_only P a b \<Longrightarrow> unsent b c \<Longrightarrow> sends_only P a c"
  by (auto simp: sends_only_def unsent_def)

lemma sends_only_mono: "sends_only P a b \<Longrightarrow> (\<And>x. P x \<Longrightarrow> Q x) \<Longrightarrow> sends_only Q a b"
  by (auto simp: sends_only_def)

text \<open>How the last round trip sends the request \<open>r\<close>.\<close>

definition goes_out :: "env \<Rightarrow> ('ss, 'ta) proxy \<Rightarrow> request \<Rightarrow> transport \<times> request \<Rightarrow> bool" where
  "goes_out E p r x \<longleftrightarrow>
     (if NoImpersonation r then
        noAuthClientTransport p = Some (fst x) \<and>
        snd x = r\<lparr>Header := Add (Header r) ''Authorization'' (BearerToken r)\<rparr>
      else (\<exists>conf. ImpersonationConfig r = Some conf \<and>
        (case namespaceTransport p of
           Some ns \<Rightarrow> fst x = Transport ns \<and> rewrite_request ns (impersonate E (Config conf) r) = Ok (snd x)
         | None \<Rightarrow> clientTransport p = Some (fst x) \<and> snd x = impersonate E (Config conf) r)))"

lemma sends_send_via: "send_via E tr r t = (res, t') \<Longrightarrow> P (tr, r) \<Longrightarrow> sends_only P t t'"
  by (auto simp: send_via_def sends_only_def)

lemma sends_NamespaceRoundTrip:
  assumes "NamespaceRoundTrip E ns r t = (res, t')"
    and "\<And>r'. rewrite_request ns r = Ok r' \<Longrightarrow> P (Transport ns, r')"
  shows "sends_only P t t'"
  using assms
  by (auto simp: NamespaceRoundTrip_def split: result.splits intro: sends_send_via sends_only_unsent)

lemma sends_RoundTrip:
  assumes "RoundTrip E p r t = (res, t')"
  shows "sends_only (goes_out E p r) t t'"
proof (cases "NoImpersonation r")
  case True
  with assms show ?thesis
    by (auto simp: RoundTrip_def Let_def goes_out_def split: option.splits
        intro: sends_only_unsent elim!: sends_send_via)
next
  case False
  show ?thesis
  proof (cases "ImpersonationConfig r")
    case None
    with False assms show ?thesis by (simp add: RoundTrip_def sends_only_unsent)
  next
    case (Some conf)
    let ?t1 = "LogSuccessfulRequest E r (InboundUser conf) (ImpersonatedUser conf) t"
    have "unsent t ?t1" by (simp add: LogSuccessfulRequest_def unsent_snoc)
    moreover have "sends_only (goes_out E p r) ?t1 t'"
    proof (cases "namespaceTransport p")
      case None
      with assms False Some show ?thesis
        by (auto simp: RoundTrip_def Let_def goes_out_def split: option.splits
            intro: sends_only_unsent elim!: sends_send_via)
    next
      case ns: (Some ns)
      with assms False Some have "NamespaceRoundTrip E ns (impersonate E (Config conf) r) ?t1 = (res, t')"
        by (simp add: RoundTrip_def Let_def)
      then show ?thesis by (rule sends_NamespaceRoundTrip) (simp add: goes_out_def False Some ns)
    qed
    ultimately show ?thesis by (rule sends_only_before)
  qed
qed

definition outgoing :: "url \<Rightarrow> request \<Rightarrow> request" where
  "outgoing target r = (director target r)\<lparr>Header := outgoing_header (ReqRemoteAddr r) (Header r)\<rparr>"

lemma sends_reverse_proxy:
  assumes "transparent_env E"
    and "reverse_proxy target (RoundTrip E p) (newErrorHandler E p) r t = (rep, t')"
  shows "sends_only (goes_out E p (outgoing target r)) t t'"
proof (cases "IsPrint (upgradeType (Header r))")
  case False
  with assms(2) obtain e where "newErrorHandler E p (director target r) (Some e) t = (rep, t')"
    unfolding reverse_proxy_def Let_def by auto
  with assms(1) show ?thesis by (blast intro: sends_only_unsent error_unsent)
next
  case True
  obtain res t1 where rt: "RoundTrip E p (outgoing target r) t = (res, t1)" by fastforce
  note sent = sends_RoundTrip [OF rt]
  with True assms rt show ?thesis
    by (cases res) (auto simp: reverse_proxy_def Let_def outgoing_def intro: sends_only_after error_unsent)
qed

lemma sends_WithRequest:
  assumes "transparent_env E" and "WithRequest E h r t = (rep, t')"
    and "\<And>c t1 rep t2. foreign_ctx (Context r) c \<Longrightarrow> h (WithContext r c) t1 = (rep, t2) \<Longrightarrow> sends_only P t1 t2"
  shows "sends_only P t t'"
proof -
  from WithRequest_transparent [OF assms(1)] show ?thesis
  proof (cases rule: transparent_cases [where h = h and r = r and t = t])
    case (answered code body es)
    with assms(2) unsent_audit [of es t] show ?thesis by (auto intro: sends_only_unsent)
  next
    case (passed c es es' rep1 t1)
    with assms(3) have "sends_only P (t @ es) t1" by blast
    with passed assms(2) show ?thesis
      by (auto intro: sends_only_before [OF unsent_audit] sends_only_after [OF _ unsent_audit])
  qed
qed

text \<open>What follows the admission, from any trace on.\<close>

lemma sends_carry_out:
  assumes "transparent_env E"
    and "carry_out E p (WithRequest E (reverse_proxy target (RoundTrip E p) (newErrorHandler E p))) (v, t) = (rep, t')"
  shows "sends_only
    (\<lambda>x. \<exists>r c. v = Forwarded r \<and> foreign_ctx (Context r) c \<and> goes_out E p (outgoing target (WithContext r c)) x) t t'"
proof (cases v)
  case (Refused e r)
  with assms show ?thesis by (auto intro: sends_only_unsent error_unsent)
next
  case Crashed
  with assms show ?thesis by (auto intro: sends_only_unsent)
next
  case (Forwarded r)
  with assms(2) have "WithRequest E (reverse_proxy target (RoundTrip E p) (newErrorHandler E p)) r t = (rep, t')" by simp
  then have "sends_only (\<lambda>x. \<exists>c. foreign_ctx (Context r) c \<and> goes_out E p (outgoing target (WithContext r c)) x) t t'"
    by (rule sends_WithRequest [OF assms(1)])
       (rule sends_only_mono [OF sends_reverse_proxy [OF assms(1)]], auto)
  with Forwarded show ?thesis by (auto elim!: sends_only_mono)
qed

text \<open>Every request that is sent is an admitted one, at most once, as the last round trip sends it.\<close>

lemma sends_served:
  assumes "transparent_env E" and "served E p target req t = (rep, t')"
    and "admission E p req t = (v, t1)"
  shows "unsent t t1 \<and> sends_only
    (\<lambda>x. \<exists>r c. v = Forwarded r \<and> foreign_ctx (Context r) c \<and> goes_out E p (outgoing target (WithContext r c)) x) t1 t'"
  using unsent_admission [OF assms(3)] sends_carry_out [OF assms(1)] assms(2)
  by (simp add: served_def chain_policy assms(3))

end
