(* ===== verification/End_To_End.thy ===== *)
theory End_To_End
  imports Forwarding
begin

text \<open>
  The properties of the whole proxy: which requests reach the API server, as whom, with which
  credentials and headers, and what a client gets when its request is refused.  They hold under
  two named hypotheses on code outside the repository: \<open>transparent_env\<close> on the audit filters
  and \<open>impersonates\<close> on the impersonating round tripper of the client library.
\<close>

section \<open>Admitted requests\<close>

lemma may_act_as_mono: "may_act_as h u w es \<Longrightarrow> set es \<subseteq> set es' \<Longrightarrow> may_act_as h u w es'"
  by (auto simp: may_act_as_def dest: subsetD split: if_splits)

lemma admission_Forwarded:
  assumes "admission E p req t = (Forwarded r, t1)" and "fresh req"
    and "wf_header (AuthHeader (bearer_authenticate E t req))"
  shows "\<exists>es. t1 = t @ es \<and> sent_of es = [] \<and> URL r = URL req \<and> ReqRemoteAddr r = ReqRemoteAddr req \<and>
    (if NoImpersonation r
     then Header r = AuthHeader (bearer_authenticate E t req) \<and> BearerToken r = [] \<and>
       ((\<exists>u. oidc_user E req t = Some u) \<and> DisableImpersonation (proxyConfig p) \<or>
        AuthErr (bearer_authenticate E t req) \<noteq> None \<and> TokenReviewEnabled (proxyConfig p) \<and>
        reviewed p (Header r) es)
     else (\<exists>u w addr. \<not> DisableImpersonation (proxyConfig p) \<and> oidc_user E req t = Some u \<and> Name u \<noteq> [] \<and>
       may_act_as (AuthHeader (bearer_authenticate E t req)) u w es \<and>
       prepared (proxyConfig p) addr (AuthHeader (bearer_authenticate E t req)) u w r))"
proof -
  from assms(1) obtain r0 t0 where auth: "authentication E p req t = (Forwarded r0, t0)"
    and imp: "impersonation E p r0 t0 = (Forwarded r, t1)"
    by (auto simp: admission_def split: prod.splits verdict.splits)
  note A = authentication_Forwarded [OF auth assms(2)]
  then have hd: "Header r0 = AuthHeader (bearer_authenticate E t req)" by blast
  from A obtain es1 where es1: "t0 = t @ es1" "sent_of es1 = []" "NoImpersonation r0 \<longrightarrow> reviewed p (Header r0) es1"
    by blast
  have "wf_header (Header r0)" using assms(3) hd by simp
  from impersonation_Forwarded [OF imp this] obtain es2 where es2: "t1 = t0 @ es2" "sent_of es2 = []"
    and same: "URL r = URL r0" "ReqRemoteAddr r = ReqRemoteAddr r0"
    and B: "if NoImpersonation r
     then (NoImpersonation r0 \<and> r = r0 \<or>
           DisableImpersonation (proxyConfig p) \<and> Header r = Header r0 \<and> BearerToken r = BearerToken r0)
     else (\<exists>u w. \<not> DisableImpersonation (proxyConfig p) \<and> UserFrom (Context r0) = Some u \<and> Name u \<noteq> [] \<and>
       may_act_as (Header r0) u w es2 \<and>
       prepared (proxyConfig p) (snd (RemoteAddr E r0)) (Header r0) u w r)" by blast
  have rev: "NoImpersonation r0 \<Longrightarrow> reviewed p (Header r0) (es1 @ es2)"
    using es1(3) unfolding reviewed_def by (metis UnI1 set_append)
  have no: "NoImpersonation r0 \<Longrightarrow> NoImpersonation r"
    using imp by (auto simp: impersonation_def)
  show ?thesis
  proof (cases "NoImpersonation r")
    case True
    with A B rev es1 es2 same hd show ?thesis
      by (intro exI [of _ "es1 @ es2"]) (auto split: if_splits)
  next
    case False
    with B obtain u w where uw: "\<not> DisableImpersonation (proxyConfig p)" "UserFrom (Context r0) = Some u"
      "Name u \<noteq> []" "may_act_as (Header r0) u w es2"
      "prepared (proxyConfig p) (snd (RemoteAddr E r0)) (Header r0) u w r" by auto
    have "may_act_as (Header r0) u w (es1 @ es2)" by (rule may_act_as_mono [OF uw(4)]) simp
    moreover have "oidc_user E req t = Some u" using A no False uw(2) by (auto split: if_splits)
    ultimately show ?thesis using False uw es1 es2 same A hd
      by (intro exI [of _ "es1 @ es2"]) auto
  qed
qed

lemma outgoing_simps [simp]:
  "NoImpersonation (outgoing target r) = NoImpersonation r"
  "ImpersonationConfig (outgoing target r) = ImpersonationConfig r"
  "BearerToken (outgoing target r) = BearerToken r"
  "Header (outgoing target r) = outgoing_header (ReqRemoteAddr r) (Header r)"
  by (simp_all add: outgoing_def director_def ctx_defs)

text \<open>A request that was sent, with the admitted request it comes from.\<close>

lemma sent_admitted:
  assumes "transparent_env E" and "served E p target req t = (rep, t')"
  shows "\<exists>v t1 es. admission E p req t = (v, t1) \<and> t' = t @ es \<and> length (sent_of es) \<le> 1 \<and>
    (\<forall>x \<in> set (sent_of es). \<exists>r c. v = Forwarded r \<and> foreign_ctx (Context r) c \<and>
       goes_out E p (outgoing target (WithContext r c)) x) \<and> (\<exists>es2. t' = t1 @ es2)"
proof -
  obtain v t1 where adm: "admission E p req t = (v, t1)" by fastforce
  from sends_served [OF assms adm] obtain es1 es2 where "t1 = t @ es1" "sent_of es1 = []" "t' = t1 @ es2"
    "length (sent_of es2) \<le> 1" "\<forall>x \<in> set (sent_of es2). \<exists>r c. v = Forwarded r \<and> foreign_ctx (Context r) c \<and>
       goes_out E p (outgoing target (WithContext r c)) x"
    by (auto simp: unsent_def sends_only_def)
  then show ?thesis using adm by (intro exI [of _ v] exI [of _ t1] exI [of _ "es1 @ es2"]) auto
qed

text \<open>C3: nothing reaches the API server without authentication. Each request is sent at most once,
  and only if the authenticator accepted its token for a user (who must have a name unless
  impersonation is disabled), or, with token passthrough enabled, if the API server itself
  reviewed the request's token during this request and found it authenticated.\<close>

theorem only_authenticated_sent:
  assumes "transparent_env E" and "fresh req" and "wf_header (AuthHeader (bearer_authenticate E t req))"
    and "served E p target req t = (rep, t')"
  shows "\<exists>es. t' = t @ es \<and> length (sent_of es) \<le> 1 \<and>
    (sent_of es \<noteq> [] \<longrightarrow>
       (\<exists>u. oidc_user E req t = Some u \<and> (Name u \<noteq> [] \<or> DisableImpersonation (proxyConfig p))) \<or>
       TokenReviewEnabled (proxyConfig p) \<and> reviewed p (AuthHeader (bearer_authenticate E t req)) es)"
proof -
  from sent_admitted [OF assms(1,4)] obtain v t1 es es2 where adm: "admission E p req t = (v, t1)"
    and es: "t' = t @ es" "length (sent_of es) \<le> 1" "t' = t1 @ es2"
    and sent: "\<forall>x \<in> set (sent_of es). \<exists>r c. v = Forwarded r \<and> foreign_ctx (Context r) c \<and>
       goes_out E p (outgoing target (WithContext r c)) x"
    by (elim exE conjE) (rule that)
  have "(\<exists>u. oidc_user E req t = Some u \<and> (Name u \<noteq> [] \<or> DisableImpersonation (proxyConfig p))) \<or>
       TokenReviewEnabled (proxyConfig p) \<and> reviewed p (AuthHeader (bearer_authenticate E t req)) es"
    if some: "sent_of es \<noteq> []"
  proof -
    obtain x where "x \<in> set (sent_of es)" using some by (cases "sent_of es") auto
    with sent obtain r where "v = Forwarded r" by blast
    with adm have "admission E p req t = (Forwarded r, t1)" by simp
    from admission_Forwarded [OF this assms(2,3)] obtain es1 where "t1 = t @ es1" and
      *: "if NoImpersonation r
     then Header r = AuthHeader (bearer_authenticate E t req) \<and> BearerToken r = [] \<and>
       ((\<exists>u. oidc_user E req t = Some u) \<and> DisableImpersonation (proxyConfig p) \<or>
        AuthErr (bearer_authenticate E t req) \<noteq> None \<and> TokenReviewEnabled (proxyConfig p) \<and>
        reviewed p (Header r) es1)
     else (\<exists>u w addr. \<not> DisableImpersonation (proxyConfig p) \<and> oidc_user E req t = Some u \<and> Name u \<noteq> [] \<and>
       may_act_as (AuthHeader (bearer_authenticate E t req)) u w es1 \<and>
       prepared (proxyConfig p) addr (AuthHeader (bearer_authenticate E t req)) u w r)" by blast
    then have "es = es1 @ es2" using es by simp
    then have "reviewed p h es1 \<Longrightarrow> reviewed p h es" for h unfolding reviewed_def by (metis UnI1 set_append)
    with * show ?thesis by (auto split: if_splits)
  qed
  with es show ?thesis by blast
qed

section \<open>What is sent\<close>

text \<open>
  What the client library documents of its impersonating round tripper: a request that already
  names a user passes unchanged; otherwise the user is set, the groups are added, and only
  impersonation headers change.
\<close>

definition impersonates :: "env \<Rightarrow> bool" where
  "impersonates E \<longleftrightarrow> (\<forall>c r. Values (Header r) ''Impersonate-User'' = [] \<longrightarrow>
     Values (Header (impersonate E c r)) ''Impersonate-User'' = [ImpUserName c] \<and>
     Values (Header (impersonate E c r)) ''Impersonate-Group'' =
       Values (Header r) ''Impersonate-Group'' @ ImpGroups c \<and>
     (\<forall>k. \<not> prefix ''impersonate-'' (ToLower k) \<longrightarrow>
        Values (Header (impersonate E c r)) k = Values (Header r) k) \<and>
     URL (impersonate E c r) = URL r)"

lemma rewrite_header:
  "rewrite_request ns r = Ok r' \<Longrightarrow> Header r' = Header r"
  by (auto simp: rewrite_request_def addRegionLabelSelectorInPath_def Let_def split: if_splits prod.splits)

text \<open>The round tripper of the client library sets fields with valid names only.\<close>

definition sound_impersonation :: "env \<Rightarrow> bool" where
  "sound_impersonation E \<longleftrightarrow> (\<forall>c r. wf_header (Header r) \<longrightarrow> wf_header (Header (impersonate E c r)))"

lemma goes_out_wf:
  assumes "sound_impersonation E" and "wf_header (Header r)" and "goes_out E p r x"
  shows "wf_header (Header (snd x))"
proof -
  have name: "list_all valid_header_byte ''Authorization''" by code_simp
  from assms wf_header_Add [OF _ name] show ?thesis
    by (auto simp: goes_out_def sound_impersonation_def rewrite_header split: if_splits option.splits)
qed

lemma own_fields_plain: "k \<in> set own_fields \<Longrightarrow> \<not> prefix ''impersonate-'' (ToLower k)"
proof -
  have "\<forall>k \<in> set own_fields. \<not> prefix ''impersonate-'' (ToLower k)" by code_simp
  then show "k \<in> set own_fields \<Longrightarrow> \<not> prefix ''impersonate-'' (ToLower k)" by blast
qed

lemma Values_outgoing_absent:
  "canonical k \<notin> key_set h \<Longrightarrow> canonical k \<notin> set own_fields \<Longrightarrow> Values (outgoing_header a h) k = []"
  unfolding Values_def by (rule mm_vals_not_key) (use outgoing_header_keys [of a h] in blast)

lemma Values_outgoing_impersonation:
  assumes "\<forall>k \<in> key_set h. \<not> prefix ''impersonate-'' (ToLower k)" and "prefix ''impersonate-'' (ToLower k)"
  shows "Values (outgoing_header a h) k = []"
proof (rule Values_outgoing_absent)
  show "canonical k \<notin> key_set h" using assms(1) [rule_format, of "canonical k"] assms(2) by fastforce
  show "canonical k \<notin> set own_fields" using own_fields_plain [of "canonical k"] assms(2) by fastforce
qed

text \<open>An impersonated request on the wire.\<close>

lemma impersonated_sent:
  assumes "impersonates E" and "prepared c addr h u w r"
    and "goes_out E p (outgoing target (WithContext r cx)) x" and "foreign_ctx (Context r) cx" and "\<not> NoImpersonation r"
  shows "Values (Header (snd x)) ''Impersonate-User'' = [Name w] \<and>
    Values (Header (snd x)) ''Impersonate-Group'' = ensure_authenticated (Groups w)"
proof -
  let ?r = "outgoing target (WithContext r cx)"
  note reads = foreign_ctx_reads [OF assms(4)]
  from assms(2) obtain conf extra where conf: "ImpersonationConfig r = Some conf"
    "Config conf = \<lparr>ImpUserName = Name w, ImpUID = [], ImpGroups = ensure_authenticated (Groups w), ImpExtra = extra\<rparr>"
    and plain: "\<forall>k \<in> key_set (Header r). \<not> prefix ''impersonate-'' (ToLower k)"
    by (auto simp: prepared_def)
  have "Header (snd x) = Header (impersonate E (Config conf) ?r)"
    using assms(3,5) conf(1) reads by (auto simp: goes_out_def split: option.splits dest: rewrite_header)
  moreover have "Values (Header ?r) ''Impersonate-User'' = []" "Values (Header ?r) ''Impersonate-Group'' = []"
    using Values_outgoing_impersonation [OF plain] by simp_all
  ultimately show ?thesis using assms(1) conf(2) by (simp add: impersonates_def)
qed

lemma sent_admittedE:
  assumes "transparent_env E" and "served E p target req t = (rep, t @ es)" and "x \<in> set (sent_of es)"
  obtains r t1 es2 c where "admission E p req t = (Forwarded r, t1)" "t @ es = t1 @ es2"
    "foreign_ctx (Context r) c" "goes_out E p (outgoing target (WithContext r c)) x"
proof -
  from sent_admitted [OF assms(1,2)] obtain v t1 es' es2 where adm: "admission E p req t = (v, t1)"
    and es: "t @ es = t @ es'" "t @ es = t1 @ es2"
    and sent: "\<forall>x \<in> set (sent_of es'). \<exists>r c. v = Forwarded r \<and> foreign_ctx (Context r) c \<and>
       goes_out E p (outgoing target (WithContext r c)) x"
    by (elim exE conjE) (rule that)
  from es(1) have "es' = es" by simp
  with bspec [OF sent] assms(3) obtain r c where "v = Forwarded r" "foreign_ctx (Context r) c"
    "goes_out E p (outgoing target (WithContext r c)) x" by blast
  with adm es(2) show thesis by (intro that) auto
qed

text \<open>C4: a request is never made as anybody the user may not be. An impersonated request names,
  in its impersonation headers, either the authenticated user himself, when he sent no such header,
  or a target for which the API server allowed this user, during this request, the name and every
  group and extra value asked for; its groups are the target's and the group of all authenticated.\<close>

theorem impersonated_identity:
  assumes "transparent_env E" and "impersonates E" and "fresh req"
    and "wf_header (AuthHeader (bearer_authenticate E t req))"
    and "\<not> DisableImpersonation (proxyConfig p)" and "oidc_user E req t = Some u"
    and "served E p target req t = (rep, t @ es)" and "(tr, r') \<in> set (sent_of es)"
  shows "\<exists>w. may_act_as (AuthHeader (bearer_authenticate E t req)) u w es \<and>
    Values (Header r') ''Impersonate-User'' = [Name w] \<and>
    Values (Header r') ''Impersonate-Group'' = ensure_authenticated (Groups w)"
proof -
  obtain r t1 es2 c where adm: "admission E p req t = (Forwarded r, t1)" and es2: "t @ es = t1 @ es2"
    and r: "foreign_ctx (Context r) c" "goes_out E p (outgoing target (WithContext r c)) (tr, r')"
    by (rule sent_admittedE [OF assms(1,7,8)])
  have "\<not> NoImpersonation r" and "\<exists>es1 w addr. t1 = t @ es1 \<and>
      may_act_as (AuthHeader (bearer_authenticate E t req)) u w es1 \<and>
      prepared (proxyConfig p) addr (AuthHeader (bearer_authenticate E t req)) u w r"
    using admission_Forwarded [OF adm assms(3,4)] assms(5,6)
    by (auto simp: oidc_user_def Let_def split: if_splits)
  then obtain es1 w addr where w: "t1 = t @ es1" "may_act_as (AuthHeader (bearer_authenticate E t req)) u w es1"
      "prepared (proxyConfig p) addr (AuthHeader (bearer_authenticate E t req)) u w r" by blast
  have "may_act_as (AuthHeader (bearer_authenticate E t req)) u w es"
    by (rule may_act_as_mono [OF w(2)]) (use es2 w(1) in auto)
  with impersonated_sent [OF assms(2) w(3) r(2,1) \<open>\<not> NoImpersonation r\<close>] show ?thesis by auto
qed

section \<open>The policy\<close>


section \<open>Refusals\<close>

text \<open>C5: a request whose token the authenticator does not accept is refused when token passthrough
  is off: the client gets an error page, the failure is logged, and nothing is sent upstream.\<close>

theorem unauthenticated_refused:
  assumes "transparent_env E" and "\<not> TokenReviewEnabled (proxyConfig p)"
    and "AuthErr (bearer_authenticate E t req) \<noteq> None \<or> \<not> AuthOk (bearer_authenticate E t req)"
    and "served E p target req t = (rep, t')"
  shows "\<exists>code body es. rep = HttpError code body \<and> sent_of es = [] \<and>
    t' = t @ AuthnCall req (bearer_authenticate E t req) #
      AccessLog (failure_line (now E (t @ [AuthnCall req (bearer_authenticate E t req)]))
        (req\<lparr>Header := AuthHeader (bearer_authenticate E t req)\<rparr>)) # es"
proof -
  let ?a = "bearer_authenticate E t req"
  let ?r = "req\<lparr>Header := AuthHeader ?a\<rparr>" and ?t = "t @ [AuthnCall req ?a]"
  have "admission E p req t = (Refused ErrUnauthorized ?r, ?t)"
    using assms(2,3) by (auto simp: admission_def authentication_def Let_def)
  with assms(4) have "newErrorHandler E p ?r (Some ErrUnauthorized) ?t = (rep, t')"
    by (simp add: served_def chain_policy)
  from error_reply [OF assms(1) this] obtain code body es where *: "rep = HttpError code body"
    "unsent ?t t'" "t' = ?t @ AccessLog (failure_line (now E ?t) ?r) # es" by blast
  then have "sent_of es = []" by (auto simp: unsent_def)
  with * show ?thesis by auto
qed


text \<open>C21: refusing an impersonation is reported as such: when the API server denies an attribute, the
  client gets a 403 whose text names who was refused what, the failure is logged, and no handler
  that follows is called.\<close>

theorem denied_impersonation_403:
  assumes "\<not> NoImpersonation req" and "\<not> DisableImpersonation (proxyConfig p)"
    and "UserFrom (Context req) = Some u" and "Name u \<noteq> []" and "hasImpersonation (Header req)"
    and "CheckAuthorizedForImpersonation E (fst (RemoteAddr E req)) u t = (Err (denied_msg (Name u) what name), t1)"
  shows "withImpersonateRequest E p h req t =
    (HttpError 403 (Name u @ '' is not allowed to impersonate '' @ what @ '' '' @ quoted name),
     LogFailedRequest E (fst (RemoteAddr E req)) t1)"
proof -
  have "Contains (Name u @ '' is not allowed to impersonate '' @ what @ '' '' @ quoted name) ''not allowed to impersonate''"
    unfolding Contains_iff
    by (intro exI [of _ "Name u @ '' is ''"] exI [of _ "'' '' @ what @ '' '' @ quoted name"]) simp
  then show ?thesis
    using assms by (simp add: withImpersonateRequest_def case_prod_unfold newErrorHandler_def denied_msg_def Let_def)
qed

section \<open>The extra fields\<close>

lemma mm_vals_add_client_ip:
  "mm_vals (add_client_ip c addr ex) k =
     mm_vals ex k @ (if ExtraUserHeadersClientIPEnabled c \<and> k = UserHeaderClientIPKey then [addr] else [])"
  by (auto simp: add_client_ip_def)

lemma mm_vals_add_user_headers:
  "wf_map (ExtraUserHeaders c) \<Longrightarrow>
   mm_vals (add_user_headers c ex) k = mm_vals ex k @ mm_vals (ExtraUserHeaders c) k"
  unfolding add_user_headers_def by (simp add: go_map.vals_add_map concat_filter_key)

lemma add_original_user_vals:
  "\<exists>text ex'. Marshal (extra_of u) = Ok text \<and> add_original_user u ex = Ok ex' \<and>
    (\<forall>k. mm_vals ex' k =
      (if k = ''originaluser.jetstack.io-user'' then [Name u]
       else if k = ''originaluser.jetstack.io-groups'' \<and> Groups u \<noteq> [] then Groups u
       else if k = ''originaluser.jetstack.io-uid'' \<and> UID u \<noteq> [] then [UID u]
       else if k = ''originaluser.jetstack.io-extra'' \<and> extra_of u \<noteq> [] then [text]
       else mm_vals ex k))"
  by (simp add: Marshal_def add_original_user_def Let_def)

lemma final_extra_vals:
  assumes "wf_map (ExtraUserHeaders c)" and "final_extra c addr u target = Ok ex"
  shows "mm_vals ex k =
    (let w = (case target of None \<Rightarrow> u | Some x \<Rightarrow> x);
         own = mm_vals (extra_of w) k
           @ (if ExtraUserHeadersClientIPEnabled c \<and> k = UserHeaderClientIPKey then [addr] else [])
           @ mm_vals (ExtraUserHeaders c) k
     in if target = None then own
        else if k = ''originaluser.jetstack.io-user'' then [Name u]
        else if k = ''originaluser.jetstack.io-groups'' \<and> Groups u \<noteq> [] then Groups u
        else if k = ''originaluser.jetstack.io-uid'' \<and> UID u \<noteq> [] then [UID u]
        else if k = ''originaluser.jetstack.io-extra'' \<and> extra_of u \<noteq> [] then
          [case Marshal (extra_of u) of Ok text \<Rightarrow> text | _ \<Rightarrow> []]
        else own)"
proof (cases target)
  case None
  with assms show ?thesis
    by (auto simp: final_extra_def Let_def mm_vals_add_client_ip mm_vals_add_user_headers)
next
  case (Some w)
  let ?base = "add_user_headers c (add_client_ip c addr (extra_of w))"
  obtain js ex' where "Marshal (extra_of u) = Ok js" "add_original_user u ?base = Ok ex'"
    "\<forall>k. mm_vals ex' k =
      (if k = ''originaluser.jetstack.io-user'' then [Name u]
       else if k = ''originaluser.jetstack.io-groups'' \<and> Groups u \<noteq> [] then Groups u
       else if k = ''originaluser.jetstack.io-uid'' \<and> UID u \<noteq> [] then [UID u]
       else if k = ''originaluser.jetstack.io-extra'' \<and> extra_of u \<noteq> [] then [js]
       else mm_vals ?base k)"
    using add_original_user_vals [of u ?base] by blast
  with Some assms show ?thesis
    by (simp add: final_extra_def Let_def mm_vals_add_client_ip mm_vals_add_user_headers)
qed

lemmas original_fields = final_extra_vals [where target = "Some w" and k = "''originaluser.jetstack.io-extra''", simplified] for w

text \<open>C20: the extra fields of an impersonated request. They are those of the user it is made for, to
  which the client's address is appended when configured and the configured values at their keys;
  when the user is a target, the original user's name, groups, uid and extra fields replace
  whatever the target has at their four keys, so the API server's audit log shows who asked.\<close>

theorem final_extra_fields:
  assumes "wf_map (ExtraUserHeaders c)" and "final_extra c addr u target = Ok ex"
  shows "mm_vals ex k =
    (let w = (case target of None \<Rightarrow> u | Some x \<Rightarrow> x);
         own = mm_vals (extra_of w) k
           @ (if ExtraUserHeadersClientIPEnabled c \<and> k = UserHeaderClientIPKey then [addr] else [])
           @ mm_vals (ExtraUserHeaders c) k
     in if target = None then own
        else if k = ''originaluser.jetstack.io-user'' then [Name u]
        else if k = ''originaluser.jetstack.io-groups'' \<and> Groups u \<noteq> [] then Groups u
        else if k = ''originaluser.jetstack.io-uid'' \<and> UID u \<noteq> [] then [UID u]
        else if k = ''originaluser.jetstack.io-extra'' \<and> extra_of u \<noteq> [] then
          [case Marshal (extra_of u) of Ok text \<Rightarrow> text | _ \<Rightarrow> []]
        else own)"
  using assms by (rule final_extra_vals)

text \<open>C31: an impersonated request carries the extra fields of the original user as a JSON document
  that parses back to the same fields, each key once and in order with its values.\<close>

theorem original_extra_recorded:
  assumes "final_extra c addr u (Some w) = Ok ex" and "extra_of u \<noteq> []" and "wf_map (extra_of u)"
    and "wf_map (ExtraUserHeaders c)"
    and "\<And>k v vs. (k, vs) \<in> set (extra_of u) \<Longrightarrow> v \<in> insert k (set vs) \<Longrightarrow> valid_utf8 v"
  shows "\<exists>js. mm_vals ex ''originaluser.jetstack.io-extra'' = [js] \<and>
    parse_document js =
      Some (JObj (map (\<lambda>k. (k, JArr (map JStr (mm_vals (extra_of u) k)))) (sort (keys_of (extra_of u)))))"
proof -
  have "\<exists>js. Marshal (extra_of u) = Ok js \<and> parse_document js =
      Some (JObj (map (\<lambda>k. (k, JArr (map JStr (mm_vals (extra_of u) k)))) (sort (keys_of (extra_of u)))))"
    by (rule marshal_parse) (rule assms(5), assumption+, rule assms(3))
  then show ?thesis
    using original_fields [OF assms(4,1)] assms(2) by auto
qed

section \<open>Credentials\<close>

lemma set_transports_Ok:
  assumes "set_transports S p = Ok p1"
  shows "restConfig p1 = restConfig p \<and> proxyConfig p1 = proxyConfig p \<and>
    (if DisableImpersonation (proxyConfig p) \<or> TokenReviewEnabled (proxyConfig p)
     then noAuthClientTransport p1 = Some (RestTransport (no_auth_config (restConfig p))) \<and>
       namespaceTransport p1 =
         map_option (\<lambda>n. n\<lparr>Transport := RestTransport (no_auth_config (restConfig p))\<rparr>) (namespaceTransport p)
     else noAuthClientTransport p1 = noAuthClientTransport p \<and>
       namespaceTransport p1 = map_option (\<lambda>n. n\<lparr>Transport := RestTransport (restConfig p)\<rparr>) (namespaceTransport p))"
  using assms
  by (auto simp: set_transports_def roundTripperForRestConfig_def set_namespace_transport_def Let_def
      option.map_comp comp_def split: option.splits if_splits)

lemma started:
  assumes "Run E S p t = (Ok (h, p'), t')"
  obtains p1 target where "set_transports S p = Ok p1" "h = served E p1 target"
  using Run_served [OF assms] that by blast

text \<open>C23: the proxy's credentials. In a started proxy as built by \<open>New\<close>, a request that is passed on
  without impersonation goes out through a transport without the proxy's credentials, whether its
  user was accepted by the authenticator or by the API server's review.\<close>

theorem passthrough_without_credentials:
  assumes "transparent_env E" and "fresh req" and "wf_header (AuthHeader (bearer_authenticate E t req))"
    and "Run E S p t0 = (Ok (h, p'), t0')" and "h req t = (rep, t @ es)"
    and "oidc_user E req t = None \<or> DisableImpersonation (proxyConfig p)"
    and "(tr, r') \<in> set (sent_of es)"
  shows "\<exists>cfg. tr = RestTransport cfg \<and> Credentials cfg = [] \<and> Host cfg = Host (restConfig p)"
proof -
  obtain p1 target where p1: "set_transports S p = Ok p1" and h: "h = served E p1 target"
    by (rule started [OF assms(4)])
  note tr = set_transports_Ok [OF p1]
  obtain r t1 es2 c where adm: "admission E p1 req t = (Forwarded r, t1)"
    and r: "foreign_ctx (Context r) c" "goes_out E p1 (outgoing target (WithContext r c)) (tr, r')"
    by (rule sent_admittedE [OF assms(1) assms(5) [unfolded h] assms(7)])
  note A = admission_Forwarded [OF adm assms(2,3)]
  have "NoImpersonation r" using A assms(6) tr by (auto split: if_splits)
  with A tr have "DisableImpersonation (proxyConfig p) \<or> TokenReviewEnabled (proxyConfig p)"
    by (auto split: if_splits)
  with tr r \<open>NoImpersonation r\<close> foreign_ctx_reads [OF r(1)] show ?thesis
    by (auto simp: goes_out_def no_auth_config_def)
qed

text \<open>C24: with token passthrough enabled the proxy loses its credentials for everybody: the second
  transport also replaces the one of the namespace round tripper, so the requests it makes on
  behalf of authenticated users, impersonation headers and all, go out without credentials too;
  with passthrough and \<open>DisableImpersonation\<close> off they carry the proxy's own configuration.\<close>

theorem impersonated_transport:
  assumes "transparent_env E" and "fresh req" and "wf_header (AuthHeader (bearer_authenticate E t req))"
    and "Run E S p t0 = (Ok (h, p'), t0')" and "namespaceTransport p \<noteq> None"
    and "h req t = (rep, t @ es)" and "\<not> DisableImpersonation (proxyConfig p)"
    and "oidc_user E req t = Some u" and "(tr, r') \<in> set (sent_of es)"
  shows "tr = RestTransport (if TokenReviewEnabled (proxyConfig p) then no_auth_config (restConfig p)
                             else restConfig p)"
proof -
  obtain p1 target where p1: "set_transports S p = Ok p1" and h: "h = served E p1 target"
    by (rule started [OF assms(4)])
  note tr = set_transports_Ok [OF p1]
  obtain r t1 es2 c where adm: "admission E p1 req t = (Forwarded r, t1)"
    and r: "foreign_ctx (Context r) c" "goes_out E p1 (outgoing target (WithContext r c)) (tr, r')"
    by (rule sent_admittedE [OF assms(1) assms(6) [unfolded h] assms(9)])
  note A = admission_Forwarded [OF adm assms(2,3)]
  have "\<not> NoImpersonation r" using A assms(7,8) tr by (auto simp: oidc_user_def Let_def split: if_splits)
  moreover obtain ns where "namespaceTransport p = Some ns" using assms(5) by auto
  ultimately show ?thesis using tr r foreign_ctx_reads [OF r(1)] assms(7)
    by (auto simp: goes_out_def split: if_splits)
qed

text \<open>C25: with impersonation disabled the client's token is not passed on. The authenticator takes
  the token out of the header, nobody has kept it, and the last round trip adds an empty
  Authorization field in its place.\<close>

theorem disabled_impersonation_loses_token:
  assumes "transparent_env E" and "fresh req" and "wf_header (AuthHeader (bearer_authenticate E t req))"
    and "AuthHeader (bearer_authenticate E t req) = Del (Header req) ''Authorization''"
    and "DisableImpersonation (proxyConfig p)" and "oidc_user E req t = Some u"
    and "served E p target req t = (rep, t @ es)" and "(tr, r') \<in> set (sent_of es)"
  shows "Values (Header r') ''Authorization'' = [[]]"
proof -
  obtain r t1 es2 c where adm: "admission E p req t = (Forwarded r, t1)"
    and r: "foreign_ctx (Context r) c" "goes_out E p (outgoing target (WithContext r c)) (tr, r')"
    by (rule sent_admittedE [OF assms(1,7,8)])
  note A = admission_Forwarded [OF adm assms(2,3)]
  have no: "NoImpersonation r" using A assms(5) by (auto split: if_splits)
  with A assms(4) have hd: "Header r = Del (Header req) ''Authorization''" and tok: "BearerToken r = []" by auto
  have "canonical ''Authorization'' \<notin> key_set (Header r)" unfolding hd by (auto simp: Del_def AList.delete_eq)
  moreover have "canonical ''Authorization'' \<notin> set own_fields" by code_simp
  ultimately have "Values (outgoing_header (ReqRemoteAddr r) (Header r)) ''Authorization'' = []"
    by (rule Values_outgoing_absent)
  moreover have "Header r' = Add (outgoing_header (ReqRemoteAddr r) (Header r)) ''Authorization'' []"
    using r no foreign_ctx_reads [OF r(1)] tok by (simp add: goes_out_def)
  ultimately show ?thesis by (simp add: http_header.vals_add)
qed

section \<open>Tenants\<close>

lemma segments_slash: "segments (CHR ''/'' # p) = segments p"
  by (simp add: segments_def)

lemma segments_joined:
  assumes "a = [] \<or> a = ''/''"
  shows "segments (singleJoiningSlash a b) = segments b"
  using assms by (cases b) (auto simp: singleJoiningSlash_def Let_def segments_slash)

text \<open>The path of an impersonated request as the namespace round tripper gets it.\<close>

lemma impersonated_segments:
  assumes "admission E p req t = (Forwarded r, t1)" and "fresh req"
    and "wf_header (AuthHeader (bearer_authenticate E t req))" and "impersonates E"
    and "Path target = [] \<or> Path target = ''/''" and "\<not> NoImpersonation r" and "ImpersonationConfig r = Some conf"
  shows "segments (Path (URL (impersonate E (Config conf) (outgoing target (WithContext r c))))) =
    segments (Path (URL req))"
proof -
  note A = admission_Forwarded [OF assms(1-3)]
  with assms(6) obtain u w addr where
      prep: "prepared (proxyConfig p) addr (AuthHeader (bearer_authenticate E t req)) u w r" by auto
  let ?o = "outgoing target (WithContext r c)"
  from prep have plain: "\<forall>k \<in> key_set (Header r). \<not> prefix ''impersonate-'' (ToLower k)" by (auto simp: prepared_def)
  have "Values (Header ?o) ''Impersonate-User'' = []" using Values_outgoing_impersonation [OF plain] by simp
  then have "URL (impersonate E (Config conf) ?o) = URL ?o" using assms(4) by (simp add: impersonates_def)
  moreover have "URL r = URL req" using A by blast
  ultimately show ?thesis using segments_joined [OF assms(5)] by (simp add: outgoing_def director_def)
qed

lemma goes_out_isolated:
  assumes "impersonates E" and "fresh req" and "wf_header (AuthHeader (bearer_authenticate E t req))"
    and "\<not> DisableImpersonation (proxyConfig p)" and "oidc_user E req t = Some u"
    and "Path target = [] \<or> Path target = ''/''"
    and "segments (Path (URL req)) = tenant # region # rest"
    and "tenant \<noteq> ''api''" and "tenant \<noteq> ''namespaces''" and "region \<noteq> ''namespaces''"
    and "admission E p req t = (Forwarded r, t1)" and "foreign_ctx (Context r) c"
    and "namespaceTransport q = Some ns" and "mappings (MappingManager ns) tenant = Some n"
    and "\<And>k v. mappings (MappingManager ns) k = Some v \<Longrightarrow> clean [v]"
    and "goes_out E q (outgoing target (WithContext r c)) (tr, r')"
    and "segments (Path (URL r')) = pre @ ''namespaces'' # x # post" and "''namespaces'' \<notin> set pre"
  shows "x = n"
proof -
  note A = admission_Forwarded [OF assms(11,2,3)]
  have no: "\<not> NoImpersonation r" using A assms(4,5) by (auto simp: oidc_user_def Let_def split: if_splits)
  then obtain conf where conf: "ImpersonationConfig r = Some conf" using A by (auto simp: prepared_def)
  let ?o = "outgoing target (WithContext r c)"
  have segs: "segments (Path (URL (impersonate E (Config conf) ?o))) = tenant # region # rest"
    using impersonated_segments [OF assms(11,2,3,1,6) no conf] assms(7) by simp
  have rw: "rewrite_request ns (impersonate E (Config conf) ?o) = Ok r'"
    using assms(13,16) no conf foreign_ctx_reads [OF assms(12)] by (simp add: goes_out_def)
  show ?thesis
    by (rule rewrite_isolated [OF segs assms(8-10) assms(14) assms(15) rw assms(17) assms(18)])
qed


end
