(* ===== verification/Csv.thy ===== *)
theory Csv
  imports Prelude
begin

text \<open>
  What the source uses of package \<open>encoding/csv\<close>: reading the first record of a text and writing
  one record, both with the package's defaults (comma, strict quotes, no comments, no trimming).
  The reader keeps the current line and the lines not yet read, as the package does; the position
  in an error message is left out.
\<close>

section \<open>Reading a record\<close>

abbreviation dquote :: char where
  "dquote \<equiv> CHR 0x22"

abbreviation comma :: char where
  "comma \<equiv> CHR 0x2C"

datatype csv_error = CsvEOF | BareQuote | QuoteError

text \<open>The lines of a text, each with its newline.\<close>

fun raw_lines :: "string \<Rightarrow> string list" where
  "raw_lines [] = []"
| "raw_lines (c # s) =
     (if c = newline then [c] # raw_lines s
      else (case raw_lines s of [] \<Rightarrow> [[c]] | l # ls \<Rightarrow> (c # l) # ls))"

text \<open>\<open>readLine\<close>: a carriage return before the newline or at the end of the text is dropped.\<close>

definition normal_line :: "string \<Rightarrow> string" where
  "normal_line l =
     (if suffix [CHR 0x0D, newline] l then take (length l - 2) l @ [newline]
      else if suffix [CHR 0x0D] l then butlast l
      else l)"

definition lengthNL :: "string \<Rightarrow> nat" where
  "lengthNL l = (if suffix [newline] l then 1 else 0)"

text \<open>
  The rest of a quoted field: the field, and where the next one starts unless the record ends
  here.
\<close>

fun read_quoted :: "string \<Rightarrow> string list \<Rightarrow> csv_error + string \<times> (string \<times> string list) option" where
  "read_quoted [] [] = Inl QuoteError"
| "read_quoted [] (l # ls) = read_quoted l ls"
| "read_quoted (c # line) ls =
     (if c \<noteq> dquote then map_sum id (map_prod (Cons c) id) (read_quoted line ls)
      else (case line of
          [] \<Rightarrow> Inr ([], None)
        | d # line' \<Rightarrow>
            if d = dquote then map_sum id (map_prod (Cons dquote) id) (read_quoted line' ls)
            else if d = comma then Inr ([], Some (line', ls))
            else if line = [newline] then Inr ([], None)
            else Inl QuoteError))"

definition pending :: "string \<Rightarrow> string list \<Rightarrow> nat" where
  "pending line ls = length line + length (concat ls)"

lemma read_quoted_pending:
  "read_quoted line ls = Inr (f, Some (line', ls')) \<Longrightarrow> pending line' ls' < pending line ls"
proof (induction line ls arbitrary: f rule: read_quoted.induct)
  case (3 c line ls)
  show ?case
  proof (cases "c = dquote")
    case False
    then obtain f' where "read_quoted line ls = Inr (f', Some (line', ls'))"
      using "3.prems" by (cases "read_quoted line ls") auto
    from "3.IH"(1) [OF False this] show ?thesis by (simp add: pending_def)
  next
    case True
    with "3.prems" obtain d l where line: "line = d # l" by (cases line) auto
    show ?thesis
    proof (cases "d = dquote")
      case d: True
      then obtain f' where "read_quoted l ls = Inr (f', Some (line', ls'))"
        using "3.prems" True line by (cases "read_quoted l ls") auto
      from "3.IH"(2) [OF _ line d this] True show ?thesis by (simp add: pending_def line)
    next
      case False
      then show ?thesis using "3.prems" True line by (auto simp: pending_def split: if_splits)
    qed
  qed
qed (auto simp: pending_def)

text \<open>The fields of a record from the current place on.\<close>

function read_fields :: "string \<Rightarrow> string list \<Rightarrow> csv_error + string list" where
  "read_fields line ls =
     (if line = [] \<or> hd line \<noteq> dquote then
        (let field = takeWhile (\<lambda>c. c \<noteq> comma) line in
         if length field < length line then
           (if dquote \<in> set field then Inl BareQuote
            else map_sum id (Cons field) (read_fields (drop (length field + 1) line) ls))
         else
           (let field = take (length line - lengthNL line) line in
            if dquote \<in> set field then Inl BareQuote else Inr [field]))
      else (case read_quoted (tl line) ls of
          Inl e \<Rightarrow> Inl e
        | Inr (field, None) \<Rightarrow> Inr [field]
        | Inr (field, Some (line', ls')) \<Rightarrow> map_sum id (Cons field) (read_fields line' ls')))"
  by pat_completeness auto

termination
proof (relation "measure (\<lambda>(line, ls). pending line ls)", goal_cases)
  case (2 line ls field)
  then show ?case by (simp add: pending_def)
next
  case (3 line ls x a b y line' ls')
  then have "pending line' ls' < pending (tl line) ls" using read_quoted_pending by blast
  then show ?case by (simp add: pending_def)
qed simp

declare read_fields.simps [simp del]

text \<open>Empty lines before the record are skipped.\<close>

fun first_record :: "string list \<Rightarrow> csv_error + string list" where
  "first_record [] = Inl CsvEOF"
| "first_record (l # ls) = (if length l = lengthNL l then first_record ls else read_fields l ls)"

definition csv_read :: "string \<Rightarrow> csv_error + string list" where
  "csv_read s = first_record (map normal_line (raw_lines s))"

section \<open>Writing a record\<close>

definition fieldNeedsQuotes :: "string \<Rightarrow> bool" where
  "fieldNeedsQuotes f \<longleftrightarrow> f \<noteq> [] \<and>
     (f = [CHR 0x5C, CHR ''.''] \<or>
      list_ex (\<lambda>c. c = newline \<or> c = CHR 0x0D \<or> c = dquote \<or> c = comma) f \<or>
      list_ex (\<lambda>w. prefix w f) go_spaces)"

definition quote_body :: "string \<Rightarrow> string" where
  "quote_body f = concat (map (\<lambda>c. if c = dquote then [dquote, dquote] else [c]) f)"

definition write_field :: "string \<Rightarrow> string" where
  "write_field f = (if fieldNeedsQuotes f then dquote # quote_body f @ [dquote] else f)"

definition csv_write :: "string list \<Rightarrow> string" where
  "csv_write fs = join [comma] (map write_field fs) @ [newline]"

section \<open>What is written is read back\<close>

text \<open>The reader at a place of a text without carriage returns: the rest of the line, the lines
  after it.\<close>

definition line_of :: "string \<Rightarrow> string" where
  "line_of s = (case raw_lines s of [] \<Rightarrow> [] | l # _ \<Rightarrow> l)"

definition lines_after :: "string \<Rightarrow> string list" where
  "lines_after s = (case raw_lines s of [] \<Rightarrow> [] | _ # ls \<Rightarrow> ls)"

lemma at_simps [simp]:
  "line_of [] = []" "lines_after [] = []"
  "line_of (c # s) = c # (if c = newline then [] else line_of s)"
  "lines_after (c # s) = (if c = newline then raw_lines s else lines_after s)"
  by (auto simp: line_of_def lines_after_def split: list.splits)

definition quoted_at :: "string \<Rightarrow> csv_error + string \<times> (string \<times> string list) option" where
  "quoted_at s = read_quoted (line_of s) (lines_after s)"

definition fields_at :: "string \<Rightarrow> csv_error + string list" where
  "fields_at s = read_fields (line_of s) (lines_after s)"

lemma raw_lines_at: "s \<noteq> [] \<Longrightarrow> raw_lines s = line_of s # lines_after s"
  by (cases s) (auto simp: line_of_def lines_after_def split: list.splits)

lemma quoted_next: "read_quoted [] (raw_lines s) = quoted_at s"
  by (cases s) (auto simp: quoted_at_def line_of_def lines_after_def split: list.splits)

lemma quoted_char: "c \<noteq> dquote \<Longrightarrow> quoted_at (c # s) = map_sum id (map_prod (Cons c) id) (quoted_at s)"
  by (auto simp: quoted_at_def quoted_next [unfolded quoted_at_def])

lemma quoted_dquote: "quoted_at (dquote # dquote # s) = map_sum id (map_prod (Cons dquote) id) (quoted_at s)"
  by (simp add: quoted_at_def)

lemma quoted_body:
  assumes "quoted_at s = Inr ([], r)"
  shows "quoted_at (quote_body f @ s) = Inr (f, r)"
  using assms by (induction f) (auto simp: quote_body_def quoted_char quoted_dquote)

lemma quoted_end: "quoted_at [dquote] = Inr ([], None)"
  by (simp add: quoted_at_def)

lemma quoted_comma: "quoted_at (dquote # comma # s) = Inr ([], Some (line_of s, lines_after s))"
  by (simp add: quoted_at_def)

text \<open>A field that needs no quotes has none of the special characters.\<close>

lemma plain_field: "\<not> fieldNeedsQuotes f \<Longrightarrow> newline \<notin> set f \<and> dquote \<notin> set f \<and> comma \<notin> set f"
  by (cases "f = []") (auto simp: fieldNeedsQuotes_def list_ex_iff)

lemma line_of_plain: "newline \<notin> set f \<Longrightarrow> line_of (f @ s) = f @ line_of s \<and> lines_after (f @ s) = lines_after s"
  by (induction f) auto

lemma fields_last: "fields_at (write_field f) = Inr [f]"
proof (cases "fieldNeedsQuotes f")
  case True
  from quoted_body [OF quoted_end, of f] have "quoted_at (quote_body f @ [dquote]) = Inr (f, None)" .
  with True show ?thesis
    by (subst fields_at_def, subst read_fields.simps) (simp add: write_field_def quoted_at_def)
next
  case False
  then have plain: "newline \<notin> set f" "dquote \<notin> set f" "comma \<notin> set f" by (auto dest: plain_field)
  then have field: "takeWhile (\<lambda>c. c \<noteq> comma) f = f" "lengthNL f = 0"
    by (auto simp: takeWhile_eq_all_conv lengthNL_def suffix_def)
  have "f = [] \<or> hd f \<noteq> dquote" using plain(2) hd_in_set by metis
  moreover have at: "line_of f = f" "lines_after f = []" using line_of_plain [OF plain(1), of "[]"] by simp_all
  ultimately show ?thesis using False plain(2)
    by (subst fields_at_def, subst read_fields.simps) (simp add: write_field_def Let_def field at)
qed

lemma fields_more: "fields_at (write_field f @ comma # s) = map_sum id (Cons f) (fields_at s)"
proof (cases "fieldNeedsQuotes f")
  case True
  from quoted_body [OF quoted_comma, of f s]
  have "quoted_at (quote_body f @ dquote # comma # s) = Inr (f, Some (line_of s, lines_after s))" .
  with True show ?thesis
    by (subst fields_at_def, subst read_fields.simps) (simp add: fields_at_def write_field_def quoted_at_def)
next
  case False
  then have plain: "newline \<notin> set f" "dquote \<notin> set f" "comma \<notin> set f" by (auto dest: plain_field)
  then have field: "takeWhile (\<lambda>c. c \<noteq> comma) (f @ comma # line_of s) = f"
    by (subst takeWhile_append2) auto
  have "f @ comma # line_of s = [] \<or> hd (f @ comma # line_of s) \<noteq> dquote"
    using plain by (cases f) auto
  then show ?thesis
    using False plain line_of_plain [of f "comma # s"]
    by (subst fields_at_def, subst read_fields.simps) (simp add: fields_at_def write_field_def Let_def field)
qed

lemma fields_join: "fs \<noteq> [] \<Longrightarrow> fields_at (join [comma] (map write_field fs)) = Inr fs"
proof (induction fs rule: induct_list012)
  case (3 f g fs)
  then show ?case by (simp add: fields_more)
qed (simp_all add: fields_last)

lemma normal_line_id: "CHR 0x0D \<notin> set l \<Longrightarrow> normal_line l = l"
  by (auto simp: normal_line_def suffix_def)

lemma raw_lines_chars: "l \<in> set (raw_lines s) \<Longrightarrow> set l \<subseteq> set s"
  by (induction s arbitrary: l) (fastforce split: if_splits list.splits)+

lemma csv_read_at:
  assumes "CHR 0x0D \<notin> set s" and "s \<noteq> []" and "hd s \<noteq> newline"
  shows "csv_read s = fields_at s"
proof -
  have "map normal_line (raw_lines s) = raw_lines s"
    using raw_lines_chars assms(1) by (intro map_idI normal_line_id) blast
  moreover obtain c s' where "s = c # s'" "c \<noteq> newline" using assms by (cases s) auto
  moreover have "length (line_of s) \<noteq> lengthNL (line_of s)"
    using calculation by (auto simp: lengthNL_def suffix_def Cons_eq_append_conv)
  ultimately show ?thesis
    using raw_lines_at [OF assms(2)] by (simp add: csv_read_def fields_at_def)
qed

lemma write_field_chars: "c \<in> set (write_field f) \<Longrightarrow> c \<in> set f \<or> c = dquote"
  by (auto simp: write_field_def quote_body_def split: if_splits)

text \<open>A written record does not start with white space.\<close>

lemma spaces_plain: "w \<in> set go_spaces \<Longrightarrow> w \<noteq> [] \<and> comma \<notin> set w \<and> dquote \<notin> set w \<and> CHR ''='' \<notin> set w"
  by (auto simp: go_spaces_def)

lemma write_field_unspaced:
  assumes "w \<in> set go_spaces"
  shows "\<not> prefix w (write_field f)"
  using spaces_plain [OF assms] assms
  by (cases "f = []") (auto simp: write_field_def fieldNeedsQuotes_def list_ex_iff prefix_Cons)

lemma csv_unspaced:
  assumes "w \<in> set go_spaces"
  shows "\<not> prefix w (join [comma] (map write_field fs))"
proof (cases fs)
  case (Cons f fs')
  have "\<not> prefix w (write_field f @ comma # s)" for s
    using write_field_unspaced [OF assms, of f] spaces_plain [OF assms] by (auto simp: prefix_append prefix_Cons)
  then show ?thesis using Cons write_field_unspaced [OF assms] by (cases fs') simp_all
qed (use spaces_plain [OF assms] in simp)

lemma csv_roundtrip:
  assumes "fs \<noteq> []" and "fs \<noteq> [[]]" and "\<And>f. f \<in> set fs \<Longrightarrow> CHR 0x0D \<notin> set f"
  shows "csv_read (join [comma] (map write_field fs)) = Inr fs"
proof -
  let ?s = "join [comma] (map write_field fs)"
  have "CHR 0x0D \<notin> set ?s"
    using assms(3) set_join [of "[comma]" "map write_field fs"] write_field_chars by fastforce
  moreover have "?s \<noteq> []"
    using assms(1,2) by (cases fs rule: remdups_adj.cases) (auto simp: write_field_def fieldNeedsQuotes_def)
  moreover from this have "hd ?s \<noteq> newline"
    using csv_unspaced [of "[newline]" fs] by (cases ?s) (auto simp: go_spaces_def)
  ultimately show ?thesis using csv_read_at fields_join [OF assms(1)] by metis
qed

end
