(* ===== verification/Flags.thy ===== *)
theory Flags
  imports Csv
begin

text \<open>
  \<open>pkg/util/flags/string_to_string_slice.go\<close>: the value of the flag \<open>extra-user-headers\<close>, a map
  that collects the values of comma separated key=value pairs.  The value is a pointer to the
  map: no pointer, a nil map or a map.
\<close>

section \<open>The flag value\<close>

type_synonym flag_value = "smap option option"

datatype flag_error = Unreadable csv_error | NotKeyValue string

definition NewStringToStringSliceValue :: "smap option \<Rightarrow> flag_value" where
  "NewStringToStringSliceValue p = Some p"

text \<open>The loop of \<open>Set\<close>: the first pair without exactly one equals sign empties the map.\<close>

fun set_pairs :: "string list \<Rightarrow> smap \<Rightarrow> flag_error option \<times> smap" where
  "set_pairs [] m = (None, m)"
| "set_pairs (pair # ss) m =
     (let kv = split_on (CHR ''='') pair in
      if length kv \<noteq> 2 then (Some (NotKeyValue pair), [])
      else set_pairs ss (mm_append (kv ! 0) (kv ! 1) m))"

definition values_of :: "flag_value \<Rightarrow> smap" where
  "values_of s = (case s of Some (Some m) \<Rightarrow> m | _ \<Rightarrow> [])"

definition Set :: "string \<Rightarrow> flag_value \<Rightarrow> flag_error option \<times> flag_value" where
  "Set val s =
     (let m = values_of s in
      if length val = 0 then (None, Some (Some m))
      else (case csv_read val of
          Inl e \<Rightarrow> (Some (Unreadable e), Some (Some []))
        | Inr ss \<Rightarrow> (let (e, m') = set_pairs ss m in (e, Some (Some m')))))"

definition Type :: "flag_value \<Rightarrow> string" where
  "Type s = ''stringToStringSlice''"

definition pair_text :: "string \<Rightarrow> string \<Rightarrow> string" where
  "pair_text k v = k @ ''='' @ v"

definition records :: "smap \<Rightarrow> string list" where
  "records m = concat (map (\<lambda>(k, vs). map (pair_text k) vs) m)"

definition String :: "flag_value \<Rightarrow> string result" where
  "String s =
     (case s of
        None \<Rightarrow> Panic
      | Some m \<Rightarrow>
          Ok (''['' @ TrimSpace (csv_write (records (case m of None \<Rightarrow> [] | Some m' \<Rightarrow> m'))) @ '']''))"

fun error_text :: "flag_error \<Rightarrow> string option" where
  "error_text (Unreadable e) = None"
| "error_text (NotKeyValue pair) = Some (pair @ '' must be formatted as key=value'')"

section \<open>What a text sets\<close>

text \<open>The specification of \<open>Set\<close>: the pairs that a text gives, if it gives any.\<close>

definition as_pair :: "string \<Rightarrow> (string \<times> string) option" where
  "as_pair w = (case split_on (CHR ''='') w of [k, v] \<Rightarrow> Some (k, v) | _ \<Rightarrow> None)"

definition pairs_in :: "string \<Rightarrow> (string \<times> string) list option" where
  "pairs_in val =
     (if val = [] then Some []
      else (case csv_read val of
          Inl e \<Rightarrow> None
        | Inr ss \<Rightarrow> if list_all (\<lambda>w. as_pair w \<noteq> None) ss then Some (map (the \<circ> as_pair) ss) else None))"

lemma as_pair_text: "CHR ''='' \<notin> set k \<Longrightarrow> CHR ''='' \<notin> set v \<Longrightarrow> as_pair (pair_text k v) = Some (k, v)"
  using split_on_join [of "[k, v]" "CHR ''=''"] by (simp add: as_pair_def pair_text_def)

lemma as_pair_iff: "as_pair w \<noteq> None \<longleftrightarrow> length (split_on (CHR ''='') w) = 2"
  by (auto simp: as_pair_def split: list.splits)

lemma as_pair_Some: "as_pair w = Some (k, v) \<Longrightarrow>
    split_on (CHR ''='') w ! 0 = k \<and> split_on (CHR ''='') w ! 1 = v"
  by (auto simp: as_pair_def split: list.splits)

lemma set_pairs_all:
  "list_all (\<lambda>w. as_pair w \<noteq> None) ss \<Longrightarrow>
    set_pairs ss m = (None, foldl (\<lambda>m (k, v). mm_append k v m) m (map (the \<circ> as_pair) ss))"
proof (induction ss arbitrary: m)
  case (Cons w ss)
  then obtain k v where kv: "as_pair w = Some (k, v)" by auto
  with as_pair_iff [of w] as_pair_Some [OF kv] Cons show ?case by simp
qed simp

lemma set_pairs_bad:
  "\<not> list_all (\<lambda>w. as_pair w \<noteq> None) ss \<Longrightarrow> \<exists>e. set_pairs ss m = (Some e, [])"
proof (induction ss arbitrary: m)
  case (Cons w ss)
  then show ?case using as_pair_iff [of w] by (auto simp: Let_def)
qed simp

text \<open>C36: what setting the flag does. When the text gives pairs, every value is appended to what its
  key had, in order, and nothing else changes; when it does not, an error is returned and all
  values are gone, those of earlier settings included.\<close>

theorem flag_set_effect:
  "case pairs_in val of
     Some kvs \<Rightarrow> fst (Set val s) = None \<and> snd (Set val s) \<noteq> None \<and> snd (Set val s) \<noteq> Some None \<and>
       mm_vals (values_of (snd (Set val s))) k =
         mm_vals (values_of s) k @ map snd (filter (\<lambda>(k', v). k = k') kvs)
   | None \<Rightarrow> fst (Set val s) \<noteq> None \<and> snd (Set val s) = Some (Some [])"
proof (cases "val = []")
  case True
  then show ?thesis by (simp add: pairs_in_def Set_def values_of_def)
next
  case False
  show ?thesis
  proof (cases "csv_read val")
    case (Inl e)
    with False show ?thesis by (simp add: pairs_in_def Set_def)
  next
    case (Inr ss)
    show ?thesis
    proof (cases "list_all (\<lambda>w. as_pair w \<noteq> None) ss")
      case True
      with set_pairs_all [OF this, of "values_of s"] False Inr show ?thesis
        by (simp add: pairs_in_def Set_def go_map.vals_add_pairs values_of_def)
    next
      case bad: False
      with set_pairs_bad [OF this, of "values_of s"] False Inr show ?thesis
        by (auto simp: pairs_in_def Set_def)
    qed
  qed
qed

section \<open>Round trip\<close>

lemma pairs_back:
  "list_all (\<lambda>p. CHR ''='' \<notin> set (fst p) \<and> CHR ''='' \<notin> set (snd p)) kvs \<Longrightarrow>
    list_all (\<lambda>w. as_pair w \<noteq> None) (map (\<lambda>(k, v). pair_text k v) kvs) \<and>
    map (the \<circ> as_pair) (map (\<lambda>(k, v). pair_text k v) kvs) = kvs"
proof (induction kvs)
  case (Cons a kvs)
  obtain k v where a: "a = (k, v)" by fastforce
  with Cons.prems have "as_pair (pair_text k v) = Some (k, v)" by (intro as_pair_text) auto
  with a Cons show ?case by simp
qed simp

lemma foldl_records:
  assumes "wf_map (m @ ms)" and "\<And>k vs. (k, vs) \<in> set ms \<Longrightarrow> vs \<noteq> []"
  shows "foldl (\<lambda>m (k, v). mm_append k v m) m (concat (map (\<lambda>(k, vs). map (Pair k) vs) ms)) = m @ ms"
  using assms
proof (induction ms arbitrary: m)
  case (Cons a ms)
  obtain k vs where a: "a = (k, vs)" by fastforce
  then have k: "k \<notin> key_set m" using Cons.prems(1) by (auto simp: wf_map_def)
  have upd: "foldl (\<lambda>m (k, v). mm_append k v m) (m @ [(k, us)]) (map (Pair k) ws) = m @ [(k, us @ ws)]" for us ws
  proof (induction ws arbitrary: us)
    case (Cons w ws)
    have "map_of m k = None" using k by (simp add: map_of_eq_None_iff)
    then have "mm_vals (m @ [(k, us)]) k = us" by (simp add: mm_vals_def map_add_def)
    moreover have "AList.update k x (m @ [(k, us)]) = m @ [(k, x)]" for x using k by (induction m) auto
    ultimately show ?case using Cons by (simp add: mm_append_def)
  qed simp
  obtain v ws where vs: "vs = v # ws" using Cons.prems(2) a by (cases vs) auto
  have "AList.update k [v] m = m @ [(k, [v])]" using k by (induction m) auto
  then have "mm_append k v m = m @ [(k, [v])]" using k by (simp add: mm_append_def mm_vals_not_key)
  with upd [of "[v]" ws] have one: "foldl (\<lambda>m (k, v). mm_append k v m) m (map (Pair k) vs) = m @ [a]"
    by (simp add: vs a)
  have "foldl (\<lambda>m (k, v). mm_append k v m) (m @ [a]) (concat (map (\<lambda>(k, vs). map (Pair k) vs) ms)) = (m @ [a]) @ ms"
    using Cons.prems by (intro Cons.IH) auto
  with one a show ?case by simp
qed simp

lemma TrimSpace_record:
  assumes "fs \<noteq> []" and "fs \<noteq> [[]]" and "\<And>w. w \<in> set go_spaces \<Longrightarrow> \<not> suffix w (join [comma] (map write_field fs))"
  shows "TrimSpace (csv_write fs) = join [comma] (map write_field fs)"
proof -
  let ?s = "join [comma] (map write_field fs)"
  have ne: "?s \<noteq> []"
    using assms(1,2) by (cases fs rule: remdups_adj.cases) (auto simp: write_field_def fieldNeedsQuotes_def)
  have single: "\<forall>w \<in> set go_spaces. newline \<in> set w \<longrightarrow> w = [newline]" by code_simp
  have "\<not> prefix w (?s @ [newline])" if w: "w \<in> set go_spaces" for w
  proof
    assume p: "prefix w (?s @ [newline])"
    with csv_unspaced [OF w, of fs] have "newline \<in> set w" by (auto simp: prefix_append prefix_Cons)
    with single w have "w = [newline]" by blast
    with p ne have "prefix w ?s" by (cases ?s) auto
    with csv_unspaced [OF w] show False by blast
  qed
  then have left: "trim_left go_spaces (?s @ [newline]) = ?s @ [newline]" by (intro trim_left_id)
  have "find (\<lambda>w. w \<noteq> [] \<and> prefix w (newline # rev ?s)) (map rev go_spaces) = Some [newline]"
    by (simp add: go_spaces_def)
  then have "trim_left (map rev go_spaces) (newline # rev ?s) = trim_left (map rev go_spaces) (rev ?s)"
    by (subst trim_left.simps) simp
  also have "\<dots> = rev ?s" using assms(3) by (intro trim_left_id) (auto simp: suffix_to_prefix)
  finally show ?thesis using left by (simp add: TrimSpace_def csv_write_def)
qed

text \<open>A record whose values do not end in white space does not either.\<close>

lemma record_unspaced:
  assumes "w \<in> set go_spaces" and "\<And>v. v \<in> set vs \<Longrightarrow> \<not> suffix w v"
    and "\<And>f. f \<in> set fs \<Longrightarrow> \<exists>k. \<exists>v \<in> set vs. f = pair_text k v"
  shows "\<not> suffix w (join [comma] (map write_field fs))"
  using assms(3)
proof (induction fs rule: induct_list012)
  case 1
  then show ?case using spaces_plain [OF assms(1)] by simp
next
  case (2 f)
  then obtain k v where f: "f = pair_text k v" "v \<in> set vs" by auto
  have "\<not> suffix w f"
    using spaces_plain [OF assms(1)] assms(2) [OF f(2)] by (auto simp: f(1) pair_text_def suffix_append suffix_Cons)
  moreover have "\<not> suffix w (dquote # quote_body f @ [dquote])"
    using spaces_plain [OF assms(1)] by (cases w rule: rev_cases) (auto simp: suffix_Cons)
  ultimately show ?case by (simp add: write_field_def)
next
  case (3 f g fs)
  then have IH: "\<not> suffix w (join [comma] (map write_field (g # fs)))" by simp
  show ?case
    using spaces_plain [OF assms(1)] IH by (auto simp: suffix_append suffix_Cons)
qed

text \<open>C37: the printed value of the flag reads back as the value. This needs names and values
  without equals signs and carriage returns, values that do not end in white space, which the
  trimming of the printed text would take, and no name without a value.\<close>

theorem flag_roundtrip:
  assumes "wf_map m" and "\<And>k vs. (k, vs) \<in> set m \<Longrightarrow> vs \<noteq> []"
    and "\<And>k vs x. (k, vs) \<in> set m \<Longrightarrow> x \<in> insert k (set vs) \<Longrightarrow> CHR ''='' \<notin> set x \<and> CHR 0x0D \<notin> set x"
    and "\<And>k vs v w. (k, vs) \<in> set m \<Longrightarrow> v \<in> set vs \<Longrightarrow> w \<in> set go_spaces \<Longrightarrow> \<not> suffix w v"
  shows "\<exists>val. String (Some (Some m)) = Ok (''['' @ val @ '']'') \<and> Set val None = (None, Some (Some m))"
proof (cases "m = []")
  case True
  have "TrimSpace [newline] = []" by code_simp
  with True show ?thesis by (simp add: String_def records_def csv_write_def Set_def values_of_def)
next
  case False
  let ?fs = "records m" and ?kvs = "concat (map (\<lambda>(k, vs). map (Pair k) vs) m)"
  let ?val = "join [comma] (map write_field ?fs)"
  have fs: "?fs = map (\<lambda>(k, v). pair_text k v) ?kvs"
    by (simp add: records_def map_concat comp_def case_prod_unfold)
  obtain k vs m' where "m = (k, vs) # m'" using False by (cases m) auto
  with assms(2) have "?kvs \<noteq> []" by auto
  then have ne: "?fs \<noteq> []" by (simp add: fs)
  have mem: "\<exists>k vs v. (k, vs) \<in> set m \<and> v \<in> set vs \<and> f = pair_text k v" if "f \<in> set ?fs" for f
    using that by (auto simp: records_def)
  then have single: "?fs \<noteq> [[]]" by (auto simp: pair_text_def)
  have cr: "CHR 0x0D \<notin> set f" if f: "f \<in> set ?fs" for f
  proof -
    from mem [OF f] obtain k vs v where "(k, vs) \<in> set m" "v \<in> set vs" "f = pair_text k v" by blast
    then show ?thesis using assms(3) [of k vs k] assms(3) [of k vs v] by (simp add: pair_text_def)
  qed
  have "\<not> suffix w ?val" if "w \<in> set go_spaces" for w
  proof (rule record_unspaced [OF that, of "concat (map snd m)"])
    show "\<not> suffix w v" if "v \<in> set (concat (map snd m))" for v
      using that assms(4) \<open>w \<in> set go_spaces\<close> by auto
    show "\<exists>k. \<exists>v \<in> set (concat (map snd m)). f = pair_text k v" if "f \<in> set ?fs" for f
      using mem [OF that] by force
  qed
  then have "TrimSpace (csv_write ?fs) = ?val" by (rule TrimSpace_record [OF ne single])
  then have printed: "String (Some (Some m)) = Ok (''['' @ ?val @ '']'')" by (simp add: String_def)
  have read: "csv_read ?val = Inr ?fs" by (rule csv_roundtrip [OF ne single cr])
  moreover have "csv_read [] = Inl CsvEOF" by (simp add: csv_read_def)
  ultimately have "?val \<noteq> []" by force
  have "CHR ''='' \<notin> set (fst p) \<and> CHR ''='' \<notin> set (snd p)" if "p \<in> set ?kvs" for p
  proof -
    from that obtain k vs v where "p = (k, v)" "(k, vs) \<in> set m" "v \<in> set vs" by auto
    then show ?thesis using assms(3) [of k vs k] assms(3) [of k vs v] by simp
  qed
  then have "list_all (\<lambda>p. CHR ''='' \<notin> set (fst p) \<and> CHR ''='' \<notin> set (snd p)) ?kvs"
    unfolding list_all_iff by blast
  from pairs_back [OF this] have "list_all (\<lambda>w. as_pair w \<noteq> None) ?fs" "map (the \<circ> as_pair) ?fs = ?kvs"
    unfolding fs by blast+
  with set_pairs_all [of ?fs "[]"] foldl_records [of "[]" m] assms(1,2)
  have "set_pairs ?fs [] = (None, m)" by simp
  with read \<open>?val \<noteq> []\<close> have "Set ?val None = (None, Some (Some m))"
    by (simp add: Set_def values_of_def)
  with printed show ?thesis by blast
qed

theorem flag_roundtrip_witness:
  "\<exists>val. String (Some (Some [(''a'', [''1'', '' x,\"y'']), (''b'', [[]])])) = Ok (''['' @ val @ '']'') \<and>
     Set val None = (None, Some (Some [(''a'', [''1'', '' x,\"y'']), (''b'', [[]])]))"
proof (rule flag_roundtrip)
  have "\<forall>v \<in> set [''1'', '' x,\"y'', []]. \<forall>w \<in> set go_spaces. \<not> suffix w v" by code_simp
  then show "\<not> suffix w v"
    if "(k, vs) \<in> set [(''a'', [''1'', '' x,\"y'']), (''b'', [[]])]" "v \<in> set vs" "w \<in> set go_spaces" for k vs v w
    using that by auto
qed auto

end
