(* ===== verification/Probe.thy ===== *)
theory Probe
  imports Prelude
begin

text \<open>
  \<open>pkg/probe/probe.go\<close>: the readiness probe.  It is not ready until the OIDC authenticator has
  been initialised, which it finds out by presenting a fake token, and from then on ready for
  good.  The health check library serves the registered check; the answers of the authenticator
  may change from check to check, so a run of the probe is a list of authenticators.
\<close>

section \<open>The check\<close>

type_synonym token_auther = "string \<Rightarrow> go_error option"

record health_check =
  fakeJWT :: string
  ready :: bool

definition Check :: "token_auther \<Rightarrow> health_check \<Rightarrow> go_error option \<times> health_check" where
  "Check auther h =
     (if ready h then (None, h)
      else (case auther (fakeJWT h) of
          Some err \<Rightarrow>
            if suffix ''authenticator not initialized'' (Error err)
            then (Some (ErrMsg (''OIDC provider not yet initialized: '' @ Error err)), h)
            else (None, h\<lparr>ready := True\<rparr>)
        | None \<Rightarrow> (None, h\<lparr>ready := True\<rparr>)))"

section \<open>Serving it\<close>

text \<open>
  \<open>Run\<close> registers the check and starts a goroutine that listens, and listens again five seconds
  after the listener has returned; it never returns an error itself.
\<close>

datatype listener = Listening | Sleeping

datatype listener_event = ListenerReturned "go_error option" | Slept

record probe_server =
  check_name :: string
  health :: health_check
  address :: string
  listener :: listener

definition JoinHostPort :: "string \<Rightarrow> string \<Rightarrow> string" where
  "JoinHostPort host port =
     (if CHR '':'' \<in> set host then ''['' @ host @ '']:'' @ port else host @ '':'' @ port)"

definition RunProbe :: "string \<Rightarrow> string \<Rightarrow> go_error option \<times> probe_server" where
  "RunProbe port jwt =
     (None, \<lparr>check_name = ''secure serving'', health = \<lparr>fakeJWT = jwt, ready = False\<rparr>,
             address = JoinHostPort ''0.0.0.0'' port, listener = Listening\<rparr>)"

fun listener_step :: "listener_event \<Rightarrow> probe_server \<Rightarrow> probe_server option" where
  "listener_step (ListenerReturned err) s =
     (if listener s = Listening then Some (s\<lparr>listener := Sleeping\<rparr>) else None)"
| "listener_step Slept s =
     (if listener s = Sleeping then Some (s\<lparr>listener := Listening\<rparr>) else None)"

section \<open>Runs\<close>

fun run_checks :: "token_auther list \<Rightarrow> health_check \<Rightarrow> go_error option list \<times> health_check" where
  "run_checks [] h = ([], h)"
| "run_checks (a # as) h =
     (let (r, h') = Check a h; (rs, h'') = run_checks as h' in (r # rs, h''))"

text \<open>An authenticator that does not say that it is not initialised.\<close>

definition initialized :: "token_auther \<Rightarrow> string \<Rightarrow> bool" where
  "initialized a jwt =
     (case a jwt of None \<Rightarrow> True | Some err \<Rightarrow> \<not> suffix ''authenticator not initialized'' (Error err))"

lemma Check_cases:
  "fst (Check a h) = None \<longleftrightarrow> ready h \<or> initialized a (fakeJWT h)"
  "ready (snd (Check a h)) \<longleftrightarrow> ready h \<or> initialized a (fakeJWT h)"
  "fakeJWT (snd (Check a h)) = fakeJWT h"
  by (auto simp: Check_def initialized_def split: option.splits)

lemma run_checks_length: "length (fst (run_checks as h)) = length as"
  by (induction as arbitrary: h) (simp_all add: case_prod_unfold Let_def)

lemma run_checks_ready:
  "ready (snd (run_checks as h)) \<longleftrightarrow> ready h \<or> list_ex (\<lambda>a. initialized a (fakeJWT h)) as"
proof (induction as arbitrary: h)
  case (Cons a as)
  show ?case
    using Cons [of "snd (Check a h)"] Check_cases [of a h] by (auto simp: case_prod_unfold Let_def)
qed simp

lemma run_checks_nth:
  "i < length as \<Longrightarrow>
    fst (run_checks as h) ! i = None \<longleftrightarrow> ready h \<or> list_ex (\<lambda>a. initialized a (fakeJWT h)) (take (Suc i) as)"
proof (induction as arbitrary: h i)
  case (Cons a as)
  show ?case
    using Cons.IH [of _ "snd (Check a h)"] Cons.prems Check_cases [of a h]
    by (cases i) (auto simp: case_prod_unfold Let_def)
qed simp

text \<open>C38: the probe of a new proxy fails exactly as long as no check has found the authenticator
  initialised, and never fails again afterwards, whatever the authenticator says then.\<close>

theorem probe_latches:
  assumes "RunProbe port jwt = (e, s)" and "i < length as"
  shows "fst (run_checks as (health s)) ! i = None \<longleftrightarrow>
    list_ex (\<lambda>a. initialized a jwt) (take (Suc i) as)"
  using run_checks_nth [OF assms(2), of "health s"] assms(1) by (auto simp: RunProbe_def)

definition not_started :: token_auther where
  "not_started jwt = Some (ErrMsg ''oidc: authenticator not initialized'')"

definition rejecting :: token_auther where
  "rejecting jwt = Some (ErrMsg ''invalid token'')"

theorem probe_latches_witness:
  "\<exists>s. RunProbe ''8080'' ''jwt'' = (None, s) \<and>
     fst (run_checks [not_started, rejecting, not_started] (health s)) ! 0 \<noteq> None \<and>
     fst (run_checks [not_started, rejecting, not_started] (health s)) ! 2 = None"
proof -
  obtain s where run: "RunProbe ''8080'' ''jwt'' = (None, s)" by (simp add: RunProbe_def)
  have i: "\<not> initialized not_started ''jwt''" "initialized rejecting ''jwt''" by code_simp+
  note latch = probe_latches [OF run, of _ "[not_started, rejecting, not_started]"]
  have "fst (run_checks [not_started, rejecting, not_started] (health s)) ! 0 \<noteq> None"
    using latch [of 0] i by simp
  moreover have "fst (run_checks [not_started, rejecting, not_started] (health s)) ! 2 = None"
    using latch [of 2] i by (simp add: numeral_2_eq_2)
  ultimately show ?thesis using run by blast
qed

end
