(* ===== verification/Run_Command.thy ===== *)
theory Run_Command
  imports Proxy Flags Probe
begin

text \<open>
  \<open>cmd/app/run.go\<close> and \<open>cmd/main.go\<close>, with \<open>pkg/util/port.go\<close>: the command.  It validates the options, collects what the
  proxy is built from, starts the readiness probe and the proxy, waits until the server has
  stopped and runs the shutdown hooks.  The record \<open>command_env\<close> holds what the libraries of
  Kubernetes and go-jose do with the options.
\<close>

section \<open>Sequencing\<close>

fun and_then :: "'a result \<Rightarrow> ('a \<Rightarrow> 'b result) \<Rightarrow> 'b result" where
  "and_then (Ok x) f = f x"
| "and_then (Err e) f = Err e"
| "and_then Panic f = Panic"

lemma and_then_Ok: "and_then r f = Ok y \<longleftrightarrow> (\<exists>x. r = Ok x \<and> f x = Ok y)"
  by (cases r) auto

definition from_sum :: "go_error + 'a \<Rightarrow> 'a result" where
  "from_sum s = (case s of Inl e \<Rightarrow> Err e | Inr x \<Rightarrow> Ok x)"

lemma from_sum_Ok [simp]: "from_sum s = Ok x \<longleftrightarrow> s = Inr x"
  by (auto simp: from_sum_def split: sum.splits)

definition unless_error :: "go_error option \<Rightarrow> 'a result \<Rightarrow> 'a result" where
  "unless_error e r = (case e of None \<Rightarrow> r | Some err \<Rightarrow> Err err)"

lemma unless_error_Ok [simp]: "unless_error e r = Ok x \<longleftrightarrow> e = None \<and> r = Ok x"
  by (auto simp: unless_error_def split: option.splits)

section \<open>Building the proxy\<close>

record ('ss, 'ta, 'sg) command_env =
  serving_errors :: "serving_options \<Rightarrow> go_error list"
  audit_errors :: "go_error list"
  aggregate :: "go_error list \<Rightarrow> go_error option"
  to_rest_config :: "go_error + rest_config"
  in_cluster_config :: "go_error + rest_config"
  new_for_config :: "rest_config \<Rightarrow> go_error option"
  serving_apply :: "serving_options \<Rightarrow> go_error + 'ss"
  new_signer :: "string \<Rightarrow> go_error + 'sg"
  serialize :: "'sg \<Rightarrow> jwt_claims \<Rightarrow> go_error + string"
  platform_of :: "('ss, 'ta) platform"

text \<open>The client configuration: from the client flags when one was given, else the cluster's own.\<close>

definition client_config :: "('ss, 'ta, 'sg) command_env \<Rightarrow> flag_state \<Rightarrow> rest_config result" where
  "client_config C flags =
     (if ClientFlagsChanged flags then from_sum (to_rest_config C) else from_sum (in_cluster_config C))"

definition token_reviewer_for :: "('ss, 'ta, 'sg) command_env \<Rightarrow> app_options \<Rightarrow> rest_config \<Rightarrow>
    token_reviewer option result" where
  "token_reviewer_for C app rest =
     (if PassthroughEnabled app
      then map_result Some (NewTokenReview (new_for_config C rest) (PassthroughAudiences app))
      else Ok None)"

definition proxy_config :: "options \<Rightarrow> config" where
  "proxy_config opts =
     \<lparr>DisableImpersonation = AppDisableImpersonation (App opts),
      ConfigNSMappingFile = SuffixMappingFile (App opts),
      TokenReviewEnabled = PassthroughEnabled (App opts),
      FlushInterval = AppFlushInterval (App opts),
      ExternalAddress = BindAddress (SecureServingOpts opts),
      ExtraUserHeaders = AppExtraUserHeaders (App opts),
      ExtraUserHeadersClientIPEnabled = EnableClientIPExtraUserHeader (App opts)\<rparr>"

definition build_proxy :: "('ss, 'ta, 'sg) command_env \<Rightarrow> flag_state \<Rightarrow> options \<Rightarrow>
    (('ss, 'ta) proxy \<times> string) result" where
  "build_proxy C flags opts =
     and_then (client_config C flags) (\<lambda>rest.
     and_then (token_reviewer_for C (App opts) rest) (\<lambda>reviewer.
     and_then (from_sum (serving_apply C (SecureServingOpts opts))) (\<lambda>ssinfo.
     unless_error (new_for_config C rest) (
     and_then (NewSubjectAccessReview ()) (\<lambda>sar.
     and_then (New (platform_of C) rest (OIDCAuthentication opts) reviewer ssinfo (proxy_config opts)) (\<lambda>p.
     and_then (FakeJWT (new_signer C) (serialize C) (IssuerURL (OIDCAuthentication opts))) (\<lambda>jwt.
     Ok (p, jwt))))))))"

section \<open>Running it\<close>

text \<open>\<open>strconv.Itoa\<close>\<close>

fun digits :: "nat \<Rightarrow> string" where
  "digits n = (if n < 10 then [char_of (48 + n)] else digits (n div 10) @ [char_of (48 + n mod 10)])"

declare digits.simps [simp del]

definition Itoa :: "int \<Rightarrow> string" where
  "Itoa i = (if i < 0 then ''-'' @ digits (nat (- i)) else digits (nat i))"

text \<open>\<open>FreePort\<close> of \<open>pkg/util/port.go\<close>: the port that the system gave a listener, which is closed again.\<close>

definition FreePort :: "(string \<times> nat \<Rightarrow> go_error + nat) \<Rightarrow> string \<times> go_error option" where
  "FreePort listen =
     (case listen (''127.0.0.1'', 0) of Inl e \<Rightarrow> ([], Some e) | Inr port \<Rightarrow> (Itoa (int port), None))"

datatype ('ss, 'ta) run_outcome =
    VersionPrinted | Failed go_error | Panicked | Started handler "('ss, 'ta) proxy" probe_server

definition RunE :: "env \<Rightarrow> ('ss, 'ta, 'sg) command_env \<Rightarrow> bool \<Rightarrow> flag_state \<Rightarrow> options \<Rightarrow> trace \<Rightarrow>
    ('ss, 'ta) run_outcome \<times> trace" where
  "RunE E C version flags opts t =
     (case Validate (aggregate C) version (serving_errors C (SecureServingOpts opts)) (audit_errors C) opts of
        Exited \<Rightarrow> (VersionPrinted, t)
      | Validated (Some e) \<Rightarrow> (Failed e, t)
      | Validated None \<Rightarrow>
          (case build_proxy C flags opts of
             Err e \<Rightarrow> (Failed e, t)
           | Panic \<Rightarrow> (Panicked, t)
           | Ok (p, jwt) \<Rightarrow>
               (case RunProbe (Itoa (ReadinessProbePort (App opts))) jwt of
                  (Some e, s) \<Rightarrow> (Failed e, t)
                | (None, s) \<Rightarrow>
                    (case Run E (platform_of C) p t of
                       (Err e, t') \<Rightarrow> (Failed e, t')
                     | (Panic, t') \<Rightarrow> (Panicked, t')
                     | (Ok (h, p'), t') \<Rightarrow> (Started h p' s, t')))))"

text \<open>Once both channels are closed the hooks run; their error is the command's.\<close>

definition finish :: "('ss, 'ta, 'sg) command_env \<Rightarrow> ('ss, 'ta) proxy \<Rightarrow> trace \<Rightarrow> go_error option \<times> trace" where
  "finish C p t = RunHooks (aggregate C) p t"

text \<open>\<open>main\<close>: what is written to the standard error and the exit status.\<close>

definition main_exit :: "go_error option \<Rightarrow> string \<times> int" where
  "main_exit err =
     (case err of None \<Rightarrow> ([], 0) | Some e \<Rightarrow> (''error: '' @ Error e @ [newline], 1))"

section \<open>What a started command is\<close>

definition equipped :: "('ss, 'ta) proxy \<Rightarrow> bool" where
  "equipped p \<longleftrightarrow>
     clientTransport p \<noteq> None \<and>
     (TokenReviewEnabled (proxyConfig p) \<longrightarrow> tokenReviewer p \<noteq> None) \<and>
     (DisableImpersonation (proxyConfig p) \<or> TokenReviewEnabled (proxyConfig p) \<longrightarrow>
        noAuthClientTransport p \<noteq> None)"

lemma New_Ok:
  assumes "New S rest o' reviewer ssinfo c = Ok p"
  shows "tokenReviewer p = reviewer \<and> proxyConfig p = c \<and> restConfig p = rest \<and> proxyHooks p = NewHooks \<and>
    (\<exists>ns m. namespaceTransport p = Some ns \<and> MappingManager ns = m \<and>
       NewMappingManager (read_bytes S (ConfigNSMappingFile c)) = Ok m)"
  using assms
  by (auto simp: New_def NewCustomNamespaceRoundTripper_def split: sum.splits result.splits)

lemma build_proxy_Ok:
  assumes "build_proxy C flags opts = Ok (p, jwt)"
  shows "\<exists>ns. client_config C flags = Ok (restConfig p) \<and> proxyConfig p = proxy_config opts \<and>
    (tokenReviewer p = None \<longleftrightarrow> \<not> PassthroughEnabled (App opts)) \<and>
    proxyHooks p = NewHooks \<and> namespaceTransport p = Some ns \<and>
    NewMappingManager (read_bytes (platform_of C) (SuffixMappingFile (App opts))) = Ok (MappingManager ns)"
proof -
  from assms obtain rest reviewer ssinfo where rest: "client_config C flags = Ok rest"
    and rev: "token_reviewer_for C (App opts) rest = Ok reviewer"
    and new: "New (platform_of C) rest (OIDCAuthentication opts) reviewer ssinfo (proxy_config opts) = Ok p"
    by (auto simp: build_proxy_def and_then_Ok NewSubjectAccessReview_def)
  from rev have "reviewer = None \<longleftrightarrow> \<not> PassthroughEnabled (App opts)"
    by (auto simp: token_reviewer_for_def split: if_splits)
  with New_Ok [OF new] rest show ?thesis by (auto simp: proxy_config_def)
qed

end
