(* ===== verification/Answers.thy ===== *)
theory Answers
  imports End_To_End Run_Command
begin

text \<open>
  Every request gets an answer.  A handler panics where it dereferences nil or reads past the end
  of a slice; here it is shown that a proxy started by the command has what its handlers
  dereference, and on which paths the round tripper stays within its slices.
\<close>

section \<open>Paths on which the round tripper does not panic\<close>

text \<open>Every segment \<open>namespaces\<close> is followed by two more.\<close>

fun roomy :: "string list \<Rightarrow> bool" where
  "roomy [] \<longleftrightarrow> True"
| "roomy (s # segs) \<longleftrightarrow> (s = ''namespaces'' \<longrightarrow> length segs \<ge> 2) \<and> roomy segs"

lemma roomy_tl: "roomy segs \<Longrightarrow> roomy (tl segs)"
  by (cases segs) simp_all

lemma roomy_modify:
  assumes "\<And>k n. get k = (n, True) \<Longrightarrow> n \<noteq> [] \<and> n \<noteq> ''namespaces''"
  shows "roomy (filter (\<lambda>p. p \<noteq> []) parts) \<Longrightarrow> roomy (filter (\<lambda>p. p \<noteq> []) (modify_parts get suff hit parts))"
proof (induction parts arbitrary: suff hit)
  case (Cons part rest)
  let ?f = "filter (\<lambda>p. p \<noteq> [])"
  let ?hit = "hit \<or> part = ''api''"
  let ?take = "suff = [] \<and> \<not> ?hit"
  let ?suff = "if ?take then part else suff" and ?part = "if ?take then [] else part"
  show ?case
  proof (cases "part = ''namespaces'' \<and> rest \<noteq> []")
    case True
    with Cons.prems have room: "length (?f rest) \<ge> 2" "roomy (?f rest)" by auto
    obtain n known where n: "get ?suff = (n, known)" by fastforce
    let ?new = "if known then n # tl rest else rest"
    have "length (?f ?new) \<ge> 2 \<and> roomy (?f ?new)"
    proof (cases known)
      case True
      with n have "get ?suff = (n, True)" by simp
      from assms [OF this] have "n \<noteq> []" "n \<noteq> ''namespaces''" by blast+
      moreover have "length (?f rest) \<le> Suc (length (?f (tl rest)))" "roomy (?f (tl rest))"
        using room(2) by (cases rest; simp split: if_splits)+
      ultimately show ?thesis using True room(1) by simp
    qed (use room in simp)
    moreover have "modify_parts get suff hit (part # rest) = ?part # ?new"
      using True n by (cases known) (auto simp: Let_def)
    ultimately show ?thesis using True by simp
  next
    case False
    then have "modify_parts get suff hit (part # rest) = ?part # modify_parts get ?suff ?hit rest"
      by (auto simp: Let_def)
    moreover have "roomy (?f rest)" "part = ''namespaces'' \<Longrightarrow> False"
      using Cons.prems False by (auto split: if_splits)
    ultimately show ?thesis using Cons.IH [of ?suff ?hit] by auto
  qed
qed simp

lemma roomy_region: "roomy parts \<Longrightarrow> region_parts region parts q \<noteq> Panic"
  by (induction parts arbitrary: q) auto

lemma rewrite_no_panic:
  assumes "roomy (segments (Path (URL req)))"
    and "\<And>k v. mappings (MappingManager c) k = Some v \<Longrightarrow> clean [v] \<and> v \<noteq> ''namespaces''"
  shows "rewrite_request c req \<noteq> Panic"
proof -
  let ?get = "GetNamespace (MappingManager c)" and ?f = "filter (\<lambda>p. p \<noteq> [])"
  let ?parts = "modify_parts ?get [] False (split_on (CHR ''/'') (Path (URL req)))"
  have get: "get = ?get \<Longrightarrow> get k = (n, True) \<Longrightarrow> n \<noteq> [] \<and> n \<noteq> ''namespaces''" for get k n
    using assms(2) by (auto simp: GetNamespace_def split: option.splits)
  have noslash: "CHR ''/'' \<notin> set (fst (?get k))" for k
    using assms(2) by (auto simp: GetNamespace_def split: option.splits)
  have cl: "clean (?f ?parts)"
    using modify_parts_mem [of _ ?get "[]" False] split_on_no_sep noslash by (fastforce simp: clean_def)
  have room: "roomy (?f ?parts)"
    using assms(1) get by (intro roomy_modify) (auto simp: segments_def)
  let ?req = "req\<lparr>URL := (URL req)\<lparr>Path := modifyNamespaceInPath ?get (Path (URL req))\<rparr>\<rparr>"
  have path: "Path (URL ?req) = path_of (?f ?parts)"
    using cl by (simp add: modifyNamespaceInPath_def joinPath_clean)
  have "addRegionLabelSelectorInPath ?req \<noteq> Panic"
  proof (cases "?f ?parts")
    case Nil
    with path have "split_on (CHR ''/'') (Path (URL ?req)) = [[], []]" by (simp add: path_of_def)
    then show ?thesis by (simp add: addRegionLabelSelectorInPath_def)
  next
    case (Cons region segs)
    from roomy_tl [OF room] Cons have "roomy segs" by simp
    from roomy_region [OF this] addRegion_clean [OF _ path [unfolded Cons]] cl show ?thesis
      unfolding Cons by (simp del: clean_simps(2))
  qed
  then show ?thesis by (simp add: rewrite_request_def)
qed

section \<open>Handlers that do not crash\<close>

lemma Review_no_panic: "fst (Review E (Some tr) r t) \<noteq> Panic"
  by (auto simp: Review_def Let_def split: prod.splits sum.splits)

lemma authentication_no_crash:
  assumes "equipped p"
    and "AuthErr (bearer_authenticate E t req) = None \<Longrightarrow> AuthOk (bearer_authenticate E t req) \<Longrightarrow>
      AuthInfo (bearer_authenticate E t req) \<noteq> None"
  shows "fst (authentication E p req t) \<noteq> Crashed"
proof (cases "AuthErr (bearer_authenticate E t req)")
  case None
  with assms(2) show ?thesis by (auto simp: authentication_def Let_def split: option.splits)
next
  case (Some e)
  show ?thesis
  proof (cases "TokenReviewEnabled (proxyConfig p)")
    case True
    with assms(1) obtain tr where tr: "tokenReviewer p = Some tr" by (auto simp: equipped_def)
    let ?r = "fst (RemoteAddr E (req\<lparr>Header := AuthHeader (bearer_authenticate E t req)\<rparr>))"
    obtain x t' where x: "Review E (Some tr) ?r (t @ [AuthnCall req (bearer_authenticate E t req)]) = (x, t')"
      by fastforce
    then have "x \<noteq> Panic" using Review_no_panic fst_conv by metis
    with Some True tr x show ?thesis by (cases x) (auto simp: authentication_def Let_def split: bool.splits)
  qed (use Some in \<open>simp add: authentication_def Let_def\<close>)
qed

lemma final_extra_no_panic: "final_extra c addr u target \<noteq> Panic"
  by (auto simp: final_extra_def add_original_user_def Marshal_def Let_def split: option.splits)

lemma forwarded_as_no_crash: "forwarded_as p addr u target r \<noteq> Crashed"
  using final_extra_no_panic [of "proxyConfig p" addr u target]
  by (auto simp: forwarded_as_def Let_def split: result.splits)

lemma impersonation_no_crash:
  assumes "wf_header (Header req)"
  shows "fst (impersonation E p req t) \<noteq> Crashed"
proof -
  obtain r addr where r: "RemoteAddr E req = (r, addr)" by fastforce
  then have "wf_header (Header r)" using assms RemoteAddr_frame [of E req] by simp
  then have "fst (CheckAuthorizedForImpersonation E r u t) \<noteq> Panic" for u by (rule sar_no_panic)
  then show ?thesis
    by (auto simp: impersonation_def r forwarded_as_no_crash split: option.splits prod.splits result.splits)
       (metis fst_conv)
qed

lemma RoundTrip_no_panic:
  assumes "NoImpersonation r \<Longrightarrow> noAuthClientTransport p \<noteq> None" and "clientTransport p \<noteq> None"
    and "\<And>ns conf. namespaceTransport p = Some ns \<Longrightarrow> ImpersonationConfig r = Some conf \<Longrightarrow> \<not> NoImpersonation r \<Longrightarrow>
      rewrite_request ns (impersonate E (Config conf) r) \<noteq> Panic"
  shows "fst (RoundTrip E p r t) \<noteq> Panic"
proof (cases "NoImpersonation r")
  case True
  with assms(1) show ?thesis
    by (auto simp: RoundTrip_def send_via_def Let_def split: sum.splits)
next
  case False
  show ?thesis
  proof (cases "ImpersonationConfig r")
    case (Some conf)
    with False assms(2) assms(3) [OF _ Some False] show ?thesis
      by (cases "namespaceTransport p")
         (auto simp: RoundTrip_def NamespaceRoundTrip_def send_via_def Let_def split: result.splits sum.splits)
  qed (use False in \<open>simp add: RoundTrip_def\<close>)
qed

lemma reverse_proxy_answers:
  assumes "transparent_env E" and "fst (RoundTrip E p (outgoing target r) t) \<noteq> Panic"
  shows "fst (reverse_proxy target (RoundTrip E p) (newErrorHandler E p) r t) \<noteq> Aborted"
proof -
  have err: "fst (newErrorHandler E p x (Some e) t') \<noteq> Aborted" for x e t'
    using error_reply [OF assms(1)] by (metis prod.collapse reply.distinct(3))
  show ?thesis
    using assms(2) by (auto simp: reverse_proxy_def Let_def outgoing_def err split: result.splits prod.splits)
qed

lemma WithRequest_answers:
  assumes "transparent_env E" and "\<And>c t. foreign_ctx (Context r) c \<Longrightarrow> fst (h (WithContext r c) t) \<noteq> Aborted"
  shows "fst (WithRequest E h r t) \<noteq> Aborted"
  using WithRequest_transparent [OF assms(1)]
proof (cases rule: transparent_cases [where h = h and r = r and t = t])
  case (passed c es es' rep t')
  with assms(2) [of c "t @ es"] show ?thesis by simp
qed simp

lemma served_answers:
  assumes "transparent_env E" and "impersonates E" and "fresh req"
    and "wf_header (AuthHeader (bearer_authenticate E t req))"
    and "AuthErr (bearer_authenticate E t req) = None \<Longrightarrow> AuthOk (bearer_authenticate E t req) \<Longrightarrow>
      AuthInfo (bearer_authenticate E t req) \<noteq> None"
    and "equipped p" and "namespaceTransport p = Some ns" and "Path target = [] \<or> Path target = ''/''"
    and "\<And>k v. mappings (MappingManager ns) k = Some v \<Longrightarrow> clean [v] \<and> v \<noteq> ''namespaces''"
    and "roomy (segments (Path (URL req)))"
  shows "fst (served E p target req t) \<noteq> Aborted"
proof -
  obtain v t1 where adm: "admission E p req t = (v, t1)" by fastforce
  show ?thesis
  proof (cases v)
    case (Refused e r)
    with adm error_reply [OF assms(1)] show ?thesis
      unfolding served_def chain_policy by (metis carry_out.simps(1) prod.collapse reply.distinct(3))
  next
    case Crashed
    obtain a t0 where auth: "authentication E p req t = (a, t0)" by fastforce
    have "a \<noteq> Crashed" using authentication_no_crash [OF assms(6,5)] auth by (metis fst_conv)
    with adm auth Crashed obtain r where r: "a = Forwarded r" "impersonation E p r t0 = (Crashed, t1)"
      by (cases a) (auto simp: admission_def)
    have "Header r = AuthHeader (bearer_authenticate E t req)"
      using authentication_Forwarded [OF auth [unfolded r(1)] assms(3)] by blast
    with impersonation_no_crash [of r E p t0] assms(4) r(2) show ?thesis by simp
  next
    case (Forwarded r)
    note adm' = adm [unfolded Forwarded]
    note A = admission_Forwarded [OF adm' assms(3,4)]
    have "fst (RoundTrip E p (outgoing target (WithContext r c)) t2) \<noteq> Panic"
      if c: "foreign_ctx (Context r) c" for c t2
    proof (rule RoundTrip_no_panic)
      note reads = foreign_ctx_reads [OF c]
      show "noAuthClientTransport p \<noteq> None" if "NoImpersonation (outgoing target (WithContext r c))"
        using that reads A assms(6) by (auto simp: equipped_def)
      show "clientTransport p \<noteq> None" using assms(6) by (simp add: equipped_def)
      show "rewrite_request n (impersonate E (Config conf) (outgoing target (WithContext r c))) \<noteq> Panic"
        if "namespaceTransport p = Some n" "ImpersonationConfig (outgoing target (WithContext r c)) = Some conf"
          "\<not> NoImpersonation (outgoing target (WithContext r c))" for n conf
      proof (rule rewrite_no_panic)
        from that reads have "\<not> NoImpersonation r" "ImpersonationConfig r = Some conf" by simp_all
        from impersonated_segments [OF adm' assms(3,4,2,8) this] assms(10)
        show "roomy (segments (Path (URL (impersonate E (Config conf) (outgoing target (WithContext r c))))))" by simp
        show "clean [v] \<and> v \<noteq> ''namespaces''" if "mappings (MappingManager n) k = Some v" for k v
          using that \<open>namespaceTransport p = Some n\<close> assms(7,9) by auto
      qed
    qed
    then have "fst (WithRequest E (reverse_proxy target (RoundTrip E p) (newErrorHandler E p)) r t1) \<noteq> Aborted"
      by (intro WithRequest_answers reverse_proxy_answers assms(1))
    then show ?thesis unfolding served_def chain_policy adm' by simp
  qed
qed

section \<open>The command\<close>

lemma set_transports_equipped:
  assumes "set_transports S p = Ok p1" and "TokenReviewEnabled (proxyConfig p) \<Longrightarrow> tokenReviewer p \<noteq> None"
  shows "equipped p1"
  using assms
  by (auto simp: set_transports_def set_namespace_transport_def equipped_def Let_def split: result.splits if_splits)

lemma set_transports_frame:
  "set_transports S p = Ok p1 \<Longrightarrow> tokenReviewer p1 = tokenReviewer p \<and> proxyHooks p1 = proxyHooks p \<and>
     map_option MappingManager (namespaceTransport p1) = map_option MappingManager (namespaceTransport p)"
  by (cases "namespaceTransport p")
     (auto simp: set_transports_def set_namespace_transport_def Let_def split: result.splits if_splits)

lemma RunE_Started:
  assumes "RunE E C v flags opts t = (Started h p' s, t')"
  shows "\<exists>p p1 target ns. Run E (platform_of C) p t = (Ok (h, p'), t') \<and> restConfig p1 = restConfig p \<and>
    Validate (aggregate C) v (serving_errors C (SecureServingOpts opts)) (audit_errors C) opts = Validated None \<and>
    client_config C flags = Ok (restConfig p) \<and>
    set_transports (platform_of C) p = Ok p1 \<and> parse_url (platform_of C) (Host (restConfig p1)) = Inr target \<and>
    h = served E p1 target \<and> p' = snd (withHandlers E p1 h) \<and> equipped p1 \<and>
    proxyConfig p1 = proxy_config opts \<and> proxyHooks p1 = NewHooks \<and> namespaceTransport p1 = Some ns \<and>
    NewMappingManager (read_bytes (platform_of C) (SuffixMappingFile (App opts))) = Ok (MappingManager ns)"
proof -
  from assms obtain p jwt where build: "build_proxy C flags opts = Ok (p, jwt)"
    and ok: "Validate (aggregate C) v (serving_errors C (SecureServingOpts opts)) (audit_errors C) opts = Validated None"
    and run: "Run E (platform_of C) p t = (Ok (h, p'), t')"
    by (auto simp: RunE_def RunProbe_def split: validation.splits option.splits result.splits prod.splits)
  from Run_served [OF run] obtain p1 target where p1: "set_transports (platform_of C) p = Ok p1"
    "parse_url (platform_of C) (Host (restConfig p1)) = Inr target" "h = served E p1 target" "p' = snd (withHandlers E p1 h)"
    by blast
  from build_proxy_Ok [OF build] obtain ns where B: "client_config C flags = Ok (restConfig p)"
    "proxyConfig p = proxy_config opts" "tokenReviewer p = None \<longleftrightarrow> \<not> PassthroughEnabled (App opts)"
    "proxyHooks p = NewHooks" "namespaceTransport p = Some ns"
    "NewMappingManager (read_bytes (platform_of C) (SuffixMappingFile (App opts))) = Ok (MappingManager ns)"
    by (elim exE conjE) (rule that)
  have "equipped p1" by (rule set_transports_equipped [OF p1(1)]) (use B in \<open>simp add: proxy_config_def\<close>)
  moreover obtain ns1 where "namespaceTransport p1 = Some ns1" "MappingManager ns1 = MappingManager ns"
    using set_transports_frame [OF p1(1)] B(5) by auto
  ultimately show ?thesis
    using run ok p1 B set_transports_frame [OF p1(1)] set_transports_Ok [OF p1(1)]
    by (intro exI [of _ p] exI [of _ p1] exI [of _ target] exI [of _ ns1]) simp
qed

text \<open>C10: a started command answers every request: the connection is aborted for no request whose
  path leaves room behind every segment \<open>namespaces\<close>, if the mapping file holds proper namespace
  names, the API server's URL has no path and the authenticator names the user it accepts.\<close>

theorem command_answers:
  assumes "RunE E C v flags opts t0 = (Started h p' s, t0')"
    and "transparent_env E" and "impersonates E" and "fresh req"
    and "wf_header (AuthHeader (bearer_authenticate E t req))"
    and "AuthErr (bearer_authenticate E t req) = None \<Longrightarrow> AuthOk (bearer_authenticate E t req) \<Longrightarrow>
      AuthInfo (bearer_authenticate E t req) \<noteq> None"
    and "\<And>host target. parse_url (platform_of C) host = Inr target \<Longrightarrow> Path target = [] \<or> Path target = ''/''"
    and "\<And>m k v. NewMappingManager (read_bytes (platform_of C) (SuffixMappingFile (App opts))) = Ok m \<Longrightarrow>
      mappings m k = Some v \<Longrightarrow> clean [v] \<and> v \<noteq> ''namespaces''"
    and "roomy (segments (Path (URL req)))"
  shows "fst (h req t) \<noteq> Aborted"
proof -
  from RunE_Started [OF assms(1)] obtain p1 target ns where "p' = snd (withHandlers E p1 h)"
    "parse_url (platform_of C) (Host (restConfig p1)) = Inr target" "h = served E p1 target" "equipped p1"
    "namespaceTransport p1 = Some ns"
    "NewMappingManager (read_bytes (platform_of C) (SuffixMappingFile (App opts))) = Ok (MappingManager ns)"
    by (elim exE conjE) (rule that, assumption+)
  with served_answers [OF assms(2-6) _ _ _ _ assms(9)] assms(7,8) show ?thesis by blast
qed

text \<open>C40: when the server of a started command has stopped, the audit backend that was started with
  it is shut down, once, and the command fails only if the library makes an error of no errors.\<close>

theorem command_shuts_down:
  assumes "RunE E C v flags opts t0 = (Started h p' s, t0')"
  shows "finish C p' t =
    (aggregate C [], case AuditBackend (serverConfig (proxyAuditor p')) of None \<Rightarrow> t | Some b \<Rightarrow> BackendShutdown b t)"
proof -
  from RunE_Started [OF assms] obtain p1 target where p1: "p' = snd (withHandlers E p1 h)" "proxyHooks p1 = NewHooks"
    by (elim exE conjE) (rule that, assumption+)
  then have "proxyHooks p' = AddPreShutdownHook ''AuditBackend'' (Shutdown (proxyAuditor p')) NewHooks"
    by (simp add: withHandlers_def)
  then show ?thesis
    by (auto simp: finish_def RunHooks_def RunPreShutdownHooks_def AddPreShutdownHook_def NewHooks_def Shutdown_def
        split: option.splits)
qed

end
