(* ===== verification/Examples.thy ===== *)
theory Examples
  imports Answers
begin

text \<open>
  A concrete proxy with a concrete environment, run on concrete requests: the theorems of
  \<open>End_To_End\<close> at inputs where their hypotheses hold.
\<close>

section \<open>An example proxy\<close>

text \<open>
  The authenticator knows one token and takes it out of the header, the review endpoint another;
  the impersonating round tripper sets the user and adds the groups, as the client library does.
\<close>

definition alice :: user_info where
  "alice = \<lparr>Name = ''alice'', UID = [], Groups = [''dev''], Extra = None\<rparr>"

definition set_impersonation :: "imp_config \<Rightarrow> request \<Rightarrow> request" where
  "set_impersonation c r =
     (if Values (Header r) ''Impersonate-User'' \<noteq> [] then r
      else r\<lparr>Header := foldl (\<lambda>h g. Add h ''Impersonate-Group'' g)
             (SetHeader (Header r) ''Impersonate-User'' (ImpUserName c)) (ImpGroups c)\<rparr>)"

definition demo_env :: env where
  "demo_env = base_env\<lparr>
     bearer_authenticate := (\<lambda>t r.
       if Get (Header r) ''Authorization'' = ''Bearer good''
       then \<lparr>AuthInfo = Some alice, AuthOk = True, AuthErr = None, AuthHeader = Del (Header r) ''Authorization''\<rparr>
       else \<lparr>AuthInfo = None, AuthOk = False, AuthErr = Some (ErrMsg ''invalid bearer token''),
             AuthHeader = Header r\<rparr>),
     sar_create := (\<lambda>t. FakeReviewer_Create None),
     review_create := (\<lambda>t s. Inr \<lparr>ReviewError = [], IsAuthenticated = Token s = ''sa-token''\<rparr>),
     impersonate := set_impersonation\<rparr>"

definition demo_rest :: rest_config where
  "demo_rest = \<lparr>APIPath = [], Host = ''https://10.0.0.1'', Timeout = 0, CAFile = [], CAData = [],
     Credentials = ''proxy-sa''\<rparr>"

definition demo_config :: config where
  "demo_config = \<lparr>DisableImpersonation = False, ConfigNSMappingFile = ''/etc/map/ns.json'',
     TokenReviewEnabled = True, FlushInterval = 50000000, ExternalAddress = ''0.0.0.0'',
     ExtraUserHeaders = [(''cluster'', [''c1''])], ExtraUserHeadersClientIPEnabled = True\<rparr>"

definition demo_proxy :: "(unit, unit) proxy" where
  "demo_proxy = \<lparr>oidcRequestAuther = (), tokenAuther = (), tokenReviewer = Some \<lparr>audiences = []\<rparr>,
     secureServingInfo = (),
     proxyAuditor = \<lparr>serverConfig = \<lparr>ServerExternalAddress = [], SecureServing = (), LongRunningVerbs = [],
       AuditBackend = None, EffectiveVersion = []\<rparr>\<rparr>,
     restConfig = demo_rest, clientTransport = Some (RestTransport demo_rest),
     noAuthClientTransport = Some (RestTransport (no_auth_config demo_rest)),
     namespaceTransport = Some acme_rt, proxyConfig = demo_config, proxyHooks = NewHooks\<rparr>"

definition root_url :: url where
  "root_url = \<lparr>Path = ''/'', RawQuery = []\<rparr>"

definition ask :: "header \<Rightarrow> string \<Rightarrow> request" where
  "ask h path = \<lparr>Header = h, URL = \<lparr>Path = path, RawQuery = []\<rparr>, ReqRemoteAddr = ''10.9.9.9:4711'',
     RequestURI = path, Context = []\<rparr>"

definition good_request :: request where
  "good_request = ask [(''Authorization'', [''Bearer good''])] ''/acme/east/apis/c/v1/namespaces/x/machines''"

section \<open>Examples\<close>

lemma transparent_demo [simp]: "transparent_env demo_env"
  using transparent_id by (simp add: transparent_env_def demo_env_def base_env_def)

lemma fresh_ask [simp]: "fresh (ask h path)"
  by (simp add: fresh_def ask_def Value_def)

lemma Values_Adds:
  "Values (foldl (\<lambda>h g. Add h k g) h vs) k' = Values h k' @ (if canonical k' = canonical k then vs else [])"
  by (rule http_header.vals_add_values)

lemma impersonates_demo [simp]: "impersonates demo_env"
proof -
  have c: "canonical ''Impersonate-User'' = ''Impersonate-User''"
    "canonical ''Impersonate-Group'' = ''Impersonate-Group''"
    "prefix ''impersonate-'' (ToLower ''Impersonate-User'')"
    "prefix ''impersonate-'' (ToLower ''Impersonate-Group'')" by code_simp+
  have other: "canonical k \<noteq> ''Impersonate-User'' \<and> canonical k \<noteq> ''Impersonate-Group''"
    if "\<not> prefix ''impersonate-'' (ToLower k)" for k
    using that c(3,4) ToLower_canonical [of k] by metis
  have imp: "impersonate demo_env = set_impersonation" by (simp add: demo_env_def)
  show ?thesis
    using other by (auto simp: impersonates_def imp set_impersonation_def Values_Adds c)
qed

definition strict_proxy :: "(unit, unit) proxy" where
  "strict_proxy = demo_proxy\<lparr>proxyConfig := demo_config\<lparr>TokenReviewEnabled := False\<rparr>\<rparr>"

definition jj_request :: request where
  "jj_request = ask [(''Authorization'', [''Bearer good'']), (''Impersonate-User'', [''jjackson'']),
     (''Impersonate-Group'', [''group3''])] ''/acme/east/apis/c/v1/namespaces/x/machines''"

definition sa_request :: request where
  "sa_request = ask [(''Authorization'', [''Bearer sa-token''])] ''/api/v1/pods''"

definition bad_request :: request where
  "bad_request = ask [(''Authorization'', [''Bearer bad''])] ''/api/v1/pods''"

lemma good_sent:
  "map (\<lambda>(tr, r). (Values (Header r) ''Impersonate-User'', segments (Path (URL r))))
     (sent_of (snd (served demo_env demo_proxy root_url good_request []))) =
   [([''alice''], [''apis'', ''c'', ''v1'', ''namespaces'', ''ns-acme'', ''machines''])]"
  by code_simp

lemma jj_sent:
  "map (\<lambda>(tr, r). Values (Header r) ''Impersonate-User'')
     (sent_of (snd (served demo_env demo_proxy root_url jj_request []))) = [[''jjackson'']]"
  by code_simp

lemma ask_authenticated:
  "wf_header (AuthHeader (bearer_authenticate demo_env [] good_request))"
  "wf_header (AuthHeader (bearer_authenticate demo_env [] jj_request))"
  "wf_header (AuthHeader (bearer_authenticate demo_env [] sa_request))"
  "oidc_user demo_env good_request [] = Some alice"
  "oidc_user demo_env jj_request [] = Some alice"
  "oidc_user demo_env sa_request [] = None"
  by code_simp+

theorem only_authenticated_sent_witness:
  "\<exists>rep es. served demo_env demo_proxy root_url good_request [] = (rep, es) \<and> sent_of es \<noteq> [] \<and>
    ((\<exists>u. oidc_user demo_env good_request [] = Some u \<and> (Name u \<noteq> [] \<or> DisableImpersonation (proxyConfig demo_proxy))) \<or>
     TokenReviewEnabled (proxyConfig demo_proxy) \<and>
       reviewed demo_proxy (AuthHeader (bearer_authenticate demo_env [] good_request)) es)"
proof -
  obtain rep es where run: "served demo_env demo_proxy root_url good_request [] = (rep, es)" by fastforce
  moreover have "sent_of es \<noteq> []" using good_sent run by auto
  moreover have "fresh good_request" by (simp add: good_request_def)
  ultimately show ?thesis
    using only_authenticated_sent [OF transparent_demo _ ask_authenticated(1) run] by auto
qed

theorem impersonated_identity_witness:
  "\<exists>rep es tr r' w. served demo_env demo_proxy root_url jj_request [] = (rep, es) \<and>
    (tr, r') \<in> set (sent_of es) \<and>
    may_act_as (AuthHeader (bearer_authenticate demo_env [] jj_request)) alice w es \<and>
    Values (Header r') ''Impersonate-User'' = [Name w] \<and> Name w = ''jjackson''"
proof -
  obtain rep es where run: "served demo_env demo_proxy root_url jj_request [] = (rep, [] @ es)" by fastforce
  with jj_sent obtain tr r' where sent: "(tr, r') \<in> set (sent_of es)" "Values (Header r') ''Impersonate-User'' = [''jjackson'']"
    by (cases "sent_of es") auto
  have f: "fresh jj_request" by (simp add: jj_request_def)
  have d: "\<not> DisableImpersonation (proxyConfig demo_proxy)" by (simp add: demo_proxy_def demo_config_def)
  from impersonated_identity [OF transparent_demo impersonates_demo f ask_authenticated(2) d
      ask_authenticated(5) run sent(1)] run sent
  show ?thesis by fastforce
qed

theorem unauthenticated_refused_witness:
  "\<exists>code body es. served demo_env strict_proxy root_url bad_request [] = (HttpError code body, es) \<and> sent_of es = []"
proof -
  obtain rep es where run: "served demo_env strict_proxy root_url bad_request [] = (rep, es)" by fastforce
  have off: "\<not> TokenReviewEnabled (proxyConfig strict_proxy)" by (simp add: strict_proxy_def)
  have bad: "AuthErr (bearer_authenticate demo_env [] bad_request) \<noteq> None \<or> \<not> AuthOk (bearer_authenticate demo_env [] bad_request)"
    by code_simp
  from unauthenticated_refused [OF transparent_demo off bad run] run show ?thesis by auto
qed


definition eve_request :: request where
  "eve_request = WithContext (ask [(''Impersonate-User'', [''eve''])] ''/api'') (WithUser [] alice)"

theorem denied_impersonation_403_witness:
  "\<exists>t1. withImpersonateRequest demo_env demo_proxy (\<lambda>r t. (Aborted, t)) eve_request [] =
    (HttpError 403 (''alice'' @ '' is not allowed to impersonate '' @ ''user'' @ '' '' @ quoted ''eve''), t1)"
proof -
  have user: "UserFrom (Context eve_request) = Some alice" by (simp add: eve_request_def)
  have rest: "\<not> NoImpersonation eve_request" "\<not> DisableImpersonation (proxyConfig demo_proxy)" "Name alice = ''alice''"
    "Name alice \<noteq> []" "hasImpersonation (Header eve_request)" by code_simp+
  have "fst (CheckAuthorizedForImpersonation demo_env (fst (RemoteAddr demo_env eve_request)) alice []) =
      Err (denied_msg (Name alice) ''user'' ''eve'')" by code_simp
  then obtain t1 where "CheckAuthorizedForImpersonation demo_env (fst (RemoteAddr demo_env eve_request)) alice [] =
      (Err (denied_msg (Name alice) ''user'' ''eve''), t1)" by (metis prod.collapse)
  from denied_impersonation_403 [OF rest(1,2) user rest(4,5) this] rest(3) show ?thesis by auto
qed

theorem final_extra_fields_witness:
  "\<exists>ex. final_extra demo_config ''10.9.9.9'' mmosley (Some alice) = Ok ex \<and>
    mm_vals ex ''originaluser.jetstack.io-user'' = [''mmosley''] \<and> mm_vals ex ''cluster'' = [''c1'']"
proof -
  obtain ex where ex: "final_extra demo_config ''10.9.9.9'' mmosley (Some alice) = Ok ex"
    using add_original_user_vals [of mmosley] by (fastforce simp: final_extra_def Let_def)
  have "wf_map (ExtraUserHeaders demo_config)" by (simp add: demo_config_def)
  note vals = final_extra_fields [OF this ex]
  have "mm_vals ex ''originaluser.jetstack.io-user'' = [''mmosley'']"
    unfolding vals by (simp add: mmosley_def Let_def)
  moreover have "mm_vals ex ''cluster'' = [''c1'']"
    unfolding vals by (simp add: demo_config_def alice_def extra_of_def UserHeaderClientIPKey_def mm_vals_Cons Let_def)
  ultimately show ?thesis using ex by blast
qed

theorem original_extra_recorded_witness:
  "\<exists>ex js. final_extra demo_config ''10.9.9.9'' (alice\<lparr>Extra := Some [(''dept'', [''rnd'', ''<ops>''])]\<rparr>) (Some mmosley) = Ok ex
    \<and> mm_vals ex ''originaluser.jetstack.io-extra'' = [js]
    \<and> parse_document js = Some (JObj [(''dept'', JArr [JStr ''rnd'', JStr ''<ops>''])])"
proof -
  let ?u = "alice\<lparr>Extra := Some [(''dept'', [''rnd'', ''<ops>''])]\<rparr>"
  obtain ex where ex: "final_extra demo_config ''10.9.9.9'' ?u (Some mmosley) = Ok ex"
    using add_original_user_vals [of ?u] by (fastforce simp: final_extra_def Let_def)
  have "valid_utf8 ''dept''" "valid_utf8 ''rnd''" "valid_utf8 ''<ops>''" by code_simp+
  then have "(k, vs) \<in> set (extra_of ?u) \<Longrightarrow> v \<in> insert k (set vs) \<Longrightarrow> valid_utf8 v" for k v vs
    by (auto simp: extra_of_def)
  from original_extra_recorded [OF ex _ _ _ this] show ?thesis
    using ex by (auto simp: extra_of_def demo_config_def mm_vals_Cons)
qed

definition demo_platform :: "(unit, unit) platform" where
  "demo_platform = \<lparr>read_bytes = (\<lambda>f. Inr []), oidc_new = (\<lambda>o'. Inr ()), audit_apply = Inr, audit_complete = (\<lambda>c. c),
     tls_config_for = (\<lambda>c. None), transport_config = (\<lambda>c. None), http_wrappers = (\<lambda>c. None),
     parse_url = (\<lambda>h. Inr root_url), serve_error = (\<lambda>s. None)\<rparr>"

definition started_proxy :: "(unit, unit) proxy" where
  "started_proxy = demo_proxy\<lparr>namespaceTransport := Some (acme_rt\<lparr>Transport := RestTransport (no_auth_config demo_rest)\<rparr>)\<rparr>"

lemma demo_Run: "Run demo_env demo_platform demo_proxy [] =
  (Ok (served demo_env started_proxy root_url, snd (withHandlers demo_env started_proxy (\<lambda>r t. (Aborted, t)))), [])"
  by (simp add: Run_def set_transports_def roundTripperForRestConfig_def demo_platform_def serve_def
      withHandlers_def RunAudit_def served_def started_proxy_def demo_proxy_def demo_config_def
      set_namespace_transport_def Let_def)

lemma sa_sent: "length (sent_of (snd (served demo_env started_proxy root_url sa_request []))) = 1"
  by code_simp

lemma good_started_sent: "length (sent_of (snd (served demo_env started_proxy root_url good_request []))) = 1"
  by code_simp

theorem passthrough_without_credentials_witness:
  "\<exists>rep es tr r' cfg. served demo_env started_proxy root_url sa_request [] = (rep, es) \<and>
    (tr, r') \<in> set (sent_of es) \<and> tr = RestTransport cfg \<and> Credentials cfg = [] \<and> Host cfg = ''https://10.0.0.1''"
proof -
  obtain rep es where run: "served demo_env started_proxy root_url sa_request [] = (rep, [] @ es)" by fastforce
  with sa_sent obtain tr r' where sent: "(tr, r') \<in> set (sent_of es)" by (cases "sent_of es") auto
  have f: "fresh sa_request" by (simp add: sa_request_def)
  have "Host (restConfig demo_proxy) = ''https://10.0.0.1''" by (simp add: demo_proxy_def demo_rest_def)
  with passthrough_without_credentials [OF transparent_demo f ask_authenticated(3) demo_Run run _ sent]
    ask_authenticated(6) run sent
  show ?thesis by auto
qed

theorem impersonated_transport_witness:
  "\<exists>rep es tr r'. served demo_env started_proxy root_url good_request [] = (rep, es) \<and>
    (tr, r') \<in> set (sent_of es) \<and> tr = RestTransport (no_auth_config demo_rest)"
proof -
  obtain rep es where run: "served demo_env started_proxy root_url good_request [] = (rep, [] @ es)" by fastforce
  with good_started_sent obtain tr r' where sent: "(tr, r') \<in> set (sent_of es)" by (cases "sent_of es") auto
  have f: "fresh good_request" by (simp add: good_request_def)
  have cfg: "namespaceTransport demo_proxy \<noteq> None" "\<not> DisableImpersonation (proxyConfig demo_proxy)"
    "TokenReviewEnabled (proxyConfig demo_proxy)" "restConfig demo_proxy = demo_rest"
    by (simp_all add: demo_proxy_def demo_config_def)
  from impersonated_transport [OF transparent_demo f ask_authenticated(1) demo_Run cfg(1) run cfg(2)
      ask_authenticated(4) sent] cfg run sent
  show ?thesis by auto
qed

definition open_proxy :: "(unit, unit) proxy" where
  "open_proxy = demo_proxy\<lparr>proxyConfig := demo_config\<lparr>DisableImpersonation := True\<rparr>\<rparr>"

lemma open_sent: "length (sent_of (snd (served demo_env open_proxy root_url good_request []))) = 1"
  by code_simp

theorem disabled_impersonation_loses_token_witness:
  "\<exists>rep es tr r'. served demo_env open_proxy root_url good_request [] = (rep, es) \<and>
    (tr, r') \<in> set (sent_of es) \<and> Values (Header r') ''Authorization'' = [[]]"
proof -
  obtain rep es where run: "served demo_env open_proxy root_url good_request [] = (rep, [] @ es)" by fastforce
  with open_sent obtain tr r' where sent: "(tr, r') \<in> set (sent_of es)" by (cases "sent_of es") auto
  have f: "fresh good_request" by (simp add: good_request_def)
  have del: "AuthHeader (bearer_authenticate demo_env [] good_request) = Del (Header good_request) ''Authorization''"
    by code_simp
  have d: "DisableImpersonation (proxyConfig open_proxy)" by (simp add: open_proxy_def)
  from disabled_impersonation_loses_token [OF transparent_demo f ask_authenticated(1) del d
      ask_authenticated(4) run sent] run sent
  show ?thesis by auto
qed


definition tenant1_request :: request where
  "tenant1_request = ask [(''Authorization'', [''Bearer good''])] ''/tenant1/east/apis/c/v1/namespaces/x/machines''"

section \<open>An example command\<close>

text \<open>The command inside a cluster, with a mapping file of one tenant.\<close>

definition demo_launch :: "(unit, unit, unit) command_env" where
  "demo_launch = \<lparr>serving_errors = (\<lambda>o'. []), audit_errors = [],
     aggregate = (\<lambda>es. case es of [] \<Rightarrow> None | e # _ \<Rightarrow> Some e),
     to_rest_config = Inl (ErrMsg ''no configuration''), in_cluster_config = Inr demo_rest,
     new_for_config = (\<lambda>cfg. None), serving_apply = (\<lambda>o'. Inr ()),
     new_signer = (\<lambda>key. Inr ()), serialize = (\<lambda>sg c. Inr ''jwt''),
     platform_of = demo_platform\<lparr>read_bytes := (\<lambda>f. Inr (ns_file ''ns-one''))\<rparr>\<rparr>"

lemma demo_loaded: "NewMappingManager (Inr (ns_file ''ns-one'')) = Ok \<lparr>mappings = [''tenant1'' \<mapsto> ''ns-one'']\<rparr>"
  by (simp add: NewMappingManager_def loadMappings_def)

lemma demo_started:
  "\<exists>h p' s. RunE demo_env demo_launch False (\<lambda>f. None) NewOptions [] = (Started h p' s, [])"
proof -
  have valid: "Validate (aggregate demo_launch) False (serving_errors demo_launch (SecureServingOpts NewOptions))
      (audit_errors demo_launch) NewOptions = Validated None"
    by (simp add: demo_launch_def Validate_def validation_errors_def ValidateOIDC_def NewOptions_def
        NewKubeOIDCProxyOptions_def NewOIDCAuthenticationOptions_def NewSecureServingOptions_def)
  have "client_config demo_launch (\<lambda>f. None) = Ok demo_rest"
    by (simp add: client_config_def ClientFlagsChanged_def clientOptionFlags_def demo_launch_def)
  moreover have "token_reviewer_for demo_launch (App NewOptions) demo_rest = Ok None"
    by (simp add: token_reviewer_for_def NewOptions_def NewKubeOIDCProxyOptions_def)
  moreover obtain p where p: "New (platform_of demo_launch) demo_rest (OIDCAuthentication NewOptions) None ()
      (proxy_config NewOptions) = Ok p" and quiet: "AuditBackend (serverConfig (proxyAuditor p)) = None"
    by (simp add: New_def NewAudit_def NewCustomNamespaceRoundTripper_def demo_launch_def demo_platform_def demo_loaded)
  moreover have "FakeJWT (new_signer demo_launch) (serialize demo_launch) (IssuerURL (OIDCAuthentication NewOptions)) = Ok ''jwt''"
    by (simp add: FakeJWT_def demo_launch_def)
  ultimately have build: "build_proxy demo_launch (\<lambda>f. None) NewOptions = Ok (p, ''jwt'')"
    by (simp add: build_proxy_def NewSubjectAccessReview_def from_sum_def unless_error_def demo_launch_def)
  have "\<exists>h p'. Run demo_env (platform_of demo_launch) p [] = (Ok (h, p'), [])"
    using quiet
    by (simp add: Run_def set_transports_def roundTripperForRestConfig_def demo_launch_def demo_platform_def serve_def
        withHandlers_def RunAudit_def set_namespace_transport_def Let_def)
  with valid build show ?thesis by (auto simp: RunE_def RunProbe_def)
qed

theorem command_answers_witness:
  "\<exists>h p' s. RunE demo_env demo_launch False (\<lambda>f. None) NewOptions [] = (Started h p' s, []) \<and>
     fst (h good_request []) \<noteq> Aborted"
proof -
  obtain h p' s where run: "RunE demo_env demo_launch False (\<lambda>f. None) NewOptions [] = (Started h p' s, [])"
    using demo_started by blast
  have "fst (h good_request []) \<noteq> Aborted"
  proof (rule command_answers [OF run transparent_demo impersonates_demo _ ask_authenticated(1)])
    show "fresh good_request" by (simp add: good_request_def)
    show "AuthInfo (bearer_authenticate demo_env [] good_request) \<noteq> None" by code_simp
    show "Path target = [] \<or> Path target = ''/''" if "parse_url (platform_of demo_launch) host = Inr target" for host target
      using that by (auto simp: demo_launch_def demo_platform_def root_url_def)
    show "clean [v] \<and> v \<noteq> ''namespaces''"
      if "NewMappingManager (read_bytes (platform_of demo_launch) (SuffixMappingFile (App NewOptions))) = Ok m"
        "mappings m k = Some v" for m k v
      using that by (auto simp: demo_launch_def demo_loaded split: if_splits)
    show "roomy (segments (Path (URL good_request)))" by code_simp
  qed
  with run show ?thesis by blast
qed

theorem command_shuts_down_witness:
  "\<exists>h p' s. RunE demo_env demo_launch False (\<lambda>f. None) NewOptions [] = (Started h p' s, []) \<and>
     fst (finish demo_launch p' []) = None"
proof -
  obtain h p' s where run: "RunE demo_env demo_launch False (\<lambda>f. None) NewOptions [] = (Started h p' s, [])"
    using demo_started by blast
  from command_shuts_down [OF run, of "[]"] run show ?thesis by (auto simp: demo_launch_def)
qed

end
