(* ===== verification/Signals.thy ===== *)
theory Signals
  imports Prelude
begin

text \<open>
  \<open>pkg/util/signals.go\<close>: the goroutine that turns signals into a graceful shutdown and, when they
  keep coming, into an exit.  The runtime puts each signal into a channel of two places and
  drops it when the channel is full; the goroutine takes one after another.  Both are steps of
  one relation, in any interleaving.
\<close>

section \<open>The goroutine\<close>

datatype os_signal = SIGINT | SIGTERM

text \<open>Where the goroutine is: before the first signal, in the loop with index \<open>i\<close> and the signal it
  logs, or past the loop, where the process ends.\<close>

datatype signal_pc = First | Loop nat os_signal | Exit1

record signal_state =
  ch :: "os_signal list"
  stop_closed :: bool
  signal_pc :: signal_pc
  accepted :: nat

definition chan_capacity :: nat where
  "chan_capacity = 2"

definition SignalHandler :: signal_state where
  "SignalHandler = \<lparr>ch = [], stop_closed = False, signal_pc = First, accepted = 0\<rparr>"

text \<open>\<open>accepted\<close> counts the signals put into the channel; nothing reads it.\<close>

definition deliver :: "os_signal \<Rightarrow> signal_state \<Rightarrow> signal_state" where
  "deliver sig s =
     (if length (ch s) < chan_capacity then s\<lparr>ch := ch s @ [sig], accepted := Suc (accepted s)\<rparr> else s)"

text \<open>One receive and what follows until the next: nothing when the channel is empty or the process
  is gone.\<close>

definition receive :: "signal_state \<Rightarrow> signal_state option" where
  "receive s =
     (case (ch s, signal_pc s) of
        ([], _) \<Rightarrow> None
      | (_, Exit1) \<Rightarrow> None
      | (sig # rest, First) \<Rightarrow> Some (s\<lparr>ch := rest, stop_closed := True, signal_pc := Loop 0 sig\<rparr>)
      | (sig # rest, Loop i _) \<Rightarrow>
          Some (s\<lparr>ch := rest, signal_pc := if i + 1 < 3 then Loop (i + 1) sig else Exit1\<rparr>))"

datatype signal_label = Deliver os_signal | Receive

inductive signal_step :: "signal_state \<Rightarrow> signal_label \<Rightarrow> signal_state \<Rightarrow> bool" where
  deliver_step: "signal_pc s \<noteq> Exit1 \<Longrightarrow> signal_step s (Deliver sig) (deliver sig s)"
| receive_step: "receive s = Some s' \<Longrightarrow> signal_step s Receive s'"

inductive signal_run :: "signal_state \<Rightarrow> bool" where
  start: "signal_run SignalHandler"
| step: "signal_run s \<Longrightarrow> signal_step s l s' \<Longrightarrow> signal_run s'"

inductive_cases signal_stepE: "signal_step s l s'"

code_pred signal_step .

section \<open>Invariant\<close>

fun taken :: "signal_pc \<Rightarrow> nat" where
  "taken First = 0"
| "taken (Loop i sig) = i + 1"
| "taken Exit1 = 4"

definition signal_inv :: "signal_state \<Rightarrow> bool" where
  "signal_inv s \<longleftrightarrow>
     accepted s = taken (signal_pc s) + length (ch s) \<and> length (ch s) \<le> chan_capacity \<and>
     (stop_closed s \<longleftrightarrow> signal_pc s \<noteq> First) \<and>
     (case signal_pc s of Loop i sig \<Rightarrow> i < 3 | _ \<Rightarrow> True)"

lemma deliver_inv: "signal_inv s \<Longrightarrow> signal_inv (deliver sig s)"
  by (auto simp: signal_inv_def deliver_def)

lemma receive_inv: "signal_inv s \<Longrightarrow> receive s = Some s' \<Longrightarrow> signal_inv s'"
  by (auto simp: signal_inv_def receive_def split: list.splits signal_pc.splits if_splits)

lemma signal_run_inv: "signal_run s \<Longrightarrow> signal_inv s"
proof (induction rule: signal_run.induct)
  case start
  then show ?case by (simp add: signal_inv_def SignalHandler_def chan_capacity_def)
next
  case (step s l s')
  then show ?case by (auto elim!: signal_stepE intro: deliver_inv receive_inv)
qed

lemma receive_None: "receive s = None \<longleftrightarrow> ch s = [] \<or> signal_pc s = Exit1"
  by (auto simp: receive_def split: list.splits signal_pc.splits)

text \<open>C39: shutting down by signals. However signals and the goroutine interleave, once the
  goroutine has nothing left to do the stop channel is closed exactly if a signal got through and
  the process ends exactly if four did; at most two are ever waiting.\<close>

theorem signals_counted:
  assumes "signal_run s" and "receive s = None"
  shows "(stop_closed s \<longleftrightarrow> accepted s \<ge> 1) \<and> (signal_pc s = Exit1 \<longleftrightarrow> accepted s \<ge> 4) \<and> length (ch s) \<le> 2"
  using signal_run_inv [OF assms(1)] assms(2)
  by (auto simp: signal_inv_def receive_None chan_capacity_def split: signal_pc.splits)

theorem signals_counted_witness:
  "\<exists>s. signal_run s \<and> stop_closed s \<and> signal_pc s = Exit1"
proof -
  let ?d = "\<lambda>s. deliver SIGINT s" and ?r = "\<lambda>s. the (receive s)"
  have d: "signal_run (?d s)" if "signal_run s" "signal_pc s \<noteq> Exit1" for s
    using that signal_run.step deliver_step by blast
  have r: "signal_run (?r s)" if "signal_run s" "receive s \<noteq> None" for s
    using that signal_run.step receive_step by (metis option.collapse)
  let ?s1 = "?d (?d SignalHandler)"
  let ?s2 = "?d (?d (?r (?r ?s1)))"
  have s1: "signal_run ?s1" by (rule d [OF d [OF signal_run.start]]) code_simp+
  have s2: "signal_run (?r (?r ?s1))" by (rule r [OF r [OF s1]]) code_simp+
  have s3: "signal_run ?s2" by (rule d [OF d [OF s2]]) code_simp+
  have run: "signal_run (?r (?r ?s2))" by (rule r [OF r [OF s3]]) code_simp+
  have "receive (?r (?r ?s2)) = None" "accepted (?r (?r ?s2)) \<ge> 4" "accepted (?r (?r ?s2)) \<ge> 1" by code_simp+
  with signals_counted [OF run this(1)] run show ?thesis by blast
qed

end
