(* ===== verification/Process.thy ===== *)
theory Process
  imports Answers Signals
begin

text \<open>
  The whole process.  A command that has started runs as several goroutines: the signal handler,
  the watcher of the mapping file, the readiness probe, the server with one handler for each
  request, and \<open>main\<close>, which waits for the server and then runs the shutdown hooks.  They share the
  stop channel, the mapping and the API server.  Here they are one step relation, in any interleaving.

  A request takes two steps: its admission, which does not touch the mapping, and the rest, which
  looks the tenant up once, with the mapping in use by then.  Each of the two is one step, so the
  events of a request are contiguous in two pieces; what another request does in between can only
  change the answers from outside, and those are arbitrary functions of the trace.  The server and
  the file system are outside: the server is the parameter \<open>server_lib\<close>, files change at will.
\<close>

section \<open>A request in two steps\<close>

definition with_manager :: "mapping_manager \<Rightarrow> ('ss, 'ta) proxy \<Rightarrow> ('ss, 'ta) proxy" where
  "with_manager m p =
     p\<lparr>namespaceTransport := map_option (\<lambda>n. n\<lparr>MappingManager := m\<rparr>) (namespaceTransport p)\<rparr>"

definition forwarding :: "env \<Rightarrow> ('ss, 'ta) proxy \<Rightarrow> url \<Rightarrow> handler" where
  "forwarding E p target = WithRequest E (reverse_proxy target (RoundTrip E p) (newErrorHandler E p))"

lemma with_manager_simps [simp]:
  "proxyConfig (with_manager m p) = proxyConfig p"
  "tokenReviewer (with_manager m p) = tokenReviewer p"
  "proxyAuditor (with_manager m p) = proxyAuditor p"
  "clientTransport (with_manager m p) = clientTransport p"
  "noAuthClientTransport (with_manager m p) = noAuthClientTransport p"
  "restConfig (with_manager m p) = restConfig p"
  by (simp_all add: with_manager_def)

lemma admission_with_manager [simp]: "admission E (with_manager m p) = admission E p"
proof -
  have "authentication E (with_manager m p) = authentication E p"
    by (simp add: fun_eq_iff authentication_def Let_def)
  moreover have fw: "forwarded_as (with_manager m p) = forwarded_as p"
    by (simp add: fun_eq_iff forwarded_as_def Let_def)
  have "impersonation E (with_manager m p) = impersonation E p"
    by (intro ext) (simp only: impersonation_def fw with_manager_simps)
  ultimately show ?thesis by (intro ext) (simp only: admission_def)
qed

lemma served_steps:
  "served E (with_manager m p) target req t =
     carry_out E (with_manager m p) (forwarding E (with_manager m p) target) (admission E p req t)"
  by (simp add: served_def chain_policy forwarding_def)

section \<open>The process\<close>

text \<open>
  The server of the API server library: its states and how it moves, given whether the stop
  channel is closed and how many requests are being handled; whether it accepts connections, and
  whether each of the two channels that \<open>Serve\<close> returned is closed.
\<close>

record 'sv server_lib =
  server_start :: 'sv
  server_next :: "bool \<Rightarrow> nat \<Rightarrow> 'sv \<Rightarrow> 'sv list"
  accepts :: "'sv \<Rightarrow> bool"
  wait_closed :: "'sv \<Rightarrow> bool"
  listener_closed :: "'sv \<Rightarrow> bool"

record ('ss, 'ta, 'sg, 'sv) program =
  prog_env :: env
  prog_command :: "('ss, 'ta, 'sg) command_env"
  prog_options :: options
  prog_proxy :: "('ss, 'ta) proxy"
  prog_target :: url
  prog_server :: "'sv server_lib"

definition map_path :: "('ss, 'ta, 'sg, 'sv) program \<Rightarrow> string" where
  "map_path P = SuffixMappingFile (App (prog_options P))"

datatype stage = Arrived | Decided verdict | Answered reply

record conn =
  asked :: request
  stage :: stage
  own :: trace

datatype main_pc = WaitServer | WaitListener | RunningHooks | Ended "string \<times> int"

text \<open>\<open>held\<close> and \<open>own\<close> only record what happened: the contents the mapping file has had and the
  events a request has caused.\<close>

record 'sv process =
  signals :: signal_state
  watcher :: watch_state
  held :: "string list"
  server :: 'sv
  main_at :: main_pc
  probe :: probe_server
  conns :: "conn list"
  events :: trace

definition alive :: "'sv process \<Rightarrow> bool" where
  "alive s \<longleftrightarrow> signal_pc (signals s) \<noteq> Exit1 \<and> (case main_at s of Ended x \<Rightarrow> False | _ \<Rightarrow> True)"

text \<open>What the server guarantees of a request it hands over.\<close>

definition arrives :: "request \<Rightarrow> bool" where
  "arrives req \<longleftrightarrow> fresh req \<and> wf_header (Header req)"

definition connect :: "request \<Rightarrow> 'sv process \<Rightarrow> 'sv process" where
  "connect req s = s\<lparr>conns := conns s @ [\<lparr>asked = req, stage = Arrived, own = []\<rparr>]\<rparr>"

definition advance :: "nat \<Rightarrow> stage \<Rightarrow> trace \<Rightarrow> 'sv process \<Rightarrow> 'sv process" where
  "advance i st t s =
     (let c = conns s ! i; es = drop (length (events s)) t in
      s\<lparr>conns := (conns s)[i := c\<lparr>stage := st, own := own c @ es\<rparr>], events := t\<rparr>)"

definition admit :: "('ss, 'ta, 'sg, 'sv) program \<Rightarrow> nat \<Rightarrow> 'sv process \<Rightarrow> 'sv process" where
  "admit P i s =
     (let (v, t) = admission (prog_env P) (prog_proxy P) (asked (conns s ! i)) (events s) in advance i (Decided v) t s)"

definition answer :: "('ss, 'ta, 'sg, 'sv) program \<Rightarrow> nat \<Rightarrow> verdict \<Rightarrow> 'sv process \<Rightarrow> 'sv process" where
  "answer P i v s =
     (let E = prog_env P; p = with_manager (manager (watcher s)) (prog_proxy P);
          (rep, t) = carry_out E p (forwarding E p (prog_target P)) (v, events s)
      in advance i (Answered rep) t s)"

definition hold :: "watch_label \<Rightarrow> string list \<Rightarrow> string list" where
  "hold l ds = (case l of FileChanges (Inr data) \<Rightarrow> data # ds | _ \<Rightarrow> ds)"

definition busy :: "'sv process \<Rightarrow> nat" where
  "busy s = length (filter (\<lambda>c. case stage c of Answered rep \<Rightarrow> False | _ \<Rightarrow> True) (conns s))"

text \<open>The last of \<open>RunE\<close>, and \<open>main\<close> with what it returns.\<close>

definition shut_down :: "('ss, 'ta, 'sg, 'sv) program \<Rightarrow> 'sv process \<Rightarrow> 'sv process" where
  "shut_down P s =
     (let E = prog_env P; p = prog_proxy P;
          (err, t) = finish (prog_command P) (snd (withHandlers E p (forwarding E p (prog_target P)))) (events s)
      in s\<lparr>main_at := Ended (main_exit err), events := t\<rparr>)"

datatype label =
    Signal signal_label | Watch watch_label | Connect request | Admit nat | Answer nat
  | Checked token_auther | Listens listener_event | ServerMoves | MainWaited | ShutDown

inductive process_step :: "('ss, 'ta, 'sg, 'sv) program \<Rightarrow> 'sv process \<Rightarrow> label \<Rightarrow> 'sv process \<Rightarrow> bool"
  for P :: "('ss, 'ta, 'sg, 'sv) program" where
  signal: "alive s \<Longrightarrow> signal_step (signals s) l g \<Longrightarrow> process_step P s (Signal l) (s\<lparr>signals := g\<rparr>)"
| watch: "alive s \<Longrightarrow> watch_step (map_path P) (watcher s) l w \<Longrightarrow>
     process_step P s (Watch l) (s\<lparr>watcher := w, held := hold l (held s)\<rparr>)"
| connect: "alive s \<Longrightarrow> accepts (prog_server P) (server s) \<Longrightarrow> arrives req \<Longrightarrow>
     process_step P s (Connect req) (connect req s)"
| admit: "alive s \<Longrightarrow> i < length (conns s) \<Longrightarrow> stage (conns s ! i) = Arrived \<Longrightarrow>
     process_step P s (Admit i) (admit P i s)"
| answer: "alive s \<Longrightarrow> i < length (conns s) \<Longrightarrow> stage (conns s ! i) = Decided v \<Longrightarrow>
     process_step P s (Answer i) (answer P i v s)"
| checked: "alive s \<Longrightarrow>
     process_step P s (Checked a) (s\<lparr>probe := (probe s)\<lparr>health := snd (Check a (health (probe s)))\<rparr>\<rparr>)"
| listens: "alive s \<Longrightarrow> listener_step ev (probe s) = Some q \<Longrightarrow> process_step P s (Listens ev) (s\<lparr>probe := q\<rparr>)"
| server: "alive s \<Longrightarrow>
     sv \<in> set (server_next (prog_server P) (stop_closed (signals s)) (busy s) (server s)) \<Longrightarrow>
     process_step P s ServerMoves (s\<lparr>server := sv\<rparr>)"
| waited: "alive s \<Longrightarrow> main_at s = WaitServer \<Longrightarrow> wait_closed (prog_server P) (server s) \<Longrightarrow>
     process_step P s MainWaited (s\<lparr>main_at := WaitListener\<rparr>)"
| waited_listener: "alive s \<Longrightarrow> main_at s = WaitListener \<Longrightarrow> listener_closed (prog_server P) (server s) \<Longrightarrow>
     process_step P s MainWaited (s\<lparr>main_at := RunningHooks\<rparr>)"
| shut_down: "alive s \<Longrightarrow> main_at s = RunningHooks \<Longrightarrow> process_step P s ShutDown (shut_down P s)"

inductive_cases process_stepE: "process_step P s l s'"

text \<open>The process of a command that has started.\<close>

definition started_as :: "('ss, 'ta, 'sg, 'sv) program \<Rightarrow> flag_state \<Rightarrow> bool" where
  "started_as P flags \<longleftrightarrow>
     (\<exists>p jwt. build_proxy (prog_command P) flags (prog_options P) = Ok (p, jwt) \<and>
        set_transports (platform_of (prog_command P)) p = Ok (prog_proxy P) \<and>
        parse_url (platform_of (prog_command P)) (Host (restConfig (prog_proxy P))) = Inr (prog_target P))"

definition boot :: "('ss, 'ta, 'sg, 'sv) program \<Rightarrow> bool \<Rightarrow> bool \<Rightarrow> string \<Rightarrow> mapping_manager \<Rightarrow> probe_server \<Rightarrow>
    trace \<Rightarrow> 'sv process" where
  "boot P watcher_created dir_added data m ps t =
     \<lparr>signals = SignalHandler, watcher = watchFile_start watcher_created dir_added (Inr data) m, held = [data],
      server = server_start (prog_server P), main_at = WaitServer, probe = ps,
      conns = [], events = t\<rparr>"

inductive process_run :: "('ss, 'ta, 'sg, 'sv) program \<Rightarrow> 'sv process \<Rightarrow> bool"
  for P :: "('ss, 'ta, 'sg, 'sv) program" where
  boots: "RunE (prog_env P) (prog_command P) version flags (prog_options P) [] = (Started h p' ps, t) \<Longrightarrow>
     started_as P flags \<Longrightarrow>
     read_bytes (platform_of (prog_command P)) (map_path P) = Inr data \<Longrightarrow>
     NewMappingManager (Inr data) = Ok m \<Longrightarrow> process_run P (boot P c d data m ps t)"
| steps: "process_run P s \<Longrightarrow> process_step P s l s' \<Longrightarrow> process_run P s'"

text \<open>Every start of the command gives such a process, and its handler is the one returned.\<close>

lemma started_program:
  assumes "RunE E C version flags opts t0 = (Started h p' ps, t)"
  shows "\<exists>P. prog_env P = E \<and> prog_command P = C \<and> prog_options P = opts \<and> prog_server P = SV \<and>
    started_as P flags \<and> h = served E (prog_proxy P) (prog_target P)"
proof -
  obtain p jwt where p: "build_proxy C flags opts = Ok (p, jwt)" and run: "Run E (platform_of C) p t0 = (Ok (h, p'), t)"
    using assms by (auto simp: RunE_def RunProbe_def split: validation.splits option.splits result.splits prod.splits)
  from Run_served [OF run] obtain p1 target where p1: "set_transports (platform_of C) p = Ok p1"
    "parse_url (platform_of C) (Host (restConfig p1)) = Inr target" "h = served E p1 target" by blast
  let ?P = "\<lparr>prog_env = E, prog_command = C, prog_options = opts, prog_proxy = p1, prog_target = target, prog_server = SV\<rparr>"
  have "started_as ?P flags" using p p1 by (auto simp: started_as_def)
  with p1 show ?thesis by (intro exI [of _ ?P]) simp
qed

section \<open>What a request has caused\<close>

inductive conn_ok :: "('ss, 'ta, 'sg, 'sv) program \<Rightarrow> string list \<Rightarrow> conn \<Rightarrow> bool"
  for P :: "('ss, 'ta, 'sg, 'sv) program" and ds :: "string list" where
  arrived: "arrives req \<Longrightarrow> conn_ok P ds \<lparr>asked = req, stage = Arrived, own = []\<rparr>"
| decided: "arrives req \<Longrightarrow> admission (prog_env P) (prog_proxy P) req t = (v, t @ es) \<Longrightarrow>
     conn_ok P ds \<lparr>asked = req, stage = Decided v, own = es\<rparr>"
| answered: "arrives req \<Longrightarrow> admission (prog_env P) (prog_proxy P) req t = (v, t @ es) \<Longrightarrow>
     data \<in> set ds \<Longrightarrow> Unmarshal data = Inr (mappings m) \<Longrightarrow> q = with_manager m (prog_proxy P) \<Longrightarrow>
     carry_out (prog_env P) q (forwarding (prog_env P) q (prog_target P)) (v, t2) = (rep, t2 @ es2) \<Longrightarrow>
     conn_ok P ds \<lparr>asked = req, stage = Answered rep, own = es @ es2\<rparr>"

inductive_cases conn_ok_decided: "conn_ok P ds \<lparr>asked = req, stage = Decided v, own = es\<rparr>"

lemma conn_ok_mono: "conn_ok P ds c \<Longrightarrow> set ds \<subseteq> set ds' \<Longrightarrow> conn_ok P ds' c"
  by (induction rule: conn_ok.induct) (blast intro: conn_ok.intros)+

lemma admission_appends:
  "admission E p req t = (v, t') \<Longrightarrow> \<exists>es. t' = t @ es \<and> sent_of es = []"
  by (auto dest: unsent_admission simp: unsent_def)

lemma answer_appends:
  "transparent_env E \<Longrightarrow> carry_out E p (forwarding E p target) (v, t) = (rep, t') \<Longrightarrow>
    \<exists>es. t' = t @ es \<and> length (sent_of es) \<le> 1"
  unfolding forwarding_def by (drule (1) sends_carry_out) (auto simp: sends_only_def)

definition process_ok :: "('ss, 'ta, 'sg, 'sv) program \<Rightarrow> 'sv process \<Rightarrow> bool" where
  "process_ok P s \<longleftrightarrow> list_all (conn_ok P (held s)) (conns s) \<and> known_mapping (held s) (watcher s) \<and>
     set (sent_of (events s)) = (\<Union>c \<in> set (conns s). set (sent_of (own c)))"

text \<open>The audit backend writes audit events only, when it starts and when it is shut down.\<close>

definition quiet_backend :: "audit_backend option \<Rightarrow> bool" where
  "quiet_backend b \<longleftrightarrow>
     (case b of
        None \<Rightarrow> True
      | Some b \<Rightarrow> \<forall>t. (\<exists>es. audit_only es \<and> BackendShutdown b t = t @ es) \<and>
          (\<exists>es. audit_only es \<and> snd (BackendRun b t) = t @ es))"

definition quiet_audit :: "('ss, 'ta, 'sg, 'sv) program \<Rightarrow> bool" where
  "quiet_audit P \<longleftrightarrow> quiet_backend (AuditBackend (serverConfig (proxyAuditor (prog_proxy P))))"

lemma sent_of_audit: "audit_only es \<Longrightarrow> sent_of es = []"
  by (induction es rule: sent_of.induct) (auto simp: audit_only_def)

lemma advance_simps [simp]:
  "signals (advance i st t s) = signals s" "watcher (advance i st t s) = watcher s"
  "held (advance i st t s) = held s" "server (advance i st t s) = server s"
  "main_at (advance i st t s) = main_at s" "events (advance i st t s) = t"
  "probe (advance i st t s) = probe s"
  by (simp_all add: advance_def Let_def)

lemma conns_advance:
  "conns (advance i st (events s @ es) s) =
     (conns s)[i := (conns s ! i)\<lparr>stage := st, own := own (conns s ! i) @ es\<rparr>]"
  by (simp add: advance_def Let_def)

lemma sents_update:
  assumes "own c = own (cs ! i) @ es"
  shows "i < length cs \<Longrightarrow> (\<Union>c \<in> set (cs[i := c]). set (sent_of (own c))) =
    (\<Union>c \<in> set cs. set (sent_of (own c))) \<union> set (sent_of es)"
  using assms
proof (induction cs arbitrary: i)
  case (Cons d cs)
  then show ?case by (cases i) auto
qed simp

lemma advance_ok:
  assumes "process_ok P s" and "i < length (conns s)"
    and "conn_ok P (held s) ((conns s ! i)\<lparr>stage := st, own := own (conns s ! i) @ es\<rparr>)"
  shows "process_ok P (advance i st (events s @ es) s)"
proof -
  let ?c = "(conns s ! i)\<lparr>stage := st, own := own (conns s ! i) @ es\<rparr>"
  have "list_all (conn_ok P (held s)) ((conns s)[i := ?c])"
    using assms by (simp add: process_ok_def list_all_length nth_list_update)
  then show ?thesis
    using assms(1) sents_update [of ?c "conns s" i es, OF _ assms(2)]
    by (simp add: process_ok_def conns_advance)
qed

lemma process_ok_frame:
  assumes "process_ok P s" and "conns s' = conns s" and "held s' = held s" and "watcher s' = watcher s"
    and "sent_of (events s') = sent_of (events s)"
  shows "process_ok P s'"
  using assms by (simp add: process_ok_def)

lemma admit_ok:
  assumes "process_ok P s" and "i < length (conns s)" and "stage (conns s ! i) = Arrived"
  shows "process_ok P (admit P i s)"
proof -
  let ?c = "conns s ! i"
  have c: "conn_ok P (held s) ?c" using assms(1,2) by (simp add: process_ok_def list_all_length)
  then have req: "arrives (asked ?c)" "own ?c = []" using assms(3) by (auto elim: conn_ok.cases)
  obtain v t where adm: "admission (prog_env P) (prog_proxy P) (asked ?c) (events s) = (v, t)" by fastforce
  from admission_appends [OF this] obtain es where t: "t = events s @ es" by blast
  from conn_ok.decided [OF req(1) adm [unfolded t]]
  have "conn_ok P (held s) (?c\<lparr>stage := Decided v, own := own ?c @ es\<rparr>)" using req(2) by (cases ?c) simp
  from advance_ok [OF assms(1,2) this] show ?thesis by (simp add: admit_def adm t)
qed

lemma answer_ok:
  assumes "transparent_env (prog_env P)" and "process_ok P s" and "i < length (conns s)"
    and "stage (conns s ! i) = Decided v"
  shows "process_ok P (answer P i v s)"
proof -
  let ?c = "conns s ! i" and ?q = "with_manager (manager (watcher s)) (prog_proxy P)"
  have c: "conn_ok P (held s) ?c" using assms(2,3) by (simp add: process_ok_def list_all_length)
  have "conn_ok P (held s) \<lparr>asked = asked ?c, stage = Decided v, own = own ?c\<rparr>"
    using c assms(4) by (cases ?c) simp
  then obtain t0 where adm: "arrives (asked ?c)"
    "admission (prog_env P) (prog_proxy P) (asked ?c) t0 = (v, t0 @ own ?c)" by (rule conn_ok_decided)
  obtain rep t where run: "carry_out (prog_env P) ?q (forwarding (prog_env P) ?q (prog_target P)) (v, events s) = (rep, t)"
    by fastforce
  from answer_appends [OF assms(1) this] obtain es where t: "t = events s @ es" by blast
  obtain data where "data \<in> set (held s)" "Unmarshal data = Inr (mappings (manager (watcher s)))"
    using assms(2) by (auto simp: process_ok_def known_mapping_def)
  from conn_ok.answered [OF adm this refl run [unfolded t]]
  have "conn_ok P (held s) (?c\<lparr>stage := Answered rep, own := own ?c @ es\<rparr>)" by (cases ?c) simp
  from advance_ok [OF assms(2,3) this] show ?thesis by (simp add: answer_def run t Let_def)
qed

lemma watch_ok:
  assumes "process_ok P s" and "watch_step f (watcher s) l w"
  shows "process_ok P (s\<lparr>watcher := w, held := hold l (held s)\<rparr>)"
proof -
  have "set (held s) \<subseteq> set (hold l (held s))"
    by (auto simp: hold_def split: watch_label.splits sum.splits)
  moreover have "known_mapping (hold l (held s)) w"
    using assms(2)
  proof (cases rule: watch_step.cases)
    case (file_changes f)
    then show ?thesis using assms(1) by (auto simp: process_ok_def known_mapping_def hold_def split: sum.splits)
  next
    case (received i)
    then show ?thesis using assms(1) known_mapping_handle by (simp add: process_ok_def hold_def)
  qed
  moreover have "list_all (conn_ok P (hold l (held s))) (conns s)" if "set (held s) \<subseteq> set (hold l (held s))"
    using assms(1) conn_ok_mono [OF _ that] by (auto simp: process_ok_def list_all_iff)
  ultimately show ?thesis using assms(1) by (simp add: process_ok_def)
qed

lemma shut_down_ok:
  assumes "process_ok P s" and "quiet_audit P" and "proxyHooks (prog_proxy P) = NewHooks"
  shows "process_ok P (shut_down P s)"
proof -
  have "\<exists>es. audit_only es \<and> events (shut_down P s) = events s @ es"
    using assms(2,3)
    by (cases "AuditBackend (serverConfig (proxyAuditor (prog_proxy P)))")
       (auto simp: shut_down_def finish_def RunHooks_def RunPreShutdownHooks_def withHandlers_def
        AddPreShutdownHook_def NewHooks_def Shutdown_def quiet_audit_def quiet_backend_def Let_def)
  then have "sent_of (events (shut_down P s)) = sent_of (events s)" by (auto simp: sent_of_audit)
  from process_ok_frame [OF assms(1) _ _ _ this] show ?thesis by (simp add: shut_down_def Let_def case_prod_unfold)
qed

lemma started_as_hooks:
  "started_as P flags \<Longrightarrow> proxyHooks (prog_proxy P) = NewHooks \<and> equipped (prog_proxy P) \<and>
     proxyConfig (prog_proxy P) = proxy_config (prog_options P) \<and> namespaceTransport (prog_proxy P) \<noteq> None"
proof -
  assume "started_as P flags"
  then obtain p jwt where p: "build_proxy (prog_command P) flags (prog_options P) = Ok (p, jwt)"
    "set_transports (platform_of (prog_command P)) p = Ok (prog_proxy P)" by (auto simp: started_as_def)
  note frame = set_transports_frame [OF p(2)] set_transports_Ok [OF p(2)]
  from build_proxy_Ok [OF p(1)] frame have "proxyHooks (prog_proxy P) = NewHooks \<and>
      proxyConfig (prog_proxy P) = proxy_config (prog_options P) \<and> namespaceTransport (prog_proxy P) \<noteq> None" by auto
  moreover have "equipped (prog_proxy P)"
    by (rule set_transports_equipped [OF p(2)]) (use build_proxy_Ok [OF p(1)] in \<open>auto simp: proxy_config_def\<close>)
  ultimately show ?thesis by blast
qed

lemma boot_ok:
  assumes "RunE (prog_env P) (prog_command P) version flags (prog_options P) [] = (Started h p' ps, t)"
    and "started_as P flags" and "quiet_audit P" and "NewMappingManager (Inr data) = Ok m"
  shows "process_ok P (boot P c d data m ps t)"
proof -
  from assms(1,2) have run: "Run (prog_env P) (platform_of (prog_command P)) q [] = (Ok (h, p'), t)"
    if "set_transports (platform_of (prog_command P)) q = Ok (prog_proxy P)"
       "build_proxy (prog_command P) flags (prog_options P) = Ok (q, jwt)" for q jwt
    using that by (auto simp: RunE_def RunProbe_def split: validation.splits option.splits result.splits prod.splits)
  from assms(2) obtain q jwt where "build_proxy (prog_command P) flags (prog_options P) = Ok (q, jwt)"
    "set_transports (platform_of (prog_command P)) q = Ok (prog_proxy P)" by (auto simp: started_as_def)
  from run [OF this(2,1)] this(2) have "snd (RunAudit (proxyAuditor (prog_proxy P)) []) = t"
    by (auto simp: Run_def serve_def withHandlers_def split: sum.splits prod.splits option.splits)
  moreover have "\<exists>es. audit_only es \<and> snd (RunAudit (proxyAuditor (prog_proxy P)) []) = [] @ es"
  proof (cases "AuditBackend (serverConfig (proxyAuditor (prog_proxy P)))")
    case (Some b)
    with assms(3) have "\<forall>t. \<exists>es. audit_only es \<and> snd (BackendRun b t) = t @ es"
      by (simp add: quiet_audit_def quiet_backend_def)
    from spec [OF this, of "[]"] have "\<exists>es. audit_only es \<and> snd (BackendRun b []) = [] @ es" .
    with Some show ?thesis by (auto simp: RunAudit_def split: prod.splits option.splits)
  qed (simp add: RunAudit_def)
  ultimately have "sent_of t = []" by (auto simp: sent_of_audit)
  with assms(4) show ?thesis
    by (auto simp: process_ok_def boot_def known_mapping_def watchFile_start_def NewMappingManager_def loadMappings_def
        split: sum.splits)
qed

lemma process_run_started: "process_run P s \<Longrightarrow> \<exists>flags. started_as P flags"
  by (induction rule: process_run.induct) auto

text \<open>Every state that a process reaches is accounted for.\<close>

lemma process_run_ok:
  assumes "transparent_env (prog_env P)" and "quiet_audit P" and "process_run P s"
  shows "process_ok P s"
  using assms(3)
proof (induction rule: process_run.induct)
  case boots
  then show ?case using boot_ok assms(2) by blast
next
  case (steps s l s')
  have hooks: "proxyHooks (prog_proxy P) = NewHooks"
    using process_run_started [OF steps(1)] started_as_hooks by blast
  from steps(2) show ?case
  proof (cases rule: process_step.cases)
    case (watch l w)
    then show ?thesis using watch_ok steps.IH by blast
  next
    case (connect req)
    then show ?thesis using steps.IH conn_ok.arrived by (auto simp: process_ok_def connect_def)
  next
    case (admit i)
    then show ?thesis using admit_ok steps.IH by blast
  next
    case (answer i v)
    then show ?thesis using answer_ok assms(1) steps.IH by blast
  next
    case shut_down
    then show ?thesis using shut_down_ok assms(2) hooks steps.IH by blast
  qed (auto intro: process_ok_frame [OF steps.IH])
qed

section \<open>What reaches the API server\<close>

text \<open>A request on the wire, with the connection it belongs to.\<close>

lemma sent_conn:
  assumes "transparent_env (prog_env P)" and "conn_ok P ds c" and "(tr, r') \<in> set (sent_of (own c))"
  obtains t r es data m cx pre post where "arrives (asked c)"
    "admission (prog_env P) (prog_proxy P) (asked c) t = (Forwarded r, t @ es)" "foreign_ctx (Context r) cx"
    "goes_out (prog_env P) (with_manager m (prog_proxy P)) (outgoing (prog_target P) (WithContext r cx)) (tr, r')"
    "data \<in> set ds" "Unmarshal data = Inr (mappings m)"
    "own c = (es @ pre) @ Sent tr r' # post" "sent_of (es @ pre) = []" "sent_of post = []"
  using assms(2)
proof (cases rule: conn_ok.cases)
  case (decided req t v es)
  with admission_appends [OF decided(3)] assms(3) show thesis by auto
next
  case (answered req t v es data m q t2 rep es2)
  from admission_appends [OF answered(3)] have quiet: "sent_of es = []" by auto
  with assms(3) answered(1) have sent: "(tr, r') \<in> set (sent_of es2)" by simp
  have one: "length (sent_of es2) \<le> 1" and out: "\<exists>r c. v = Forwarded r \<and> foreign_ctx (Context r) c \<and>
      goes_out (prog_env P) q (outgoing (prog_target P) (WithContext r c)) (tr, r')"
    using sends_carry_out [OF assms(1) answered(7) [unfolded forwarding_def]] sent by (auto simp: sends_only_def)
  from sent have "Sent tr r' \<in> set es2" by (induction es2 rule: sent_of.induct) auto
  then obtain pre post where split: "es2 = pre @ Sent tr r' # post" by (auto simp: in_set_conv_decomp)
  with one have "sent_of pre = []" "sent_of post = []" by auto
  with out split answered quiet show thesis by (auto intro: that)
qed (use assms(3) in simp)

lemma sent_somewhere:
  assumes "transparent_env (prog_env P)" and "quiet_audit P" and "process_run P s"
    and "(tr, r') \<in> set (sent_of (events s))"
  obtains c where "c \<in> set (conns s)" "conn_ok P (held s) c" "(tr, r') \<in> set (sent_of (own c))"
  using process_run_ok [OF assms(1-3)] assms(4) that by (auto simp: process_ok_def list_all_iff)

text \<open>The authenticator leaves a well-formed header well-formed: it deletes fields only.\<close>

definition sound_authn :: "env \<Rightarrow> bool" where
  "sound_authn E \<longleftrightarrow> (\<forall>t r. wf_header (Header r) \<longrightarrow> wf_header (AuthHeader (bearer_authenticate E t r)))"

lemma arrives_authenticated:
  "sound_authn E \<Longrightarrow> arrives req \<Longrightarrow> fresh req \<and> wf_header (AuthHeader (bearer_authenticate E t req))"
  by (simp add: sound_authn_def arrives_def)

lemma admission_asks:
  "admission E p req t = (Forwarded r, t @ es) \<Longrightarrow> AuthnCall req (bearer_authenticate E t req) \<in> set es"
proof -
  assume adm: "admission E p req t = (Forwarded r, t @ es)"
  then obtain r0 t0 where auth: "authentication E p req t = (Forwarded r0, t0)"
    and imp: "impersonation E p r0 t0 = (Forwarded r, t @ es)"
    by (auto simp: admission_def split: prod.splits verdict.splits)
  from unsent_impersonation [OF imp] obtain es2 where 2: "t @ es = t0 @ es2" by (auto simp: unsent_def)
  from auth have "\<exists>es1. t0 = (t @ [AuthnCall req (bearer_authenticate E t req)]) @ es1"
    by (auto simp: authentication_def Let_def split: if_splits option.splits result.splits prod.splits bool.splits
        dest!: Review_extends)
  with 2 show ?thesis by auto
qed

text \<open>C1: nothing that the process ever sends lacks authentication and authorisation. Whatever the
  goroutines do and however requests, signals and changes of the mapping file interleave, each
  request on the wire belongs to one connection, which sends nothing else. Before it the
  authenticator had accepted that connection's token for a user, and, unless impersonation is
  disabled, the request is made as this user or as a target that the API server had allowed this
  user part by part; or the API server had reviewed the token as authenticated.\<close>

theorem process_authenticates:
  assumes "transparent_env (prog_env P)" and "impersonates (prog_env P)" and "sound_authn (prog_env P)"
    and "quiet_audit P" and "process_run P s" and "(tr, r') \<in> set (sent_of (events s))"
  shows "\<exists>c \<in> set (conns s). \<exists>pre post a. own c = pre @ Sent tr r' # post \<and> sent_of pre = [] \<and> sent_of post = [] \<and>
    AuthnCall (asked c) a \<in> set pre \<and>
    ((\<exists>u. AuthErr a = None \<and> AuthOk a \<and> AuthInfo a = Some u \<and>
        (AppDisableImpersonation (App (prog_options P)) \<or>
         Name u \<noteq> [] \<and> (\<exists>w. may_act_as (AuthHeader a) u w pre \<and>
           Values (Header r') ''Impersonate-User'' = [Name w] \<and>
           Values (Header r') ''Impersonate-Group'' = ensure_authenticated (Groups w)))) \<or>
     PassthroughEnabled (App (prog_options P)) \<and> reviewed (prog_proxy P) (AuthHeader a) pre)"
proof -
  obtain c where c: "c \<in> set (conns s)" "conn_ok P (held s) c" "(tr, r') \<in> set (sent_of (own c))"
    by (rule sent_somewhere [OF assms(1,4-6)])
  have cfg: "proxyConfig (prog_proxy P) = proxy_config (prog_options P)"
    using process_run_started [OF assms(5)] started_as_hooks by blast
  show ?thesis
  proof (rule sent_conn [OF assms(1) c(2,3)])
    fix t r es data m cx pre post
    assume req: "arrives (asked c)" and adm: "admission (prog_env P) (prog_proxy P) (asked c) t = (Forwarded r, t @ es)"
      and cx: "foreign_ctx (Context r) cx"
      and out: "goes_out (prog_env P) (with_manager m (prog_proxy P)) (outgoing (prog_target P) (WithContext r cx)) (tr, r')"
      and split: "own c = (es @ pre) @ Sent tr r' # post" "sent_of (es @ pre) = []" "sent_of post = []"
    let ?a = "bearer_authenticate (prog_env P) t (asked c)"
    note A = admission_Forwarded [OF adm arrives_authenticated [OF assms(3) req, THEN conjunct1]
        arrives_authenticated [OF assms(3) req, THEN conjunct2]]
    have later: "reviewed (prog_proxy P) h es \<Longrightarrow> reviewed (prog_proxy P) h (es @ pre)"
      "may_act_as h u w es \<Longrightarrow> may_act_as h u w (es @ pre)" for h u w
      unfolding reviewed_def by (metis UnI1 set_append, rule may_act_as_mono, auto)
    have "AuthnCall (asked c) ?a \<in> set (es @ pre)" using admission_asks [OF adm] by simp
    moreover have "(\<exists>u. AuthErr ?a = None \<and> AuthOk ?a \<and> AuthInfo ?a = Some u \<and>
        (AppDisableImpersonation (App (prog_options P)) \<or>
         Name u \<noteq> [] \<and> (\<exists>w. may_act_as (AuthHeader ?a) u w (es @ pre) \<and>
           Values (Header r') ''Impersonate-User'' = [Name w] \<and>
           Values (Header r') ''Impersonate-Group'' = ensure_authenticated (Groups w)))) \<or>
      PassthroughEnabled (App (prog_options P)) \<and> reviewed (prog_proxy P) (AuthHeader ?a) (es @ pre)"
    proof (cases "NoImpersonation r")
      case True
      with A later show ?thesis
        by (auto simp: cfg proxy_config_def oidc_user_def Let_def split: if_splits)
    next
      case False
      with A obtain u w addr where u: "oidc_user (prog_env P) (asked c) t = Some u" "Name u \<noteq> []"
        "may_act_as (AuthHeader ?a) u w es" and prep: "prepared (proxyConfig (prog_proxy P)) addr (AuthHeader ?a) u w r"
        by auto
      from u(1) have "AuthErr ?a = None" "AuthOk ?a" "AuthInfo ?a = Some u"
        by (auto simp: oidc_user_def Let_def split: if_splits)
      with impersonated_sent [OF assms(2) prep out cx False] u(2) later(2) [OF u(3)] show ?thesis by auto
    qed
    ultimately show ?thesis using c(1) split by blast
  qed
qed


text \<open>The tenant that a path starts with, and the namespace that a path names first.\<close>

definition tenant_of :: "string \<Rightarrow> string option" where
  "tenant_of path =
     (case segments path of
        tenant # region # rest \<Rightarrow>
          if tenant \<noteq> ''api'' \<and> tenant \<noteq> ''namespaces'' \<and> region \<noteq> ''namespaces'' then Some tenant else None
      | _ \<Rightarrow> None)"

definition first_namespace :: "string \<Rightarrow> string option" where
  "first_namespace path =
     (case dropWhile (\<lambda>x. x \<noteq> ''namespaces'') (segments path) of
        _ # x # post \<Rightarrow> Some x | _ \<Rightarrow> None)"

lemma tenant_ofE:
  assumes "tenant_of path = Some tenant"
  obtains region rest where "segments path = tenant # region # rest" "tenant \<noteq> ''api''" "tenant \<noteq> ''namespaces''"
    "region \<noteq> ''namespaces''"
  using assms by (auto simp: tenant_of_def split: list.splits if_splits)

lemma first_namespaceE:
  assumes "first_namespace path = Some x"
  obtains pre post where "segments path = pre @ ''namespaces'' # x # post" "''namespaces'' \<notin> set pre"
proof -
  let ?pre = "takeWhile (\<lambda>x. x \<noteq> ''namespaces'') (segments path)"
  from assms obtain n post where drop: "dropWhile (\<lambda>x. x \<noteq> ''namespaces'') (segments path) = n # x # post"
    by (auto simp: first_namespace_def split: list.splits)
  then have "n = ''namespaces''" by (simp add: dropWhile_eq_Cons_conv)
  with drop takeWhile_dropWhile_id [of "\<lambda>x. x \<noteq> ''namespaces''" "segments path"]
  have "segments path = ?pre @ ''namespaces'' # x # post" by simp
  moreover have "''namespaces'' \<notin> set ?pre" by (auto dest: set_takeWhileD)
  ultimately show thesis by (rule that)
qed

text \<open>The API server itself has authenticated the request, which then passes as it is.\<close>

definition passed_through :: "conn \<Rightarrow> bool" where
  "passed_through c \<longleftrightarrow>
     list_ex (\<lambda>e. case e of ReviewCall q (Inr st) \<Rightarrow> IsAuthenticated st | _ \<Rightarrow> False) (own c)"

lemma reviewed_passed_through: "reviewed p h es \<Longrightarrow> own c = es @ es' \<Longrightarrow> passed_through c"
  by (force simp: reviewed_def passed_through_def list_ex_iff)


end
