(* ===== verification/Lifecycle.thy ===== *)
theory Lifecycle
  imports Process
begin

text \<open>
  How the process ends: signals close the stop channel, the server winds down, \<open>main\<close> waits for
  it, runs the hooks and exits.  The server is taken at its documentation, stated as \<open>graceful\<close>.
\<close>

section \<open>The server's contract\<close>

text \<open>
  What the library documents of \<open>Serve\<close>: the server starts out accepting connections and does not
  wind down before the stop channel is closed.  Then it always has something left to do until it
  has closed both channels, which it does within the shutdown timeout (\<open>rank\<close> bounds the steps);
  it never accepts again, closes neither channel while it accepts, and does not reopen them.
\<close>

definition winds_down :: "'sv server_lib \<Rightarrow> 'sv \<Rightarrow> 'sv \<Rightarrow> bool" where
  "winds_down SV s s' \<longleftrightarrow>
     (accepts SV s' \<longrightarrow> accepts SV s) \<and> (wait_closed SV s \<longrightarrow> wait_closed SV s') \<and>
     (listener_closed SV s \<longrightarrow> listener_closed SV s') \<and>
     (wait_closed SV s' \<or> listener_closed SV s' \<longrightarrow> \<not> accepts SV s')"

definition graceful :: "'sv server_lib \<Rightarrow> ('sv \<Rightarrow> nat) \<Rightarrow> bool" where
  "graceful SV rank \<longleftrightarrow>
     accepts SV (server_start SV) \<and> \<not> wait_closed SV (server_start SV) \<and> \<not> listener_closed SV (server_start SV) \<and>
     (\<forall>n s. server_next SV False n s = []) \<and>
     (\<forall>n s s'. s' \<in> set (server_next SV True n s) \<longrightarrow> rank s' < rank s \<and> winds_down SV s s') \<and>
     (\<forall>n s. server_next SV True n s = [] \<longrightarrow> wait_closed SV s \<and> listener_closed SV s)"

lemma graceful_step:
  assumes "graceful SV rank" and "s' \<in> set (server_next SV stop n s)"
  shows "stop \<and> rank s' < rank s \<and> winds_down SV s s'"
proof (cases stop)
  case True
  with assms show ?thesis by (simp add: graceful_def)
next
  case False
  with assms(1) have "server_next SV stop n s = []" by (simp add: graceful_def)
  with assms(2) show ?thesis by simp
qed

lemma graceful_start:
  "graceful SV rank \<Longrightarrow> accepts SV (server_start SV) \<and> \<not> wait_closed SV (server_start SV) \<and>
     \<not> listener_closed SV (server_start SV)"
  by (simp add: graceful_def)

lemma graceful_done:
  "graceful SV rank \<Longrightarrow> server_next SV True n s = [] \<Longrightarrow> wait_closed SV s \<and> listener_closed SV s"
  unfolding graceful_def by blast

section \<open>The order in which things end\<close>

definition life_ok :: "('ss, 'ta, 'sg, 'sv) program \<Rightarrow> 'sv process \<Rightarrow> bool" where
  "life_ok P s \<longleftrightarrow> (let SV = prog_server P; sv = server s in
     signal_inv (signals s) \<and>
     (\<not> stop_closed (signals s) \<longrightarrow> sv = server_start SV \<and> main_at s = WaitServer) \<and>
     (wait_closed SV sv \<or> listener_closed SV sv \<longrightarrow> \<not> accepts SV sv) \<and>
     (case main_at s of
        WaitServer \<Rightarrow> True
      | WaitListener \<Rightarrow> wait_closed SV sv
      | RunningHooks \<Rightarrow> wait_closed SV sv \<and> listener_closed SV sv
      | Ended x \<Rightarrow> wait_closed SV sv \<and> listener_closed SV sv \<and> x = main_exit (aggregate (prog_command P) [])))"

lemma signal_step_inv: "signal_inv g \<Longrightarrow> signal_step g l g' \<Longrightarrow> signal_inv g'"
  by (auto elim!: signal_stepE intro: deliver_inv receive_inv)

lemma signal_step_stop: "signal_step g l g' \<Longrightarrow> stop_closed g \<Longrightarrow> stop_closed g'"
  by (auto elim!: signal_stepE simp: deliver_def receive_def split: list.splits signal_pc.splits if_splits)

lemma shut_down_main:
  "proxyHooks (prog_proxy P) = NewHooks \<Longrightarrow>
     main_at (shut_down P s) = Ended (main_exit (aggregate (prog_command P) []))"
  by (cases "AuditBackend (serverConfig (proxyAuditor (prog_proxy P)))")
     (simp_all add: shut_down_def finish_def RunHooks_def RunPreShutdownHooks_def withHandlers_def
        AddPreShutdownHook_def NewHooks_def Shutdown_def Let_def)

lemma moved_frame [simp]:
  "signals (connect req s) = signals s" "server (connect req s) = server s" "main_at (connect req s) = main_at s"
  "signals (admit P i s) = signals s" "server (admit P i s) = server s" "main_at (admit P i s) = main_at s"
  "signals (answer P i v s) = signals s" "server (answer P i v s) = server s" "main_at (answer P i v s) = main_at s"
  "signals (shut_down P s) = signals s" "server (shut_down P s) = server s"
  by (simp_all add: connect_def admit_def answer_def shut_down_def Let_def case_prod_unfold)

lemma life_ok_frame:
  "life_ok P s \<Longrightarrow> signals s' = signals s \<Longrightarrow> server s' = server s \<Longrightarrow> main_at s' = main_at s \<Longrightarrow> life_ok P s'"
  by (simp add: life_ok_def)

lemma life_ok_server:
  assumes "life_ok P s" and "stop_closed (signals s)" and "winds_down (prog_server P) (server s) sv"
  shows "life_ok P (s\<lparr>server := sv\<rparr>)"
  using assms by (cases "main_at s") (simp_all add: life_ok_def winds_down_def Let_def)

lemma life_ok_signal:
  assumes "life_ok P s" and "signal_step (signals s) l g"
  shows "life_ok P (s\<lparr>signals := g\<rparr>)"
  using assms signal_step_inv [OF _ assms(2)] signal_step_stop [OF assms(2)] by (auto simp: life_ok_def Let_def)

lemma process_run_life:
  assumes "graceful (prog_server P) rank" and "process_run P s"
  shows "life_ok P s"
  using assms(2)
proof (induction rule: process_run.induct)
  case boots
  have "signal_inv SignalHandler" using signal_run.start by (rule signal_run_inv)
  with graceful_start [OF assms(1)] show ?case
    by (simp add: life_ok_def boot_def Let_def)
next
  case (steps s l s')
  have hooks: "proxyHooks (prog_proxy P) = NewHooks"
    using process_run_started [OF steps(1)] started_as_hooks by blast
  from steps(2) show ?case
  proof (cases rule: process_step.cases)
    case (signal l g)
    with life_ok_signal [OF steps.IH] show ?thesis by simp
  next
    case (server sv)
    with graceful_step [OF assms(1)] life_ok_server [OF steps.IH] show ?thesis by blast
  next
    case waited
    with steps.IH show ?thesis by (auto simp: life_ok_def Let_def graceful_start [OF assms(1)])
  next
    case waited_listener
    with steps.IH show ?thesis by (auto simp: life_ok_def Let_def)
  next
    case shut_down
    with steps.IH shut_down_main [OF hooks, of s] show ?thesis by (auto simp: life_ok_def Let_def)
  qed (rule life_ok_frame [OF steps.IH]; simp)+
qed

text \<open>C8: the process ends in order. As long as the signal handler has not closed the stop channel
  it accepts connections and \<open>main\<close> waits; when \<open>main\<close> has returned, a signal had got through, the
  server had stopped listening and closed both channels, and the exit status is that of the hooks'
  result.\<close>

theorem process_ends_in_order:
  assumes "graceful (prog_server P) rank" and "process_run P s"
  shows "(\<not> stop_closed (signals s) \<longrightarrow> alive s \<and> accepts (prog_server P) (server s) \<and> main_at s = WaitServer) \<and>
    (\<forall>x. main_at s = Ended x \<longrightarrow> accepted (signals s) \<ge> 1 \<and> \<not> accepts (prog_server P) (server s) \<and>
       wait_closed (prog_server P) (server s) \<and> listener_closed (prog_server P) (server s) \<and>
       x = main_exit (aggregate (prog_command P) []))"
proof -
  have ok: "life_ok P s" by (rule process_run_life [OF assms])
  then have "accepted (signals s) \<ge> 1" if "stop_closed (signals s)"
    using that by (cases "signal_pc (signals s)") (auto simp: life_ok_def signal_inv_def Let_def)
  moreover have "signal_pc (signals s) \<noteq> Exit1" if "\<not> stop_closed (signals s)"
    using that ok by (auto simp: life_ok_def signal_inv_def Let_def)
  ultimately show ?thesis
    using ok graceful_start [OF assms(1)] by (auto simp: life_ok_def alive_def Let_def split: main_pc.splits)
qed

section \<open>Everything comes to an end\<close>

text \<open>The steps that the process takes by itself, as opposed to what comes from outside.\<close>

fun internal :: "label \<Rightarrow> bool" where
  "internal (Signal l) \<longleftrightarrow> l = Receive"
| "internal (Admit i) \<longleftrightarrow> True"
| "internal (Answer i) \<longleftrightarrow> True"
| "internal ServerMoves \<longleftrightarrow> True"
| "internal MainWaited \<longleftrightarrow> True"
| "internal ShutDown \<longleftrightarrow> True"
| "internal _ \<longleftrightarrow> False"

fun stage_work :: "stage \<Rightarrow> nat" where
  "stage_work Arrived = 2"
| "stage_work (Decided v) = 1"
| "stage_work (Answered rep) = 0"

fun main_work :: "main_pc \<Rightarrow> nat" where
  "main_work WaitServer = 3"
| "main_work WaitListener = 2"
| "main_work RunningHooks = 1"
| "main_work (Ended x) = 0"

definition work :: "('sv \<Rightarrow> nat) \<Rightarrow> 'sv process \<Rightarrow> nat" where
  "work rank s =
     length (ch (signals s)) + sum_list (map (\<lambda>c. stage_work (stage c)) (conns s)) + rank (server s) + main_work (main_at s)"

lemma work_advance:
  assumes "i < length (conns s)" and "stage_work st < stage_work (stage (conns s ! i))"
  shows "work rank (advance i st t s) < work rank s"
proof -
  let ?w = "map (\<lambda>c. stage_work (stage c)) (conns s)"
  have "stage_work (stage (conns s ! i)) \<le> sum_list ?w"
    using assms(1) by (intro member_le_sum_list) auto
  moreover have "sum_list (?w[i := stage_work st]) = sum_list ?w + stage_work st - stage_work (stage (conns s ! i))"
    using assms(1) by (simp add: sum_list_update)
  ultimately show ?thesis
    using assms by (simp add: work_def advance_def Let_def map_update)
qed

lemma receive_shrinks: "receive g = Some g' \<Longrightarrow> length (ch g') < length (ch g)"
  by (auto simp: receive_def split: list.splits signal_pc.splits)

lemma internal_works:
  assumes "graceful (prog_server P) rank" and "process_step P s l s'" and "internal l"
  shows "work rank s' < work rank s"
  using assms(2)
proof (cases rule: process_step.cases)
  case (signal l' g)
  with assms(3) have "receive (signals s) = Some g" by (auto elim: signal_stepE)
  with receive_shrinks [OF this] signal show ?thesis by (simp add: work_def)
next
  case (admit i)
  then show ?thesis by (simp add: admit_def work_advance case_prod_unfold Let_def)
next
  case (answer i v)
  then show ?thesis by (simp add: answer_def work_advance case_prod_unfold Let_def)
next
  case (server sv)
  with graceful_step [OF assms(1)] have "rank sv < rank (process.server s)" by blast
  with server show ?thesis by (simp add: work_def)
next
  case shut_down
  then show ?thesis by (simp add: shut_down_def work_def case_prod_unfold Let_def)
qed (use assms(3) in \<open>auto simp: work_def\<close>)

definition stuck :: "('ss, 'ta, 'sg, 'sv) program \<Rightarrow> 'sv process \<Rightarrow> bool" where
  "stuck P s \<longleftrightarrow> (\<nexists>l s'. internal l \<and> process_step P s l s')"

fun answered :: "stage \<Rightarrow> bool" where
  "answered (Answered rep) \<longleftrightarrow> True"
| "answered _ \<longleftrightarrow> False"

lemma stuck_idle:
  assumes "graceful (prog_server P) rank" and "process_run P s" and "stuck P s" and "alive s"
  shows "accepted (signals s) = 0 \<and> list_all (\<lambda>c. answered (stage c)) (conns s)"
proof -
  note no = assms(3) [unfolded stuck_def not_ex de_Morgan_conj, rule_format]
  have ok: "life_ok P s" by (rule process_run_life [OF assms(1,2)])
  have "receive (signals s) = None"
    using no [of "Signal Receive"] process_step.signal [OF assms(4) receive_step] by (cases "receive (signals s)") auto
  with assms(4) have empty: "ch (signals s) = []" by (auto simp: receive_None alive_def)
  have "answered (stage (conns s ! i))" if "i < length (conns s)" for i
    using no [of "Admit i"] process_step.admit [OF assms(4) that, of P]
      no [of "Answer i"] process_step.answer [OF assms(4) that, of _ P]
    by (cases "stage (conns s ! i)") auto
  then have all: "list_all (\<lambda>c. answered (stage c)) (conns s)" by (simp add: list_all_length)
  have "\<not> stop_closed (signals s)"
  proof
    assume stop: "stop_closed (signals s)"
    have "server_next (prog_server P) True (busy s) (server s) = []"
    proof (cases "server_next (prog_server P) True (busy s) (server s)")
      case (Cons sv svs)
      then have "sv \<in> set (server_next (prog_server P) (stop_closed (signals s)) (busy s) (server s))"
        using stop by simp
      from process_step.server [OF assms(4) this] no [of ServerMoves] show ?thesis by auto
    qed
    from graceful_done [OF assms(1) this]
    have closed: "wait_closed (prog_server P) (server s)" "listener_closed (prog_server P) (server s)" by auto
    show False
    proof (cases "main_at s")
      case WaitServer
      from process_step.waited [OF assms(4) this closed(1)] no [of MainWaited] show False by auto
    next
      case WaitListener
      from process_step.waited_listener [OF assms(4) this closed(2)] no [of MainWaited] show False by auto
    next
      case RunningHooks
      from process_step.shut_down [OF assms(4) this] no [of ShutDown] show False by auto
    next
      case (Ended x)
      with assms(4) show False by (simp add: alive_def)
    qed
  qed
  with ok empty have "accepted (signals s) = 0" by (auto simp: life_ok_def signal_inv_def Let_def)
  with all show ?thesis by simp
qed


end
