(* ===== verification/Process_Examples.thy ===== *)
theory Process_Examples
  imports Examples Lifecycle
begin

text \<open>
  A concrete process: the command of \<open>Examples\<close> with a server of four phases, a request that is
  admitted before and answered after the mapping file has changed, and a graceful shutdown.
\<close>

section \<open>The program\<close>

text \<open>The server's phases: accepting, no longer accepting, listener closed, both channels closed.\<close>

definition demo_server :: "nat server_lib" where
  "demo_server = \<lparr>server_start = 0, server_next = (\<lambda>stop busy s. if stop \<and> s < 3 then [s + 1] else []),
     accepts = (\<lambda>s. s = 0), wait_closed = (\<lambda>s. s \<ge> 3), listener_closed = (\<lambda>s. s \<ge> 2)\<rparr>"

lemma graceful_demo: "graceful demo_server (\<lambda>s. 3 - s)"
  by (auto simp: graceful_def winds_down_def demo_server_def split: if_splits)

definition launched_proxy :: "(unit, unit) proxy" where
  "launched_proxy = \<lparr>oidcRequestAuther = (), tokenAuther = (), tokenReviewer = None, secureServingInfo = (),
     proxyAuditor = \<lparr>serverConfig = \<lparr>ServerExternalAddress = ''0.0.0.0'', SecureServing = (),
       LongRunningVerbs = [''watch''], AuditBackend = None, EffectiveVersion = ''1.0.31''\<rparr>\<rparr>,
     restConfig = demo_rest, clientTransport = Some (RestTransport demo_rest), noAuthClientTransport = None,
     namespaceTransport = Some \<lparr>Transport = RestTransport demo_rest, SuffixNSMappingFile = [],
       MappingManager = \<lparr>mappings = [''tenant1'' \<mapsto> ''ns-one'']\<rparr>, DefaultNamespace = ''default''\<rparr>,
     proxyConfig = proxy_config NewOptions, proxyHooks = NewHooks\<rparr>"

definition demo_program :: "(unit, unit, unit, nat) program" where
  "demo_program = \<lparr>prog_env = demo_env, prog_command = demo_launch, prog_options = NewOptions,
     prog_proxy = launched_proxy, prog_target = root_url, prog_server = demo_server\<rparr>"

lemma demo_program_simps [simp]:
  "prog_env demo_program = demo_env" "prog_command demo_program = demo_launch" "prog_options demo_program = NewOptions"
  "prog_proxy demo_program = launched_proxy" "prog_target demo_program = root_url" "prog_server demo_program = demo_server"
  by (simp_all add: demo_program_def)

lemma demo_started_as: "started_as demo_program (\<lambda>f. None)"
proof -
  let ?p = "launched_proxy\<lparr>clientTransport := None,
    namespaceTransport := map_option (\<lambda>n. n\<lparr>Transport := DefaultTransport\<rparr>) (namespaceTransport launched_proxy)\<rparr>"
  have "client_config demo_launch (\<lambda>f. None) = Ok demo_rest"
    by (simp add: client_config_def ClientFlagsChanged_def clientOptionFlags_def demo_launch_def)
  moreover have "token_reviewer_for demo_launch (App NewOptions) demo_rest = Ok None"
    by (simp add: token_reviewer_for_def NewOptions_def NewKubeOIDCProxyOptions_def)
  moreover have "New (platform_of demo_launch) demo_rest (OIDCAuthentication NewOptions) None ()
      (proxy_config NewOptions) = Ok ?p"
    by (simp add: New_def NewAudit_def NewCustomNamespaceRoundTripper_def demo_launch_def demo_platform_def demo_loaded
        launched_proxy_def proxy_config_def NewOptions_def NewSecureServingOptions_def NewKubeOIDCProxyOptions_def)
  moreover have "FakeJWT (new_signer demo_launch) (serialize demo_launch) (IssuerURL (OIDCAuthentication NewOptions)) = Ok ''jwt''"
    by (simp add: FakeJWT_def demo_launch_def)
  ultimately have "build_proxy demo_launch (\<lambda>f. None) NewOptions = Ok (?p, ''jwt'')"
    by (simp add: build_proxy_def NewSubjectAccessReview_def from_sum_def unless_error_def demo_launch_def)
  moreover have "set_transports (platform_of demo_launch) ?p = Ok launched_proxy"
    by (simp add: set_transports_def roundTripperForRestConfig_def demo_launch_def demo_platform_def launched_proxy_def
        set_namespace_transport_def proxy_config_def NewOptions_def NewKubeOIDCProxyOptions_def)
  ultimately show ?thesis by (simp add: started_as_def demo_launch_def demo_platform_def launched_proxy_def)
qed

definition demo_boot :: "probe_server \<Rightarrow> nat process" where
  "demo_boot ps = boot demo_program True True (ns_file ''ns-one'') \<lparr>mappings = [''tenant1'' \<mapsto> ''ns-one'']\<rparr> ps []"

lemma demo_boots: "\<exists>ps. process_run demo_program (demo_boot ps)"
proof -
  obtain h p' ps where run: "RunE demo_env demo_launch False (\<lambda>f. None) NewOptions [] = (Started h p' ps, [])"
    using demo_started by blast
  have "process_run demo_program (demo_boot ps)"
    unfolding demo_boot_def
    by (rule process_run.boots [OF _ demo_started_as])
       (use run in \<open>simp_all add: demo_loaded demo_launch_def map_path_def\<close>)
  then show ?thesis by blast
qed

lemma sound_demo [simp]: "sound_authn demo_env"
  by (auto simp: sound_authn_def demo_env_def base_env_def)

lemma sound_impersonation_demo [simp]: "sound_impersonation demo_env"
proof -
  have names: "list_all valid_header_byte ''Impersonate-User''" "list_all valid_header_byte ''Impersonate-Group''"
    by code_simp+
  have "wf_header (foldl (\<lambda>h g. Add h ''Impersonate-Group'' g) h gs)" if "wf_header h" for h gs
    by (rule wf_header_foldl [OF _ that]) (rule wf_header_Add [OF _ names(2)])
  with wf_header_SetHeader [OF _ names(1)] show ?thesis
    by (simp add: sound_impersonation_def demo_env_def set_impersonation_def)
qed

lemma quiet_demo [simp]: "quiet_audit demo_program"
  by (simp add: quiet_audit_def quiet_backend_def launched_proxy_def)

section \<open>A request across a reload\<close>

definition demo_admitted :: "probe_server \<Rightarrow> nat process" where
  "demo_admitted ps = admit demo_program 0 (connect tenant1_request (demo_boot ps))"

definition swapped :: "watch_state" where
  "swapped = \<lparr>file_now = Inr (ns_file ''ns-two''), manager = \<lparr>mappings = [''tenant1'' \<mapsto> ''ns-two'']\<rparr>, running = True\<rparr>"

definition demo_swapped :: "probe_server \<Rightarrow> nat process" where
  "demo_swapped ps = (demo_admitted ps)\<lparr>watcher := swapped, held := [ns_file ''ns-two'', ns_file ''ns-one'']\<rparr>"

definition demo_answered :: "probe_server \<Rightarrow> nat process" where
  "demo_answered ps = answer demo_program 0 (fst (admission demo_env launched_proxy tenant1_request [])) (demo_swapped ps)"

lemma demo_answered_run:
  assumes "process_run demo_program (demo_boot ps)"
  shows "process_run demo_program (demo_answered ps)"
proof -
  have arr: "arrives tenant1_request"
  proof -
    have "wf_header (Header tenant1_request)" by code_simp
    then show ?thesis by (simp add: arrives_def tenant1_request_def)
  qed
  have "process_run demo_program (connect tenant1_request (demo_boot ps))"
    by (rule process_run.steps [OF assms process_step.connect])
       (simp_all add: arr demo_boot_def boot_def alive_def SignalHandler_def demo_server_def)
  then have "process_run demo_program (demo_admitted ps)"
    unfolding demo_admitted_def
    by (rule process_run.steps [OF _ process_step.admit])
       (simp_all add: demo_boot_def boot_def alive_def SignalHandler_def connect_def)
  then have run: "process_run demo_program ((demo_admitted ps)\<lparr>watcher := (watcher (demo_admitted ps))\<lparr>file_now := Inr (ns_file ''ns-two'')\<rparr>,
      held := hold (FileChanges (Inr (ns_file ''ns-two''))) (held (demo_admitted ps))\<rparr>)" (is "process_run _ ?s")
    by (rule process_run.steps [OF _ process_step.watch])
       (simp_all add: demo_admitted_def demo_boot_def boot_def alive_def SignalHandler_def connect_def admit_def
          case_prod_unfold Let_def watch_step.file_changes)
  have rel: "relevant_event (map_path demo_program) ''/etc/map/..data''" by code_simp
  have "watch_step (map_path demo_program) (watcher ?s) (Received (FsEvent ''/etc/map/..data'')) swapped"
    using rel
    by (simp add: watch_step_received watch_handle_def swapped_def loadMappings_def demo_admitted_def demo_boot_def
        boot_def watchFile_start_def admit_def connect_def case_prod_unfold Let_def)
  moreover have "alive ?s"
    by (simp add: demo_admitted_def demo_boot_def boot_def alive_def SignalHandler_def connect_def admit_def
        case_prod_unfold Let_def)
  ultimately have "process_run demo_program (?s\<lparr>watcher := swapped, held := hold (Received (FsEvent ''/etc/map/..data'')) (held ?s)\<rparr>)"
    by (intro process_run.steps [OF run process_step.watch])
  then have "process_run demo_program (demo_swapped ps)"
    by (simp add: demo_swapped_def demo_admitted_def demo_boot_def boot_def connect_def admit_def hold_def
        case_prod_unfold Let_def)
  then show ?thesis
    unfolding demo_answered_def
    by (rule process_run.steps [OF _ process_step.answer])
       (simp_all add: demo_swapped_def demo_admitted_def demo_boot_def boot_def alive_def SignalHandler_def connect_def admit_def
          advance_def case_prod_unfold Let_def)
qed

text \<open>The only connection has caused all events, those of serving its request with the new mapping.\<close>

definition demo_trace :: trace where
  "demo_trace = snd (served demo_env (with_manager (manager swapped) launched_proxy) root_url tenant1_request [])"

lemma demo_conns:
  "\<exists>rep. conns (demo_answered ps) = [\<lparr>asked = tenant1_request, stage = Answered rep, own = demo_trace\<rparr>]"
  "events (demo_answered ps) = demo_trace"
proof -
  let ?q = "with_manager (manager swapped) launched_proxy"
  obtain v es where adm: "admission demo_env launched_proxy tenant1_request [] = (v, es)" by fastforce
  obtain rep t where run: "carry_out demo_env ?q (forwarding demo_env ?q root_url) (v, es) = (rep, t)" by fastforce
  from answer_appends [OF transparent_demo this] obtain es2 where t: "t = es @ es2" by blast
  have trace: "demo_trace = es @ es2" using adm run t by (simp add: demo_trace_def served_steps)
  have "demo_answered ps = advance 0 (Answered rep) t (demo_swapped ps)"
    using adm run
    by (simp add: demo_answered_def answer_def demo_swapped_def demo_admitted_def admit_def demo_boot_def boot_def
        connect_def Let_def)
  moreover have "conns (demo_swapped ps) = [\<lparr>asked = tenant1_request, stage = Decided v, own = es\<rparr>]"
    "events (demo_swapped ps) = es"
    using adm by (simp_all add: demo_swapped_def demo_admitted_def admit_def demo_boot_def boot_def connect_def advance_def Let_def)
  ultimately show "\<exists>rep. conns (demo_answered ps) = [\<lparr>asked = tenant1_request, stage = Answered rep, own = demo_trace\<rparr>]"
    "events (demo_answered ps) = demo_trace"
    unfolding trace by (simp_all add: advance_def Let_def t)
qed

lemma demo_trace_sent:
  "map (\<lambda>(tr, r). (Values (Header r) ''Impersonate-User'', first_namespace (Path (URL r)))) (sent_of demo_trace) =
     [([''alice''], Some ''ns-two'')]"
  by code_simp

lemma demo_not_passed: "\<not> passed_through \<lparr>asked = tenant1_request, stage = st, own = demo_trace\<rparr>"
proof -
  have "\<not> list_ex (\<lambda>e. case e of ReviewCall q (Inr st) \<Rightarrow> IsAuthenticated st | _ \<Rightarrow> False) demo_trace" by code_simp
  then show ?thesis by (simp add: passed_through_def)
qed

lemma demo_sentE:
  obtains ps tr r' where "process_run demo_program (demo_answered ps)" "(tr, r') \<in> set (sent_of demo_trace)"
    "first_namespace (Path (URL r')) = Some ''ns-two''"
proof -
  obtain ps where "process_run demo_program (demo_boot ps)" using demo_boots by blast
  from demo_answered_run [OF this] that demo_trace_sent show thesis by (cases "sent_of demo_trace") auto
qed

theorem process_authenticates_witness:
  "\<exists>s tr r' c pre a. process_run demo_program s \<and> (tr, r') \<in> set (sent_of (events s)) \<and> c \<in> set (conns s) \<and>
     AuthnCall (asked c) a \<in> set pre \<and> prefix (pre @ [Sent tr r']) (own c) \<and> AuthErr a = None \<and>
     (\<exists>u w. AuthInfo a = Some u \<and> may_act_as (AuthHeader a) u w pre)"
proof -
  obtain ps tr r' where *: "process_run demo_program (demo_answered ps)" "(tr, r') \<in> set (sent_of demo_trace)"
    by (rule demo_sentE)
  have cfg: "\<not> AppDisableImpersonation (App NewOptions)" "\<not> PassthroughEnabled (App NewOptions)"
    by (simp_all add: NewOptions_def NewKubeOIDCProxyOptions_def)
  have "(tr, r') \<in> set (sent_of (events (demo_answered ps)))" using * demo_conns(2) by simp
  from process_authenticates [OF _ _ _ quiet_demo *(1) this] cfg obtain c pre post a u w where
    "c \<in> set (conns (demo_answered ps))" "own c = pre @ Sent tr r' # post" "AuthnCall (asked c) a \<in> set pre"
    "AuthErr a = None" "AuthInfo a = Some u" "may_act_as (AuthHeader a) u w pre" by auto
  with *(1) \<open>(tr, r') \<in> set (sent_of (events (demo_answered ps)))\<close> show ?thesis
    by (intro exI [of _ "demo_answered ps"] exI [of _ tr] exI [of _ r'] exI [of _ c] exI [of _ pre] exI [of _ a])
       (auto simp: prefix_def)
qed



section \<open>A graceful shutdown\<close>

definition stopped_signals :: signal_state where
  "stopped_signals = \<lparr>ch = [], stop_closed = True, signal_pc = Loop 0 SIGTERM, accepted = 1\<rparr>"

definition demo_stopping :: "probe_server \<Rightarrow> nat \<Rightarrow> main_pc \<Rightarrow> nat process" where
  "demo_stopping ps sv pc = (demo_boot ps)\<lparr>signals := stopped_signals, server := sv, main_at := pc\<rparr>"

lemma demo_stopping_simps [simp]:
  "signals (demo_stopping ps sv pc) = stopped_signals" "server (demo_stopping ps sv pc) = sv"
  "main_at (demo_stopping ps sv pc) = pc"
  "(demo_stopping ps sv pc)\<lparr>server := sv'\<rparr> = demo_stopping ps sv' pc"
  "(demo_stopping ps sv pc)\<lparr>main_at := pc'\<rparr> = demo_stopping ps sv pc'"
  by (simp_all add: demo_stopping_def)

lemma demo_stopping_alive:
  "pc = WaitServer \<or> pc = WaitListener \<or> pc = RunningHooks \<Longrightarrow> alive (demo_stopping ps sv pc)"
  by (auto simp: alive_def stopped_signals_def)

lemma demo_stop_begins:
  assumes "process_run demo_program (demo_boot ps)"
  shows "process_run demo_program (demo_stopping ps 0 WaitServer)"
proof -
  let ?d = "deliver SIGTERM SignalHandler"
  have boot: "signals (demo_boot ps) = SignalHandler" "main_at (demo_boot ps) = WaitServer" "server (demo_boot ps) = 0"
    by (simp_all add: demo_boot_def boot_def demo_server_def)
  have pc: "signal_pc SignalHandler \<noteq> Exit1" "signal_pc ?d \<noteq> Exit1" by (simp_all add: SignalHandler_def deliver_def)
  have rec: "receive ?d = Some stopped_signals"
    by (simp add: receive_def deliver_def SignalHandler_def chan_capacity_def stopped_signals_def)
  have "process_run demo_program ((demo_boot ps)\<lparr>signals := ?d\<rparr>)"
    by (rule process_run.steps [OF assms process_step.signal])
       (use boot pc deliver_step [OF pc(1)] in \<open>simp_all add: alive_def\<close>)
  then have "process_run demo_program ((demo_boot ps)\<lparr>signals := ?d\<rparr>\<lparr>signals := stopped_signals\<rparr>)"
    by (rule process_run.steps [OF _ process_step.signal])
       (use boot pc receive_step [OF rec] in \<open>simp_all add: alive_def\<close>)
  moreover have "(demo_boot ps)\<lparr>signals := ?d\<rparr>\<lparr>signals := stopped_signals\<rparr> = demo_stopping ps 0 WaitServer"
    using boot by (cases "demo_boot ps") (simp add: demo_stopping_def)
  ultimately show ?thesis by simp
qed

lemma demo_stop_server:
  assumes "process_run demo_program (demo_stopping ps sv WaitServer)" and "sv < 3"
  shows "process_run demo_program (demo_stopping ps (Suc sv) WaitServer)"
proof -
  have "process_step demo_program (demo_stopping ps sv WaitServer) ServerMoves
      ((demo_stopping ps sv WaitServer)\<lparr>server := Suc sv\<rparr>)"
    by (rule process_step.server)
       (use assms(2) in \<open>simp_all add: demo_stopping_alive demo_server_def stopped_signals_def\<close>)
  from process_run.steps [OF assms(1) this] show ?thesis by simp
qed

lemma demo_ends:
  "\<exists>s. process_run demo_program s \<and> main_at s = Ended ([], 0)"
proof -
  obtain ps where "process_run demo_program (demo_boot ps)" using demo_boots by blast
  from demo_stop_server [OF demo_stop_server [OF demo_stop_server [OF demo_stop_begins [OF this]]]]
  have 1: "process_run demo_program (demo_stopping ps 3 WaitServer)" by (simp add: numeral_3_eq_3)
  have "process_step demo_program (demo_stopping ps 3 WaitServer) MainWaited
      ((demo_stopping ps 3 WaitServer)\<lparr>main_at := WaitListener\<rparr>)"
    by (rule process_step.waited) (simp_all add: demo_stopping_alive demo_server_def)
  from process_run.steps [OF 1 this] have 2: "process_run demo_program (demo_stopping ps 3 WaitListener)" by simp
  have "process_step demo_program (demo_stopping ps 3 WaitListener) MainWaited
      ((demo_stopping ps 3 WaitListener)\<lparr>main_at := RunningHooks\<rparr>)"
    by (rule process_step.waited_listener) (simp_all add: demo_stopping_alive demo_server_def)
  from process_run.steps [OF 2 this] have 3: "process_run demo_program (demo_stopping ps 3 RunningHooks)" by simp
  have "process_step demo_program (demo_stopping ps 3 RunningHooks) ShutDown
      (shut_down demo_program (demo_stopping ps 3 RunningHooks))"
    by (rule process_step.shut_down) (simp_all add: demo_stopping_alive)
  from process_run.steps [OF 3 this]
  have "process_run demo_program (shut_down demo_program (demo_stopping ps 3 RunningHooks))" .
  moreover have "main_at (shut_down demo_program (demo_stopping ps 3 RunningHooks)) = Ended ([], 0)"
    by (subst shut_down_main) (simp_all add: launched_proxy_def main_exit_def demo_launch_def)
  ultimately show ?thesis by blast
qed

theorem process_ends_in_order_witness:
  "\<exists>s. process_run demo_program s \<and> main_at s = Ended ([], 0) \<and> accepted (signals s) \<ge> 1 \<and>
     listener_closed (prog_server demo_program) (server s)"
proof -
  obtain s where s: "process_run demo_program s" "main_at s = Ended ([], 0)" using demo_ends by blast
  have "graceful (prog_server demo_program) (\<lambda>s. 3 - s)" using graceful_demo by simp
  from process_ends_in_order [OF this s(1)] s show ?thesis by blast
qed


end
