(* ===== verification/Flag_Sets.thy ===== *)
theory Flag_Sets
  imports Options
begin

text \<open>
  The flags of the command: the named sets that the constructors of \<open>cmd/app/options\<close> fill, what
  \<open>Options.AddFlags\<close> makes of them, the client and the miscellaneous options and the version output.
  The flag library is modelled as far as the source uses it: a named set is made when it is first
  asked for, and adding a set to another passes over names that are there.  The flags that other
  libraries add, and how the version is rendered, are the parameter \<open>option_library\<close>.
\<close>

section \<open>Named flag sets\<close>

text \<open>In the order in which they were made.\<close>

type_synonym named_flag_sets = "(string \<times> flag_set) list"

definition add_flags :: "string \<Rightarrow> flag_set \<Rightarrow> named_flag_sets \<Rightarrow> named_flag_sets" where
  "add_flags name fs nfs =
     AList.update name ((case map_of nfs name of None \<Rightarrow> [] | Some old \<Rightarrow> old) @ fs) nfs"

definition AddFlagSet :: "flag_set \<Rightarrow> flag_set \<Rightarrow> flag_set" where
  "AddFlagSet fs new = fs @ filter (\<lambda>(n, d). n \<notin> key_set fs) new"

section \<open>Client and miscellaneous options\<close>

text \<open>The fields of the library's \<open>ConfigFlags\<close> that the source touches; a nil field is \<open>None\<close>.\<close>

record config_flags =
  CacheDir :: "string option"
  Impersonate :: "string option"
  ImpersonateGroup :: "string list option"

record misc_options =
  gitMajor :: string
  gitMinor :: string
  gitVersion :: string
  gitCommit :: string
  gitTreeState :: string
  buildDate :: string

text \<open>The package's variables as the source initialises them; the linker may set them.\<close>

definition package_vars :: misc_options where
  "package_vars = \<lparr>gitMajor = [], gitMinor = [], gitVersion = ''v0.0.0-master+$Format:%h$'',
     gitCommit = ''$Format:%H$'', gitTreeState = [], buildDate = ''1970-01-01T00:00:00Z''\<rparr>"

definition NewMiscOptions :: "misc_options \<Rightarrow> misc_options" where
  "NewMiscOptions vars = \<lparr>gitMajor = gitMajor vars, gitMinor = gitMinor vars, gitVersion = gitVersion vars,
     gitCommit = gitCommit vars, gitTreeState = gitTreeState vars, buildDate = buildDate vars\<rparr>"

record runtime_info =
  GoVersion :: string
  Compiler :: string
  GOOS :: string
  GOARCH :: string

record version_info =
  Major :: string
  Minor :: string
  GitVersion :: string
  GitCommit :: string
  GitTreeState :: string
  BuildDate :: string
  InfoGoVersion :: string
  InfoCompiler :: string
  InfoPlatform :: string

record 'cf option_library =
  lib_serving_flags :: flag_set
  lib_audit_flags :: flag_set
  new_config_flags :: "bool \<Rightarrow> 'cf config_flags_scheme"
  config_flag_set :: "'cf config_flags_scheme \<Rightarrow> flag_set"
  global_flags :: "string \<Rightarrow> flag_set"
  show_info :: "version_info \<Rightarrow> string"
  print_sections :: "named_flag_sets \<Rightarrow> string"

definition NewClientOptions :: "'cf option_library \<Rightarrow> 'cf config_flags_scheme" where
  "NewClientOptions L = (new_config_flags L True)\<lparr>CacheDir := None, Impersonate := None, ImpersonateGroup := None\<rparr>"

definition client_flags :: "'cf option_library \<Rightarrow> flag_set" where
  "client_flags L = config_flag_set L (NewClientOptions L)"

definition misc_flags :: "'cf option_library \<Rightarrow> flag_set" where
  "misc_flags L = global_flags L AppName @ [(''version'', FBool False)]"

text \<open>\<open>PrintVersionAndExit\<close>: what is printed, and the exit status.\<close>

definition PrintVersionAndExit :: "'cf option_library \<Rightarrow> runtime_info \<Rightarrow> misc_options \<Rightarrow> string \<times> int" where
  "PrintVersionAndExit L rt m =
     (let info = \<lparr>Major = gitMajor m, Minor = gitMinor m, GitVersion = gitVersion m, GitCommit = gitCommit m,
            GitTreeState = gitTreeState m, BuildDate = buildDate m, InfoGoVersion = GoVersion rt,
            InfoCompiler = Compiler rt, InfoPlatform = GOOS rt @ ''/'' @ GOARCH rt\<rparr>
      in (AppName @ '' version: '' @ show_info L info @ [newline], 0))"

section \<open>The flags of the command\<close>

definition NewSecureServingOptions_sets :: "'cf option_library \<Rightarrow> named_flag_sets \<Rightarrow> named_flag_sets" where
  "NewSecureServingOptions_sets L nfs = add_flags ''Secure Serving'' (lib_serving_flags L) nfs"

definition NewAuditOptions_sets :: "'cf option_library \<Rightarrow> named_flag_sets \<Rightarrow> named_flag_sets" where
  "NewAuditOptions_sets L nfs = add_flags ''Audit'' (lib_audit_flags L) nfs"

text \<open>\<open>New\<close>: what the six constructors leave in the named flag sets.\<close>

definition NewFlagSets :: "'cf option_library \<Rightarrow> named_flag_sets" where
  "NewFlagSets L =
     (let n1 = add_flags ''Kube-OIDC-Proxy'' app_flags [];
          n2 = add_flags ''OIDC'' oidc_flags n1;
          n3 = NewSecureServingOptions_sets L n2;
          n4 = NewAuditOptions_sets L n3;
          n5 = add_flags ''Client'' (client_flags L) n4
      in add_flags ''Misc'' (misc_flags L) n5)"

text \<open>\<open>AddFlags\<close> visits a Go map, so the sets come in any order.\<close>

definition AddFlags :: "named_flag_sets \<Rightarrow> flag_set" where
  "AddFlags sets = foldl (\<lambda>fs (name, f). AddFlagSet fs f) [] sets"

definition UsageFunc :: "'cf option_library \<Rightarrow> named_flag_sets \<Rightarrow> string \<Rightarrow> string" where
  "UsageFunc L nfs useLine =
     ''Usage:'' @ [newline] @ ''  '' @ useLine @ [newline] @ print_sections L nfs"

definition HelpFunc :: "'cf option_library \<Rightarrow> named_flag_sets \<Rightarrow> string \<Rightarrow> string \<Rightarrow> string" where
  "HelpFunc L nfs long useLine = long @ [newline, newline] @ UsageFunc L nfs useLine"

record command =
  Use :: string
  Long :: string
  CommandOptions :: options
  CommandFlags :: flag_set

text \<open>\<open>NewRunCommand\<close>; \<open>sets\<close> are the named flag sets in the order in which Go visits them.\<close>

definition NewRunCommand :: "named_flag_sets \<Rightarrow> command" where
  "NewRunCommand sets =
     \<lparr>Use = AppName,
      Long = ''kube-oidc-proxy is a reverse proxy to authenticate users to Kubernetes API servers with Open ID Connect Authentication.'',
      CommandOptions = NewOptions, CommandFlags = AddFlags sets\<rparr>"

text \<open>What the parser leaves of the flags a command has: each with whether it was given.\<close>

definition parsed :: "flag_set \<Rightarrow> string set \<Rightarrow> flag_state" where
  "parsed fs given n = (if n \<in> key_set fs then Some (n \<in> given) else None)"

section \<open>Properties\<close>

lemma keys_AddFlagSet: "keys_of (AddFlagSet fs new) = keys_of fs @ filter (\<lambda>n. n \<notin> key_set fs) (keys_of new)"
  by (simp add: AddFlagSet_def filter_map comp_def case_prod_unfold)

lemma AddFlagSet_keys: "key_set (AddFlagSet fs new) = key_set fs \<union> key_set new"
  using arg_cong [OF keys_AddFlagSet [of fs new], of set] by auto

lemma AddFlagSet_wf: "wf_map fs \<Longrightarrow> wf_map new \<Longrightarrow> wf_map (AddFlagSet fs new)"
  unfolding wf_map_def keys_AddFlagSet by auto

lemma foldl_AddFlagSet_keys:
  "key_set (foldl (\<lambda>fs (name, f). AddFlagSet fs f) fs sets) = key_set fs \<union> (\<Union>(name, f) \<in> set sets. key_set f)"
proof (induction sets arbitrary: fs)
  case (Cons a sets)
  from Cons [of "AddFlagSet fs (snd a)"] show ?case
    by (simp add: AddFlagSet_keys case_prod_unfold Un_assoc)
qed simp

lemma foldl_AddFlagSet_wf:
  "wf_map fs \<Longrightarrow> list_all (\<lambda>(name, f). wf_map f) sets \<Longrightarrow>
   wf_map (foldl (\<lambda>fs (name, f). AddFlagSet fs f) fs sets)"
  by (induction sets arbitrary: fs) (auto simp: AddFlagSet_wf)

lemma foldl_AddFlagSet_mem:
  "set (foldl (\<lambda>fs (name, f). AddFlagSet fs f) fs sets) \<subseteq> set fs \<union> (\<Union>(name, f) \<in> set sets. set f)"
proof (induction sets arbitrary: fs)
  case (Cons a sets)
  have "set (foldl (\<lambda>fs (name, f). AddFlagSet fs f) (AddFlagSet fs (snd a)) sets) \<subseteq>
      set (AddFlagSet fs (snd a)) \<union> (\<Union>(name, f) \<in> set sets. set f)" by (rule Cons)
  then show ?case by (auto simp: AddFlagSet_def case_prod_unfold)
qed simp

lemma NewFlagSets_list:
  "NewFlagSets L = [(''Kube-OIDC-Proxy'', app_flags), (''OIDC'', oidc_flags), (''Secure Serving'', lib_serving_flags L),
     (''Audit'', lib_audit_flags L), (''Client'', client_flags L), (''Misc'', misc_flags L)]"
  by (simp add: NewFlagSets_def NewSecureServingOptions_sets_def NewAuditOptions_sets_def add_flags_def Let_def)


definition demo_library :: "unit option_library" where
  "demo_library = \<lparr>lib_serving_flags = [(''secure-port'', FInt 6443)], lib_audit_flags = [(''audit-log-path'', FString [])],
     new_config_flags = (\<lambda>b. \<lparr>CacheDir = Some ''cache'', Impersonate = Some [], ImpersonateGroup = Some [], \<dots> = ()\<rparr>),
     config_flag_set = (\<lambda>c. (''kubeconfig'', FString []) # (case CacheDir c of None \<Rightarrow> [] | Some d \<Rightarrow> [(''cache-dir'', FString d)])),
     global_flags = (\<lambda>name. [(''help'', FBool False)]), show_info = (\<lambda>i. GitVersion i), print_sections = (\<lambda>n. [])\<rparr>"


text \<open>The version flag always exists, so \<open>Validate\<close> reads it safely.\<close>

lemma version_registered:
  "set sets = set (NewFlagSets L) \<Longrightarrow> ''version'' \<in> key_set (AddFlags sets)"
proof -
  assume "set sets = set (NewFlagSets L)"
  then have "key_set (AddFlags sets) = (\<Union>(name, f) \<in> set (NewFlagSets L). key_set f)"
    by (simp add: AddFlags_def foldl_AddFlagSet_keys)
  moreover have "''version'' \<in> key_set (misc_flags L)" by (simp add: misc_flags_def)
  ultimately show ?thesis by (auto simp: NewFlagSets_list)
qed

text \<open>The client configuration comes from the flags exactly if one of the twelve named flags that the
  command has was given; none of the proxy's own flags has such a name.\<close>

lemma client_flags_given:
  "ClientFlagsChanged (parsed fs given) \<longleftrightarrow> (\<exists>f \<in> set clientOptionFlags. f \<in> key_set fs \<and> f \<in> given)"
  by (auto simp: ClientFlagsChanged_def parsed_def list_ex_iff split: if_splits)

lemma own_flags_no_client: "key_set (app_flags @ oidc_flags) \<inter> set clientOptionFlags = {}"
proof -
  have "list_all (\<lambda>n. n \<notin> set clientOptionFlags) (keys_of (app_flags @ oidc_flags))" by code_simp
  then show ?thesis by (auto simp: list_all_iff)
qed

end
