(* ===== verification/Spec2Isabelle.thy ===== *)
theory Spec2Isabelle
  imports Process_Examples Flag_Sets
begin

text \<open>
  A model of pf9-oidc-proxy, a reverse proxy in front of a Kubernetes API server: it authenticates
  the bearer token of every request with an OIDC provider, sets impersonation headers for the
  user it found, and rewrites the path so that a tenant reaches its own namespace only.

  \<^bold>\<open>The program.\<close>  A client's request passes the handlers of \<open>pkg/proxy/handlers.go\<close> in order:
  \<open>withAuthenticateRequest\<close> asks the authenticator; when that fails, \<open>withTokenReview\<close> may have the
  API server review the token and mark the request to be passed on as it is;
  \<open>withImpersonateRequest\<close> checks the impersonation headers of the client
  (\<open>pkg/proxy/subjectaccessreview\<close>) and puts the impersonation configuration into the request's
  context (\<open>pkg/proxy/context\<close>); the audit filters (\<open>pkg/proxy/audit\<close>) follow; the reverse proxy of
  the Go library prepares the outgoing request and calls \<open>RoundTrip\<close> (\<open>pkg/proxy/proxy.go\<close>), which
  writes the access log (\<open>pkg/proxy/logging\<close>), adds the impersonation headers and hands the request
  to the namespace round tripper (\<open>pkg/proxy/namespace_round_tripper.go\<close>), which looks the tenant up
  in a mapping that a watcher goroutine keeps up to date.  The command (\<open>cmd/app/run.go\<close>) validates
  the options, builds the proxy, starts the readiness probe (\<open>pkg/probe\<close>) and the server, and runs the
  shutdown hooks once the server has stopped; signals (\<open>pkg/util/signals.go\<close>) stop it.

  \<^bold>\<open>Effects.\<close>  A handler maps a request and the trace of events so far to a reply and the longer
  trace (\<open>Proxy_Types\<close>).  The events are the calls to the authenticator and to the API server's
  review endpoints with their answers, the lines of the access log, the events of the audit
  filters and the requests sent upstream with the transport they use.  A call that panics aborts
  the request.  What is outside the repository is a field of the record \<open>env\<close> (while a request is
  handled) or \<open>platform\<close> (while the proxy is built and started); its functions see the trace, so
  their answers may change from call to call.

  \<^bold>\<open>The theories\<close> and what they model.
  \<^item> \<open>Prelude\<close>: errors, results, Go's byte strings and maps; the locale \<open>multimap\<close>, the interface
    of everything that collects values at keys.
  \<^item> \<open>Http\<close>, \<open>Url_Query\<close>, \<open>Json\<close>: what the source uses of the packages \<open>net/http\<close> (header fields),
    \<open>net/url\<close> (queries) and \<open>encoding/json\<close> (encoding and decoding of documents).  The locale of
    \<open>Prelude\<close> is interpreted on the header and on the query.
  \<^item> \<open>Proxy_Types\<close>: users, reviews, requests, replies, events.
  \<^item> \<open>Request_Context\<close>: \<open>pkg/proxy/context/context.go\<close>.
  \<^item> \<open>Subject_Access_Review\<close>: \<open>pkg/proxy/subjectaccessreview\<close> and its fake.
  \<^item> \<open>Token_Review\<close>: \<open>pkg/util/token.go\<close>, \<open>pkg/proxy/tokenreview\<close> and its fake.
  \<^item> \<open>Mapping_Manager\<close>, \<open>Namespace_Round_Tripper\<close>: \<open>pkg/proxy/namespace_round_tripper.go\<close>.
  \<^item> \<open>Access_Log\<close>: \<open>pkg/proxy/logging/accesslog.go\<close>.
  \<^item> \<open>Hooks\<close>, \<open>Audit_Chain\<close>: \<open>pkg/proxy/hooks\<close>, \<open>pkg/proxy/audit\<close>.
  \<^item> \<open>Options\<close>: the options of \<open>cmd/app/options\<close>, their flags, defaults and validation.
  \<^item> \<open>Flag_Sets\<close>: the named flag sets that these options fill and the flags the command gets from
    them, the client options, the version output, usage and help.
  \<^item> \<open>Proxy_State\<close>, \<open>Handlers\<close>, \<open>Reverse_Proxy\<close>, \<open>Proxy\<close>: the state of the proxy, its handlers, the
    library's reverse proxy, and \<open>New\<close>, \<open>Run\<close>, \<open>serve\<close> and \<open>RoundTrip\<close> of \<open>pkg/proxy/proxy.go\<close>.
  \<^item> \<open>Csv\<close>, \<open>Flags\<close>: what the source uses of \<open>encoding/csv\<close>, and the flag value of \<open>pkg/util/flags\<close>.
  \<^item> \<open>Probe\<close>, \<open>Signals\<close>: \<open>pkg/probe/probe.go\<close> and \<open>pkg/util/signals.go\<close>.
  \<^item> \<open>Run_Command\<close>: \<open>cmd/app/run.go\<close>, \<open>cmd/main.go\<close> and \<open>pkg/util/port.go\<close>.
  \<^item> \<open>Gate\<close>: the admission policy, stated without the handlers, and the proof that the chain of
    handlers implements it.
  \<^item> \<open>Forwarding\<close>: what a handler may send, and the shape of what it sends.
  \<^item> \<open>End_To_End\<close>: the properties of the whole served handler.
  \<^item> \<open>Answers\<close>: the properties of a command that has started: it answers every request and shuts
    down what it started.
  \<^item> \<open>Process\<close>: all goroutines of a started command as one step relation, and what the process may
    have sent in any state it reaches.
  \<^item> \<open>Lifecycle\<close>: how the process ends, and that it does.
  \<^item> \<open>Examples\<close>, \<open>Process_Examples\<close>: a concrete proxy with a concrete environment, and a concrete
    process, on which the hypotheses of the properties hold.

  \<^bold>\<open>What is proved.\<close>  Of the whole handler: a request goes upstream only for a user that was
  authenticated, at most once; an impersonated request names that user or a target of which the
  API server allowed every part, with exactly the groups it should have; the first namespace of
  its path is the tenant's own; what every error turns into; which transport is used and whose
  credentials it holds.  Of the impersonation check: exactly when it succeeds, with which target
  and which header, whatever the order in which Go visits the header.  Of the round tripper: how
  each kind of path is rewritten, and the paths at which it panics.  Of the watcher: whatever the
  file goes through, the mapping in use is one the file has held.  Of the process, in every state it
  reaches: whatever was sent belongs to one connection that was authenticated and authorised
  before, names the tenant's namespace by a mapping the file has held and has a well-formed header;
  it serves until it is told to stop and ends in order; its own steps always come to an end.  Of the
  flags: the order in which Go visits a map does not matter.  Of the rest: the exact token of
  a header, round trips through JSON and CSV, the lines of the log, shutdown hooks, the validation of the
  options, the latch of the probe and the counting of signals.

  \<^bold>\<open>Hypotheses on code outside.\<close>  \<open>transparent_env\<close> (\<open>Audit_Chain\<close>): the audit filters only append
  audit events and context values of their own and either call the handler they wrap or refuse the
  request.  \<open>impersonates\<close> and \<open>sound_impersonation\<close> (\<open>End_To_End\<close>): client-go's impersonating round
  tripper leaves a request that already names a user as it is, else sets the user and adds the
  groups, changes no field other than the impersonation fields, and sets fields with valid names
  only.  \<open>sound_authn\<close> and \<open>quiet_audit\<close> (\<open>Process\<close>): the authenticator deletes header fields only, and
  the audit backend writes audit events only.  \<open>graceful\<close> (\<open>Lifecycle\<close>): the server accepts connections
  until the stop channel is closed and then closes its two channels after finitely many steps.  All
  hold of the environment, the process and the server of the examples.

  \<^bold>\<open>Recursion.\<close>  No definition uses fuel.  The parsers of \<open>Json\<close> call themselves only on a shorter
  rest, which a guard makes visible to the termination proof; \<open>parse_length\<close> shows that the guard
  never fires.  The loops of the source run over the elements of a list and are structural
  recursions; the watcher and the signal goroutine, which may run for ever, are step relations.

  \<^bold>\<open>Concurrency.\<close>  Requests share the proxy, of which only the tenant mapping changes while it serves.
  A request looks the mapping up once, under a lock, so it sees one version of it: the mapping of
  the record \<open>proxy\<close> in a theorem on a request is the one in use at that moment.  In \<open>Process\<close> a
  request takes two steps, its admission and the rest, with the steps of other requests, of the
  watcher, of the signal handler, of the probe and of the server in between in any order; the
  mapping is the one in use at the second step.  Within a step the calls of one request are not
  interleaved with those of another.  A request that was not answered when \<open>main\<close> returns is lost:
  the process ends with it, as the server's shutdown timeout allows.

  \<^bold>\<open>Not modelled.\<close>  The diagnostic log (klog) and the lines the watcher prints; the
  parsing of the command line by cobra; the flags that the libraries register; the body of a request
  and the streaming and upgrading of a response; the scheme and host of an outgoing URL and the
  escaped form of its path, which the library derives from the path; the texts of the errors of
  \<open>encoding/json\<close>; the OIDC library, the client libraries of Kubernetes, TLS, the audit backend and
  the server, which are parameters.  The file system is a function from paths to contents or
  errors.  Left out are \<open>pkg/mocks/mocks.go\<close> and \<open>cmd/app/options/plugin.go\<close>, a generator directive and a
  blank import without code of their own, and the tests and their tools under \<open>test\<close>.
\<close>

end
